theory Spec2Isabelle
  imports Complex_Main "HOL-Library.Word" "HOL-Library.Log_Nat"
begin

unbundle bit_operations_syntax

section \<open>Result values (server/src/utils/result.ts)\<close>

text \<open>
  The source never lets a failure travel as an exception across a component boundary:
  \<^verbatim>\<open>Result<Ok, Err> = ResultOk<Ok> | ResultErr<Err>\<close>. A computation that may throw
  (or a promise that may reject) is modelled as a sum, \<open>Inl\<close> carrying the thrown value,
  and \<^verbatim>\<open>result.tryCatch\<close> turns it into a \<open>Result\<close>.
\<close>

datatype ('ok, 'err) Result = ResultOk 'ok | ResultErr 'err

type_synonym exn = string

definition tryCatch :: "'err + 'ok \<Rightarrow> ('ok, 'err) Result" where
  "tryCatch fnOrPromise =
     (case fnOrPromise of Inr v \<Rightarrow> ResultOk v | Inl e \<Rightarrow> ResultErr e)"

section \<open>The JSON-RPC dispatcher (server/src/rpcHandler.ts)\<close>

text \<open>
  A parsed JSON document. \<^verbatim>\<open>JSON.parse\<close> itself belongs to the language runtime and is
  a parameter of the dispatcher model (\<open>Inl\<close> when it throws); an object is the list
  of its members, looked up with \<open>map_of\<close>. Numbers are the finite ones.
\<close>

datatype json =
    JNull
  | JBool bool
  | JNum rat
  | JStr string
  | JArr "json list"
  | JObj "(string \<times> json) list"

datatype rpc_id = IdString string | IdNumber rat | IdNull

record RPCRequest =
  req_id :: "rpc_id option"
  req_jsonrpc :: string
  req_method :: string
  req_params :: "json option"

text \<open>
  \<^verbatim>\<open>RPCRequestSchema.safeParse\<close>: an object whose \<^verbatim>\<open>id\<close> is absent or a string, a
  number or null, whose \<^verbatim>\<open>jsonrpc\<close> is the literal "2.0", whose \<^verbatim>\<open>method\<close> is a string
  and whose \<^verbatim>\<open>params\<close> is anything or absent.
\<close>

definition idSchema :: "json option \<Rightarrow> rpc_id option option" where
  "idSchema v =
     (case v of
        None \<Rightarrow> Some None
      | Some (JStr s) \<Rightarrow> Some (Some (IdString s))
      | Some (JNum n) \<Rightarrow> Some (Some (IdNumber n))
      | Some JNull \<Rightarrow> Some (Some IdNull)
      | Some _ \<Rightarrow> None)"

definition RPCRequestSchema :: "json \<Rightarrow> RPCRequest option" where
  "RPCRequestSchema j =
     (case j of
        JObj members \<Rightarrow>
          (case idSchema (map_of members ''id'') of
             None \<Rightarrow> None
           | Some i \<Rightarrow>
               (case map_of members ''jsonrpc'' of
                  Some (JStr v) \<Rightarrow>
                    (if v = ''2.0'' then
                       (case map_of members ''method'' of
                          Some (JStr m) \<Rightarrow>
                            Some \<lparr>req_id = i, req_jsonrpc = v, req_method = m,
                                  req_params = map_of members ''params''\<rparr>
                        | _ \<Rightarrow> None)
                     else None)
                | _ \<Rightarrow> None))
      | _ \<Rightarrow> None)"

record rpc_error =
  err_code :: int
  err_message :: string

datatype RPCResponse =
    ResultResponse (resp_id: rpc_id) (resp_jsonrpc: string) (resp_result: json)
  | ErrorResponse (resp_error: rpc_error) (resp_id: rpc_id) (resp_jsonrpc: string)

definition internalError :: rpc_error where
  "internalError = \<lparr>err_code = - 32603, err_message = ''Internal error''\<rparr>"

definition invalidParams :: rpc_error where
  "invalidParams = \<lparr>err_code = - 32602, err_message = ''Invalid params''\<rparr>"

definition invalidRequest :: rpc_error where
  "invalidRequest = \<lparr>err_code = - 32600, err_message = ''Invalid Request''\<rparr>"

definition methodNotFound :: rpc_error where
  "methodNotFound = \<lparr>err_code = - 32601, err_message = ''Method not found''\<rparr>"

definition parseError :: rpc_error where
  "parseError = \<lparr>err_code = - 32700, err_message = ''Parse error''\<rparr>"

text \<open>
  A registered handler: its method name, its parameter schema (applied to the possibly
  absent \<^verbatim>\<open>params\<close> member) and the handler itself, which runs against the world \<open>'w\<close>
  (datastore, network) and either rejects or resolves to its domain result. The four
  registered handlers are \<^verbatim>\<open>async\<close> functions, so a throw inside one is a rejection of
  the promise that \<^verbatim>\<open>result.tryCatch\<close> awaits.
\<close>

record 'w RPCHandler =
  h_method :: string
  paramsSchema :: "json option \<Rightarrow> json option"
  handler :: "json \<Rightarrow> 'w \<Rightarrow> (exn + json) \<times> 'w"

text \<open>\<^verbatim>\<open>createHandlersMap\<close>: \<^verbatim>\<open>handlers.set(handler.method, handler)\<close> for each entry in turn.\<close>

definition createHandlersMap :: "'w RPCHandler list \<Rightarrow> (string \<rightharpoonup> 'w RPCHandler)" where
  "createHandlersMap hs = foldl (\<lambda>handlers h. handlers(h_method h \<mapsto> h)) Map.empty hs"

text \<open>
  \<^verbatim>\<open>handleRPC\<close>. The request body is the outcome of \<^verbatim>\<open>c.req.text()\<close>. The result is a
  sum as well, so that an exception leaving the dispatcher would be an \<open>Inl\<close>.
\<close>

definition handleRPC ::
  "(string \<Rightarrow> exn + json) \<Rightarrow> 'w RPCHandler list \<Rightarrow> exn + string \<Rightarrow> 'w
     \<Rightarrow> (exn + RPCResponse) \<times> 'w" where
  "handleRPC JSON_parse RPC_HANDLERS body w =
     (let jsonRPCRequestID = IdNull in
      case tryCatch body of
        ResultErr _ \<Rightarrow> (Inr (ErrorResponse parseError jsonRPCRequestID ''2.0''), w)
      | ResultOk reqText \<Rightarrow>
      (case tryCatch (JSON_parse reqText) of
        ResultErr _ \<Rightarrow> (Inr (ErrorResponse parseError jsonRPCRequestID ''2.0''), w)
      | ResultOk reqJSON \<Rightarrow>
      (case RPCRequestSchema reqJSON of
        None \<Rightarrow> (Inr (ErrorResponse invalidRequest jsonRPCRequestID ''2.0''), w)
      | Some rpcRequest \<Rightarrow>
      (let jsonRPCRequestID = (case req_id rpcRequest of Some i \<Rightarrow> i | None \<Rightarrow> IdNull) in
       case createHandlersMap RPC_HANDLERS (req_method rpcRequest) of
        None \<Rightarrow> (Inr (ErrorResponse methodNotFound jsonRPCRequestID ''2.0''), w)
      | Some h \<Rightarrow>
      (case paramsSchema h (req_params rpcRequest) of
        None \<Rightarrow> (Inr (ErrorResponse invalidParams jsonRPCRequestID ''2.0''), w)
      | Some params \<Rightarrow>
      (case handler h params w of (outcome, w') \<Rightarrow>
      (case tryCatch outcome of
        ResultErr _ \<Rightarrow> (Inr (ErrorResponse internalError jsonRPCRequestID ''2.0''), w')
      | ResultOk v \<Rightarrow> (Inr (ResultResponse jsonRPCRequestID ''2.0'' v), w'))))))))"

section \<open>Numbers (the language runtime)\<close>

text \<open>
  A number of the source language is an IEEE 754 double: every arithmetic operation
  yields the double nearest to the exact result, ties going to the even significand.
  \<open>binade x\<close> is the exponent \<open>e\<close> with \<open>2 ^ e \<le> \<bar>x\<bar> < 2 ^ (e + 1)\<close>, \<open>ulp x\<close> the spacing
  of the doubles around \<open>x\<close> (52 fraction bits, subnormals below \<open>2 ^ - 1022\<close>), and
  \<open>double x\<close> the rounding. Overflow to infinity is not modelled: the values here are
  clock readings in milliseconds and delays, far from \<open>2 ^ 1024\<close>.
\<close>

definition binade :: "real \<Rightarrow> int" where
  "binade x =
     (if \<bar>x\<bar> \<ge> 1 then bitlen \<lfloor>\<bar>x\<bar>\<rfloor> - 1 else - bitlen (\<lceil>1 / \<bar>x\<bar>\<rceil> - 1))"

definition ulp :: "real \<Rightarrow> real" where
  "ulp x = 2 powi (max (binade x) (- 1022) - 52)"

definition roundTiesToEven :: "real \<Rightarrow> int" where
  "roundTiesToEven r =
     (if r - of_int \<lfloor>r\<rfloor> < 1 / 2 then \<lfloor>r\<rfloor>
      else if r - of_int \<lfloor>r\<rfloor> > 1 / 2 then \<lfloor>r\<rfloor> + 1
      else if even \<lfloor>r\<rfloor> then \<lfloor>r\<rfloor> else \<lfloor>r\<rfloor> + 1)"

definition double :: "real \<Rightarrow> real" where
  "double x = (if x = 0 then 0 else of_int (roundTiesToEven (x / ulp x)) * ulp x)"

text \<open>The operators \<^verbatim>\<open>+\<close>, \<^verbatim>\<open>-\<close> and \<^verbatim>\<open>*\<close> on numbers.\<close>

definition dadd :: "real \<Rightarrow> real \<Rightarrow> real" where
  "dadd x y = double (x + y)"

definition dsub :: "real \<Rightarrow> real \<Rightarrow> real" where
  "dsub x y = double (x - y)"

definition dmul :: "real \<Rightarrow> real \<Rightarrow> real" where
  "dmul x y = double (x * y)"

section \<open>The resilient Discord client (server/src/utils/discord.ts)\<close>

text \<open>
  The error vocabulary of the Discord helpers. In the source these are unions of string
  literals; \<^verbatim>\<open>DiscordFetchError\<close> is the first four.
\<close>

datatype discord_error =
    network_error
  | invalid_json
  | retries_exhausted
  | timeout
  | invalid_auth
  | unexpected_response
  | unknown_error
  | invalid_code
  | insufficient_permissions

text \<open>
  What \<^verbatim>\<open>fetch\<close> resolves to, as far as \<^verbatim>\<open>discordFetchInner\<close> looks at it: the status,
  the \<^verbatim>\<open>Retry-After\<close> header with the two readings the code takes of it
  (\<^verbatim>\<open>Number.parseFloat\<close>, \<open>None\<close> for NaN or a non-finite value, and
  \<^verbatim>\<open>new Date(..).getTime()\<close>, \<open>None\<close> for NaN), and the outcome of \<^verbatim>\<open>response.json()\<close>.
\<close>

record retry_after_header =
  parseFloat :: "real option"
  dateGetTime :: "real option"

record 'd http_response =
  status :: int
  retryAfter :: "retry_after_header option"
  json_body :: "exn + 'd"

datatype inner_error = Final discord_error | Retry "real option"

definition discordFetchInner ::
  "exn + 'd http_response \<Rightarrow> real \<Rightarrow> ('d \<times> int, inner_error) Result" where
  "discordFetchInner fetched dateNow =
     (case tryCatch fetched of
        ResultErr _ \<Rightarrow> ResultErr (Retry None)
      | ResultOk response \<Rightarrow>
          if status response = 429 then
            (case retryAfter response of
               None \<Rightarrow> ResultErr (Retry None)
             | Some hdr \<Rightarrow>
                 (case (case parseFloat hdr of
                          None \<Rightarrow> None
                        | Some n \<Rightarrow> if n < 0 then None else Some n) of
                    None \<Rightarrow>
                      (case dateGetTime hdr of
                         Some dateUnixMs \<Rightarrow>
                           ResultErr (Retry (Some (max 0 (dsub dateUnixMs dateNow))))
                       | None \<Rightarrow> ResultErr (Retry None))
                  | Some retryAfterNumber \<Rightarrow>
                      ResultErr (Retry (Some (max 0 (dmul retryAfterNumber 1000))))))
          else if status response \<ge> 500 \<and> status response < 600 then ResultErr (Retry None)
          else
            (case tryCatch (json_body response) of
               ResultErr _ \<Rightarrow> ResultErr (Final invalid_json)
             | ResultOk v \<Rightarrow> ResultOk (v, status response)))"

text \<open>
  What the outside world supplies to one attempt of \<^verbatim>\<open>discordFetch\<close>: every reading of
  \<^verbatim>\<open>Date.now()\<close> the attempt takes, the outcome of the fetch, whether the abort timer
  fired before the fetch settled, and the value of \<^verbatim>\<open>Math.random()\<close>. The attempts are
  numbered from 1 as in the source.
\<close>

record 'd attempt_env =
  now_attempt :: real
  fetched :: "exn + 'd http_response"
  now_inner :: real
  wasAborted :: bool
  now_retry :: real
  random :: real

definition EXTRA_BUFFER_MS :: real where "EXTRA_BUFFER_MS = 100"
definition JITTER_RANGE :: real where "JITTER_RANGE = double 0.3"
definition JITTER_MIN :: real where "JITTER_MIN = double 0.85"

text \<open>
  \<^verbatim>\<open>jitter = Math.random() * JITTER_RANGE + JITTER_MIN\<close> and
  \<^verbatim>\<open>Math.min(500 * 2 ** (attempt - 1) * jitter, remainingForBackoff)\<close>.
\<close>

definition jitter :: "real \<Rightarrow> real" where
  "jitter rnd = dadd (dmul rnd JITTER_RANGE) JITTER_MIN"

definition backoff :: "int \<Rightarrow> real \<Rightarrow> real \<Rightarrow> real \<Rightarrow> real" where
  "backoff attempt maxEndTime dateNow rnd =
     (let remainingForBackoff = dsub (dsub maxEndTime dateNow) EXTRA_BUFFER_MS
      in min (dmul (dmul 500 (double (2 powi (attempt - 1)))) (jitter rnd)) remainingForBackoff)"

text \<open>
  The retry loop, from attempt \<open>attempt\<close> on. The second component of the result lists
  the delays the loop slept (\<^verbatim>\<open>setTimeout(resolve, ..)\<close>), in order.
\<close>

function discordFetch_loop ::
  "int \<Rightarrow> real \<Rightarrow> (int \<Rightarrow> 'd attempt_env) \<Rightarrow> int \<Rightarrow> real list
     \<Rightarrow> ('d \<times> int, discord_error) Result \<times> real list" where
  "discordFetch_loop retries maxEndTime env attempt slept =
     (if attempt \<le> retries + 1 then
        (if dsub maxEndTime (now_attempt (env attempt)) \<le> 0 then (ResultErr timeout, slept)
         else if wasAborted (env attempt) then (ResultErr timeout, slept)
         else
           (case discordFetchInner (fetched (env attempt)) (now_inner (env attempt)) of
              ResultOk v \<Rightarrow> (ResultOk v, slept)
            | ResultErr (Final d) \<Rightarrow> (ResultErr d, slept)
            | ResultErr (Retry afterMs) \<Rightarrow>
                if attempt > retries then (ResultErr retries_exhausted, slept)
                else
                  (case afterMs of
                     None \<Rightarrow>
                       if backoff attempt maxEndTime (now_retry (env attempt))
                            (random (env attempt)) \<le> 0
                       then (ResultErr retries_exhausted, slept)
                       else discordFetch_loop retries maxEndTime env (attempt + 1)
                              (slept @ [backoff attempt maxEndTime (now_retry (env attempt))
                                          (random (env attempt))])
                   | Some ms \<Rightarrow>
                       if dadd (now_retry (env attempt)) ms \<ge> maxEndTime
                       then (ResultErr timeout, slept)
                       else discordFetch_loop retries maxEndTime env (attempt + 1)
                              (slept @ [ms]))))
      else (ResultErr retries_exhausted, slept))"
  by pat_completeness auto
termination
  by (relation "measure (\<lambda>(retries, maxEndTime, env, attempt, slept). nat (retries + 2 - attempt))")
     auto

declare discordFetch_loop.simps [simp del]

text \<open>
  \<^verbatim>\<open>discordFetch\<close>: \<^verbatim>\<open>{ retries = 3, timeoutMs = 5000 } = internalOptions\<close>,
  \<^verbatim>\<open>maxEndTime = startTime + timeoutMs\<close>, then the loop from attempt 1.
\<close>

record internalOptions =
  opt_retries :: "int option"
  opt_timeoutMs :: "real option"

definition retriesOf :: "internalOptions \<Rightarrow> int" where
  "retriesOf opts = (case opt_retries opts of None \<Rightarrow> 3 | Some r \<Rightarrow> r)"

definition timeoutMsOf :: "internalOptions \<Rightarrow> real" where
  "timeoutMsOf opts = (case opt_timeoutMs opts of None \<Rightarrow> 5000 | Some t \<Rightarrow> t)"

definition discordFetch ::
  "internalOptions \<Rightarrow> real \<Rightarrow> (int \<Rightarrow> 'd attempt_env)
     \<Rightarrow> ('d \<times> int, discord_error) Result \<times> real list" where
  "discordFetch opts startTime env =
     discordFetch_loop (retriesOf opts) (dadd startTime (timeoutMsOf opts)) env 1 []"

definition defaultOptions :: internalOptions where
  "defaultOptions = \<lparr>opt_retries = None, opt_timeoutMs = None\<rparr>"

text \<open>
  \<^verbatim>\<open>revokeDiscordOAuth2Token\<close>: one \<^verbatim>\<open>discordFetch\<close> with the default options, then the
  classification of the status code.
\<close>

definition revokeDiscordOAuth2Token ::
  "real \<Rightarrow> (int \<Rightarrow> 'd attempt_env) \<Rightarrow> (unit, discord_error) Result" where
  "revokeDiscordOAuth2Token startTime env =
     (case fst (discordFetch defaultOptions startTime env) of
        ResultErr e \<Rightarrow> ResultErr e
      | ResultOk (data, statusCode) \<Rightarrow>
          if statusCode = 401 then ResultErr invalid_auth
          else if statusCode \<noteq> 200 \<and> statusCode \<noteq> 204 then ResultErr unexpected_response
          else ResultOk ())"

section \<open>Linking codes (server/src/rpc/createVerificationFlow.ts)\<close>

text \<open>\<^verbatim>\<open>LENGTH\<close> in the source; the name is taken by the word library.\<close>

definition CODE_LENGTH :: nat where "CODE_LENGTH = 8"

definition CHARS :: string where "CHARS = ''abcdefghijklmnopqrstuvwxyz0123456789''"

definition charsLength :: nat where "charsLength = length CHARS"

definition maxValid :: nat where "maxValid = 256 - (256 mod charsLength)"

text \<open>
  \<^verbatim>\<open>crypto.getRandomValues(array)\<close> fills a 16-byte array; \<open>rnd k i\<close> is byte \<open>i\<close> of the
  \<open>k\<close>-th filling. The loop reads the current filling at \<open>arrayIndex\<close> and asks for the
  next one when the index runs off the array. Nothing bounds the number of rejected
  bytes, so the loop may run forever: that is the value \<open>None\<close>.
\<close>

partial_function (option) generateLinkingCode_loop ::
  "(nat \<Rightarrow> nat \<Rightarrow> 8 word) \<Rightarrow> string \<Rightarrow> nat \<Rightarrow> nat \<Rightarrow> string option" where
  "generateLinkingCode_loop rnd code filling arrayIndex =
     (if length code < CODE_LENGTH then
        (if arrayIndex \<ge> CODE_LENGTH * 2 then
           (if unat (rnd (filling + 1) 0) < maxValid
            then generateLinkingCode_loop rnd
                   (code @ [CHARS ! (unat (rnd (filling + 1) 0) mod charsLength)]) (filling + 1) 1
            else generateLinkingCode_loop rnd code (filling + 1) 1)
         else
           (if unat (rnd filling arrayIndex) < maxValid
            then generateLinkingCode_loop rnd
                   (code @ [CHARS ! (unat (rnd filling arrayIndex) mod charsLength)])
                   filling (arrayIndex + 1)
            else generateLinkingCode_loop rnd code filling (arrayIndex + 1)))
      else Some code)"

declare generateLinkingCode_loop.simps [code]

definition generateLinkingCode :: "(nat \<Rightarrow> nat \<Rightarrow> 8 word) \<Rightarrow> string option" where
  "generateLinkingCode rnd = generateLinkingCode_loop rnd [] 0 0"

text \<open>The bytes in the order the loop reads them, and what one byte contributes.\<close>

definition byteAt :: "(nat \<Rightarrow> nat \<Rightarrow> 8 word) \<Rightarrow> nat \<Rightarrow> 8 word" where
  "byteAt rnd n = rnd (n div (CODE_LENGTH * 2)) (n mod (CODE_LENGTH * 2))"

definition accepted :: "8 word \<Rightarrow> bool" where
  "accepted byte = (unat byte < maxValid)"

definition symbolOf :: "8 word \<Rightarrow> char" where
  "symbolOf byte = CHARS ! (unat byte mod charsLength)"

section \<open>The datastore (server/src/db/schema.ts)\<close>

text \<open>
  The four tables, a row per record, each table in rowid order. The \<open>seq_\<close> fields are
  SQLite's \<^verbatim>\<open>sqlite_sequence\<close> entries behind \<^verbatim>\<open>AUTOINCREMENT\<close>: an insert takes the
  id after the larger of the entry and the largest id in the table, and stores it in the
  entry; an upsert does so even when it ends in the update of the conflicting row, and
  a statement that fails leaves the entry as it was.
\<close>

record discordUserRow =
  du_createdAt :: int
  du_discordID :: string
  du_discordRefreshToken :: "string option"
  du_id :: nat

record minecraftUserRow =
  mu_createdAt :: int
  mu_id :: nat
  mu_minecraftUUID :: string

record verificationFlowRow =
  vf_createdAt :: int
  vf_expiresAt :: int
  vf_id :: nat
  vf_linkingCode :: string
  vf_minecraftUUID :: string

record connectionRow =
  cn_createdAt :: int
  cn_discordUserID :: nat
  cn_id :: nat
  cn_minecraftUserID :: nat

record database =
  discordUsers :: "discordUserRow list"
  minecraftUsers :: "minecraftUserRow list"
  verificationFlows :: "verificationFlowRow list"
  connections :: "connectionRow list"
  seq_discordUsers :: nat
  seq_minecraftUsers :: nat
  seq_verificationFlows :: nat
  seq_connections :: nat

definition nextId :: "nat \<Rightarrow> nat list \<Rightarrow> nat" where
  "nextId seq ids = Suc (fold max ids seq)"

text \<open>
  A statement either throws (a violated \<^verbatim>\<open>UNIQUE\<close> index) or yields its rows and the
  new database. \<^verbatim>\<open>.get()\<close> is the first matching row, if any. The statements are the
  queries the handlers build inline, named here after what they select or change. The
  foreign keys of \<^verbatim>\<open>connections\<close> are not checked: the only insert into that table
  uses the ids of two rows upserted just before.
\<close>

type_synonym 'a statement = "database \<Rightarrow> exn + 'a \<times> database"

definition selectUnexpiredFlowByUUID :: "string \<Rightarrow> int \<Rightarrow> verificationFlowRow option statement" where
  "selectUnexpiredFlowByUUID uuid now d =
     Inr (find (\<lambda>f. vf_minecraftUUID f = uuid \<and> vf_expiresAt f > now) (verificationFlows d), d)"

definition selectUnexpiredFlowByCode :: "string \<Rightarrow> int \<Rightarrow> verificationFlowRow option statement" where
  "selectUnexpiredFlowByCode linkingCode now d =
     Inr (find (\<lambda>f. vf_linkingCode f = linkingCode \<and> vf_expiresAt f > now) (verificationFlows d), d)"

definition selectFlowByCode :: "string \<Rightarrow> verificationFlowRow option statement" where
  "selectFlowByCode linkingCode d =
     Inr (find (\<lambda>f. vf_linkingCode f = linkingCode) (verificationFlows d), d)"

definition updateFlowExpiry :: "nat \<Rightarrow> int \<Rightarrow> unit statement" where
  "updateFlowExpiry flowId expiresAt d =
     Inr ((), d\<lparr>verificationFlows :=
                  map (\<lambda>f. if vf_id f = flowId then f\<lparr>vf_expiresAt := expiresAt\<rparr> else f)
                      (verificationFlows d)\<rparr>)"

definition deleteFlowsByUUID :: "string \<Rightarrow> unit statement" where
  "deleteFlowsByUUID uuid d =
     Inr ((), d\<lparr>verificationFlows := filter (\<lambda>f. vf_minecraftUUID f \<noteq> uuid) (verificationFlows d)\<rparr>)"

definition deleteFlowById :: "nat \<Rightarrow> unit statement" where
  "deleteFlowById flowId d =
     Inr ((), d\<lparr>verificationFlows := filter (\<lambda>f. vf_id f \<noteq> flowId) (verificationFlows d)\<rparr>)"

definition insertFlow :: "int \<Rightarrow> int \<Rightarrow> string \<Rightarrow> string \<Rightarrow> unit statement" where
  "insertFlow createdAt expiresAt linkingCode uuid d =
     (if \<exists>f \<in> set (verificationFlows d).
           vf_linkingCode f = linkingCode \<or> vf_minecraftUUID f = uuid
      then Inl ''UNIQUE constraint failed: verificationFlows''
      else
        (let newId = nextId (seq_verificationFlows d) (map vf_id (verificationFlows d)) in
         Inr ((), d\<lparr>verificationFlows := verificationFlows d @
                       [\<lparr>vf_createdAt = createdAt, vf_expiresAt = expiresAt, vf_id = newId,
                         vf_linkingCode = linkingCode, vf_minecraftUUID = uuid\<rparr>],
                     seq_verificationFlows := newId\<rparr>)))"

definition upsertDiscordUser :: "int \<Rightarrow> string \<Rightarrow> string \<Rightarrow> discordUserRow list statement" where
  "upsertDiscordUser createdAt discordID refreshTok d =
     (if \<exists>u \<in> set (discordUsers d). du_discordID u = discordID then
        (let rows = map (\<lambda>u. if du_discordID u = discordID
                               then u\<lparr>du_discordRefreshToken := Some refreshTok\<rparr> else u)
                        (discordUsers d)
         in Inr (filter (\<lambda>u. du_discordID u = discordID) rows,
                 d\<lparr>discordUsers := rows,
                   seq_discordUsers :=
                     nextId (seq_discordUsers d) (map du_id (discordUsers d))\<rparr>))
      else
        (let row = \<lparr>du_createdAt = createdAt, du_discordID = discordID,
                    du_discordRefreshToken = Some refreshTok,
                    du_id = nextId (seq_discordUsers d) (map du_id (discordUsers d))\<rparr>
         in Inr ([row], d\<lparr>discordUsers := discordUsers d @ [row],
                           seq_discordUsers := du_id row\<rparr>)))"

definition upsertMinecraftUser :: "int \<Rightarrow> string \<Rightarrow> minecraftUserRow list statement" where
  "upsertMinecraftUser createdAt uuid d =
     (if \<exists>m \<in> set (minecraftUsers d). mu_minecraftUUID m = uuid then
        (let rows = map (\<lambda>m. if mu_minecraftUUID m = uuid
                               then m\<lparr>mu_minecraftUUID := uuid\<rparr> else m)
                        (minecraftUsers d)
         in Inr (filter (\<lambda>m. mu_minecraftUUID m = uuid) rows,
                 d\<lparr>minecraftUsers := rows,
                   seq_minecraftUsers :=
                     nextId (seq_minecraftUsers d) (map mu_id (minecraftUsers d))\<rparr>))
      else
        (let row = \<lparr>mu_createdAt = createdAt,
                    mu_id = nextId (seq_minecraftUsers d) (map mu_id (minecraftUsers d)),
                    mu_minecraftUUID = uuid\<rparr>
         in Inr ([row], d\<lparr>minecraftUsers := minecraftUsers d @ [row],
                           seq_minecraftUsers := mu_id row\<rparr>)))"

text \<open>
  The connection upsert resolves a conflict on \<^verbatim>\<open>minecraftUserID\<close> only; the second
  \<^verbatim>\<open>UNIQUE\<close> index, on \<^verbatim>\<open>discordUserID\<close>, makes the statement fail when another row
  already holds that Discord user.
\<close>

definition upsertConnection :: "int \<Rightarrow> nat \<Rightarrow> nat \<Rightarrow> unit statement" where
  "upsertConnection createdAt discordUserID minecraftUserID d =
     (if \<exists>c \<in> set (connections d).
           cn_discordUserID c = discordUserID \<and> cn_minecraftUserID c \<noteq> minecraftUserID
      then Inl ''UNIQUE constraint failed: connections.discordUserID''
      else if \<exists>c \<in> set (connections d). cn_minecraftUserID c = minecraftUserID then
        Inr ((), d\<lparr>connections :=
                     map (\<lambda>c. if cn_minecraftUserID c = minecraftUserID
                               then c\<lparr>cn_createdAt := createdAt, cn_discordUserID := discordUserID\<rparr>
                               else c)
                         (connections d),
                   seq_connections := nextId (seq_connections d) (map cn_id (connections d))\<rparr>)
      else
        (let newId = nextId (seq_connections d) (map cn_id (connections d)) in
         Inr ((), d\<lparr>connections := connections d @
                       [\<lparr>cn_createdAt = createdAt, cn_discordUserID = discordUserID,
                         cn_id = newId, cn_minecraftUserID = minecraftUserID\<rparr>],
                     seq_connections := newId\<rparr>)))"

definition selectMinecraftUserByUUID :: "string \<Rightarrow> minecraftUserRow option statement" where
  "selectMinecraftUserByUUID uuid d =
     Inr (find (\<lambda>m. mu_minecraftUUID m = uuid) (minecraftUsers d), d)"

definition selectConnectionByMinecraftUserID :: "nat \<Rightarrow> connectionRow option statement" where
  "selectConnectionByMinecraftUserID minecraftUserID d =
     Inr (find (\<lambda>c. cn_minecraftUserID c = minecraftUserID) (connections d), d)"

definition selectDiscordUserById :: "nat \<Rightarrow> discordUserRow option statement" where
  "selectDiscordUserById userId d =
     Inr (find (\<lambda>u. du_id u = userId) (discordUsers d), d)"

definition updateDiscordRefreshToken :: "nat \<Rightarrow> string \<Rightarrow> unit statement" where
  "updateDiscordRefreshToken userId refreshTok d =
     Inr ((), d\<lparr>discordUsers :=
                  map (\<lambda>u. if du_id u = userId
                            then u\<lparr>du_discordRefreshToken := Some refreshTok\<rparr> else u)
                      (discordUsers d)\<rparr>)"

definition deleteConnectionById :: "nat \<Rightarrow> unit statement" where
  "deleteConnectionById connectionId d =
     Inr ((), d\<lparr>connections := filter (\<lambda>c. cn_id c \<noteq> connectionId) (connections d)\<rparr>)"

text \<open>
  \<^verbatim>\<open>db.batch([s1, s2])\<close> runs its statements in order inside one transaction: the batch
  as a whole is one statement, and it throws as soon as one of its members does.
\<close>

definition batch :: "'a statement \<Rightarrow> 'b statement \<Rightarrow> ('a \<times> 'b) statement" where
  "batch s1 s2 d =
     (case s1 d of
        Inl e \<Rightarrow> Inl e
      | Inr (a, d1) \<Rightarrow> (case s2 d1 of Inl e \<Rightarrow> Inl e | Inr (b, d2) \<Rightarrow> Inr ((a, b), d2)))"

text \<open>
  The world a handler runs in: the database and the number of datastore calls issued
  so far. \<open>faults k\<close> says that the \<open>k\<close>-th call fails for a reason of the datastore's own
  (outage, timeout). A call that fails, for either reason, leaves the database as it was;
  \<^verbatim>\<open>result.tryCatch\<close> around it gives the \<open>Result\<close>.
\<close>

record world =
  db :: database
  calls :: nat

definition run :: "(nat \<Rightarrow> bool) \<Rightarrow> 'a statement \<Rightarrow> world \<Rightarrow> ('a, exn) Result \<times> world" where
  "run faults stmt w =
     (if faults (calls w) then (tryCatch (Inl ''datastore unavailable''), w\<lparr>calls := Suc (calls w)\<rparr>)
      else
        (case stmt (db w) of
           Inl e \<Rightarrow> (tryCatch (Inl e), w\<lparr>calls := Suc (calls w)\<rparr>)
         | Inr (v, d) \<Rightarrow> (tryCatch (Inr v), \<lparr>db = d, calls = Suc (calls w)\<rparr>)))"

section \<open>The RPC handlers (server/src/rpc)\<close>

datatype rpc_domain_error =
    InvalidSharedSecret
  | DatabaseError
  | CodeGenerationFailed
  | InvalidState
  | InvalidLinkingCode
  | InvalidCode
  | DiscordError
  | AccessDenied
  | NotLinked
  | InvalidAuth

record Env =
  APP_URL :: string
  DISCORD_CLIENT_ID :: string
  DISCORD_CLIENT_SECRET :: string
  DISCORD_GUILD_ID :: string
  SHARED_SECRET :: string

text \<open>
  \<^verbatim>\<open>sharedSecret.compare\<close> (server/src/utils/sharedSecret.ts): equal length, then
  \<^verbatim>\<open>crypto.timingSafeEqual\<close>.
\<close>

definition compare :: "Env \<Rightarrow> string \<Rightarrow> bool" where
  "compare env providedSecret =
     (if length providedSecret \<noteq> length (SHARED_SECRET env) then False
      else providedSecret = SHARED_SECRET env)"

subsection \<open>createVerificationFlow\<close>

record secretParams =
  p_minecraftUUID :: string
  p_sharedSecret :: string

record flowResult =
  r_expiresAt :: int
  r_linkingCode :: string

definition EXPIRY_DURATION_MS :: int where "EXPIRY_DURATION_MS = 15 * 60 * 1000"

definition MAX_CODE_GENERATION_ATTEMPTS :: nat where "MAX_CODE_GENERATION_ATTEMPTS = 5"

text \<open>
  The tail of one pass through the generation loop: insert the new flow and return it.
  \<^verbatim>\<open>expiresAt\<close> is returned as the instant itself, not as its ISO-8601 rendering.
\<close>

definition insertNewFlow ::
  "(nat \<Rightarrow> bool) \<Rightarrow> int \<Rightarrow> int \<Rightarrow> string \<Rightarrow> string \<Rightarrow> world
     \<Rightarrow> (flowResult, rpc_domain_error) Result \<times> world" where
  "insertNewFlow faults now expiresAt linkingCode uuid w =
     (case run faults (insertFlow now expiresAt linkingCode uuid) w of
        (ResultErr _, w') \<Rightarrow> (ResultErr DatabaseError, w')
      | (ResultOk _, w') \<Rightarrow>
          (ResultOk \<lparr>r_expiresAt = expiresAt, r_linkingCode = linkingCode\<rparr>, w'))"

text \<open>
  The generation loop from pass \<open>attempt\<close> on; \<open>rnd attempt\<close> is the random source of that
  pass. \<open>None\<close>: a code generation that never returns.
\<close>

function generationLoop ::
  "(nat \<Rightarrow> bool) \<Rightarrow> (nat \<Rightarrow> nat \<Rightarrow> nat \<Rightarrow> 8 word) \<Rightarrow> int \<Rightarrow> int \<Rightarrow> string \<Rightarrow> nat \<Rightarrow> world
     \<Rightarrow> ((flowResult, rpc_domain_error) Result \<times> world) option" where
  "generationLoop faults rnd now expiresAt uuid attempt w =
     (if attempt < MAX_CODE_GENERATION_ATTEMPTS then
        (case generateLinkingCode (rnd attempt) of
           None \<Rightarrow> None
         | Some linkingCode \<Rightarrow>
             (case run faults (selectFlowByCode linkingCode) w of
                (ResultErr _, w1) \<Rightarrow> Some (ResultErr DatabaseError, w1)
              | (ResultOk None, w1) \<Rightarrow>
                  Some (insertNewFlow faults now expiresAt linkingCode uuid w1)
              | (ResultOk (Some codeEntry), w1) \<Rightarrow>
                  if vf_expiresAt codeEntry > now
                  then generationLoop faults rnd now expiresAt uuid (attempt + 1) w1
                  else
                    (case run faults (deleteFlowById (vf_id codeEntry)) w1 of
                       (ResultErr _, w2) \<Rightarrow> Some (ResultErr DatabaseError, w2)
                     | (ResultOk _, w2) \<Rightarrow>
                         Some (insertNewFlow faults now expiresAt linkingCode uuid w2))))
      else Some (ResultErr CodeGenerationFailed, w))"
  by pat_completeness auto
termination
  by (relation "measure (\<lambda>(faults, rnd, now, expiresAt, uuid, attempt, w).
                  MAX_CODE_GENERATION_ATTEMPTS - attempt)") auto

declare generationLoop.simps [simp del]

definition createVerificationFlow ::
  "Env \<Rightarrow> int \<Rightarrow> (nat \<Rightarrow> bool) \<Rightarrow> (nat \<Rightarrow> nat \<Rightarrow> nat \<Rightarrow> 8 word) \<Rightarrow> secretParams \<Rightarrow> world
     \<Rightarrow> ((flowResult, rpc_domain_error) Result \<times> world) option" where
  "createVerificationFlow env now faults rnd params w =
     (if \<not> compare env (p_sharedSecret params) then Some (ResultErr InvalidSharedSecret, w)
      else
        (let expiresAt = now + EXPIRY_DURATION_MS in
         case run faults (selectUnexpiredFlowByUUID (p_minecraftUUID params) now) w of
           (ResultErr _, w1) \<Rightarrow> Some (ResultErr DatabaseError, w1)
         | (ResultOk (Some flow), w1) \<Rightarrow>
             (case run faults (updateFlowExpiry (vf_id flow) expiresAt) w1 of
                (ResultErr _, w2) \<Rightarrow> Some (ResultErr DatabaseError, w2)
              | (ResultOk _, w2) \<Rightarrow>
                  Some (ResultOk \<lparr>r_expiresAt = expiresAt,
                                   r_linkingCode = vf_linkingCode flow\<rparr>, w2))
         | (ResultOk None, w1) \<Rightarrow>
             (case run faults (deleteFlowsByUUID (p_minecraftUUID params)) w1 of
                (ResultErr _, w2) \<Rightarrow> Some (ResultErr DatabaseError, w2)
              | (ResultOk _, w2) \<Rightarrow>
                  generationLoop faults rnd now expiresAt (p_minecraftUUID params) 0 w2)))"

subsection \<open>The Discord calls the handlers make\<close>

record DiscordOAuth2TokenData =
  accessToken :: string
  tok_expiresAt :: real
  refreshToken :: string
  scope :: "string list"
  tokenType :: string

record DiscordUserData =
  user_id :: string
  username :: string

record DiscordGuildData =
  guild_id :: string
  guild_name :: string

text \<open>
  The handlers see the four helpers of \<^verbatim>\<open>utils/discord\<close> only through the \<open>Result\<close> each
  returns; what Discord answers is an input of the model, given per argument: the
  token exchange by authorization code and redirect URI, the refresh by refresh token,
  the two fetches by access token.
\<close>

record discord_api =
  createDiscordOAuth2TokenWithCode ::
    "string \<Rightarrow> string \<Rightarrow> (DiscordOAuth2TokenData, discord_error) Result"
  createDiscordOAuth2TokenWithRefreshToken ::
    "string \<Rightarrow> (DiscordOAuth2TokenData, discord_error) Result"
  fetchDiscordUserData :: "string \<Rightarrow> (DiscordUserData, discord_error) Result"
  fetchDiscordUserGuildsData :: "string \<Rightarrow> (DiscordGuildData list, discord_error) Result"

subsection \<open>linkDiscordAccount\<close>

record linkParams =
  p_code :: string
  p_state :: string

record oauthState =
  st_linkingCode :: string
  st_timestamp :: real

text \<open>
  \<^verbatim>\<open>decodeOAuthState\<close>. \<^verbatim>\<open>URLSearchParams.get\<close> and the coercion of
  \<^verbatim>\<open>z.coerce.number()\<close> belong to the runtime and the schema library and are parameters.
\<close>

record runtime =
  searchParamsGet :: "string \<Rightarrow> string \<Rightarrow> string option"
  coerceNumber :: "string option \<Rightarrow> real option"

definition decodeOAuthState :: "runtime \<Rightarrow> string \<Rightarrow> oauthState option" where
  "decodeOAuthState rt state =
     (case searchParamsGet rt state ''linkingCode'' of
        None \<Rightarrow> None
      | Some linkingCode \<Rightarrow>
          (case coerceNumber rt (searchParamsGet rt state ''timestamp'') of
             None \<Rightarrow> None
           | Some ts \<Rightarrow> Some \<lparr>st_linkingCode = linkingCode, st_timestamp = ts\<rparr>))"

text \<open>The first batch: both identity upserts, each \<^verbatim>\<open>.returning()\<close> its rows.\<close>

definition upsertIdentities ::
  "int \<Rightarrow> string \<Rightarrow> string \<Rightarrow> string
     \<Rightarrow> (discordUserRow list \<times> minecraftUserRow list) statement" where
  "upsertIdentities now discordID refreshTok uuid =
     batch (upsertDiscordUser now discordID refreshTok) (upsertMinecraftUser now uuid)"

text \<open>The second batch: the connection upsert and the deletion of the consumed flow.\<close>

definition connectAndConsume :: "int \<Rightarrow> nat \<Rightarrow> nat \<Rightarrow> nat \<Rightarrow> (unit \<times> unit) statement" where
  "connectAndConsume now discordUserID minecraftUserID flowId =
     batch (upsertConnection now discordUserID minecraftUserID) (deleteFlowById flowId)"

definition linkDiscordAccount ::
  "Env \<Rightarrow> runtime \<Rightarrow> discord_api \<Rightarrow> int \<Rightarrow> (nat \<Rightarrow> bool) \<Rightarrow> linkParams \<Rightarrow> world
     \<Rightarrow> (string, rpc_domain_error) Result \<times> world" where
  "linkDiscordAccount env rt discord now faults params w =
     (case decodeOAuthState rt (p_state params) of
        None \<Rightarrow> (ResultErr InvalidState, w)
      | Some state \<Rightarrow>
     (case run faults (selectUnexpiredFlowByCode (st_linkingCode state) now) w of
        (ResultErr _, w1) \<Rightarrow> (ResultErr DatabaseError, w1)
      | (ResultOk None, w1) \<Rightarrow> (ResultErr InvalidLinkingCode, w1)
      | (ResultOk (Some flow), w1) \<Rightarrow>
     (case createDiscordOAuth2TokenWithCode discord (p_code params)
             (APP_URL env @ ''/oauth2/discord/'') of
        ResultErr e \<Rightarrow>
          if e = invalid_code then (ResultErr InvalidCode, w1)
          else (ResultErr DiscordError, w1)
      | ResultOk tokens \<Rightarrow>
     (case fetchDiscordUserData discord (accessToken tokens) of
        ResultErr _ \<Rightarrow> (ResultErr DiscordError, w1)
      | ResultOk discordUser \<Rightarrow>
     (case fetchDiscordUserGuildsData discord (accessToken tokens) of
        ResultErr _ \<Rightarrow> (ResultErr DiscordError, w1)
      | ResultOk guilds \<Rightarrow>
     (if \<not> list_ex (\<lambda>guild. guild_id guild = DISCORD_GUILD_ID env) guilds
      then (ResultErr AccessDenied, w1)
      else
     (case run faults (upsertIdentities now (user_id discordUser) (refreshToken tokens)
                         (vf_minecraftUUID flow)) w1 of
        (ResultErr _, w2) \<Rightarrow> (ResultErr DatabaseError, w2)
      | (ResultOk ([], _), w2) \<Rightarrow> (ResultErr DatabaseError, w2)
      | (ResultOk (_ # _, []), w2) \<Rightarrow> (ResultErr DatabaseError, w2)
      | (ResultOk (discordRecord # _, minecraftRecord # _), w2) \<Rightarrow>
     (case run faults (connectAndConsume now (du_id discordRecord) (mu_id minecraftRecord)
                         (vf_id flow)) w2 of
        (ResultErr _, w3) \<Rightarrow> (ResultErr DatabaseError, w3)
      | (ResultOk _, w3) \<Rightarrow> (ResultOk (username discordUser), w3)))))))))"

subsection \<open>verifyConnection\<close>

definition verifyConnection ::
  "Env \<Rightarrow> discord_api \<Rightarrow> (nat \<Rightarrow> bool) \<Rightarrow> secretParams \<Rightarrow> world
     \<Rightarrow> (unit, rpc_domain_error) Result \<times> world" where
  "verifyConnection env discord faults params w =
     (if \<not> compare env (p_sharedSecret params) then (ResultErr InvalidSharedSecret, w)
      else
     (case run faults (selectMinecraftUserByUUID (p_minecraftUUID params)) w of
        (ResultErr _, w1) \<Rightarrow> (ResultErr DatabaseError, w1)
      | (ResultOk None, w1) \<Rightarrow> (ResultErr NotLinked, w1)
      | (ResultOk (Some minecraftUser), w1) \<Rightarrow>
     (case run faults (selectConnectionByMinecraftUserID (mu_id minecraftUser)) w1 of
        (ResultErr _, w2) \<Rightarrow> (ResultErr DatabaseError, w2)
      | (ResultOk None, w2) \<Rightarrow> (ResultErr NotLinked, w2)
      | (ResultOk (Some connection), w2) \<Rightarrow>
     (case run faults (selectDiscordUserById (cn_discordUserID connection)) w2 of
        (ResultErr _, w3) \<Rightarrow> (ResultErr DatabaseError, w3)
      | (ResultOk None, w3) \<Rightarrow> (ResultErr DatabaseError, w3)
      | (ResultOk (Some discordUser), w3) \<Rightarrow>
     (case du_discordRefreshToken discordUser of
        None \<Rightarrow> (ResultErr InvalidAuth, w3)
      | Some storedToken \<Rightarrow>
     (if storedToken = [] then (ResultErr InvalidAuth, w3)
      else
     (case createDiscordOAuth2TokenWithRefreshToken discord storedToken of
        ResultErr e \<Rightarrow>
          if e = invalid_auth then (ResultErr InvalidAuth, w3)
          else (ResultErr DiscordError, w3)
      | ResultOk tokens \<Rightarrow>
     (case run faults (updateDiscordRefreshToken (du_id discordUser) (refreshToken tokens)) w3 of
        (ResultErr _, w4) \<Rightarrow> (ResultErr DatabaseError, w4)
      | (ResultOk _, w4) \<Rightarrow>
     (case fetchDiscordUserGuildsData discord (accessToken tokens) of
        ResultErr e \<Rightarrow>
          if e = invalid_auth then (ResultErr InvalidAuth, w4)
          else (ResultErr DiscordError, w4)
      | ResultOk guilds \<Rightarrow>
     (if \<not> list_ex (\<lambda>guild. guild_id guild = DISCORD_GUILD_ID env) guilds then
        (case run faults (deleteConnectionById (cn_id connection)) w4 of
           (ResultErr _, w5) \<Rightarrow> (ResultErr DatabaseError, w5)
         | (ResultOk _, w5) \<Rightarrow> (ResultErr AccessDenied, w5))
      else (ResultOk (), w4)))))))))))"

section \<open>Observations and concrete scenarios\<close>

text \<open>What a client reads off the dispatcher's answer: the error code and the id.\<close>

definition errorCodeOf :: "exn + RPCResponse \<Rightarrow> int option" where
  "errorCodeOf out =
     (case out of
        Inr (ErrorResponse e _ _) \<Rightarrow> Some (err_code e)
      | _ \<Rightarrow> None)"

definition responseIdOf :: "exn + RPCResponse \<Rightarrow> rpc_id option" where
  "responseIdOf out = (case out of Inr r \<Rightarrow> Some (resp_id r) | Inl _ \<Rightarrow> None)"

text \<open>
  A small dispatcher set-up: a parser that knows five bodies, and two handlers, one that
  answers and one that rejects.
\<close>

definition parseFixture :: "string \<Rightarrow> exn + json" where
  "parseFixture t =
     (if t = ''ping'' then
        Inr (JObj [(''id'', JNum 7), (''jsonrpc'', JStr ''2.0''), (''method'', JStr ''ping''),
                   (''params'', JStr ''x'')])
      else if t = ''boom'' then
        Inr (JObj [(''id'', JNum 7), (''jsonrpc'', JStr ''2.0''), (''method'', JStr ''boom''),
                   (''params'', JStr ''x'')])
      else if t = ''noparams'' then
        Inr (JObj [(''id'', JNum 7), (''jsonrpc'', JStr ''2.0''), (''method'', JStr ''ping'')])
      else if t = ''nomethod'' then
        Inr (JObj [(''id'', JNum 7), (''jsonrpc'', JStr ''2.0''), (''method'', JStr ''nope'')])
      else if t = ''old'' then
        Inr (JObj [(''id'', JNum 7), (''jsonrpc'', JStr ''1.0''), (''method'', JStr ''ping'')])
      else Inl ''SyntaxError'')"

definition requireParams :: "json option \<Rightarrow> json option" where
  "requireParams p = p"

definition pingHandler :: "json \<Rightarrow> nat \<Rightarrow> (exn + json) \<times> nat" where
  "pingHandler p w = (Inr (JStr ''pong''), Suc w)"

definition boomHandler :: "json \<Rightarrow> nat \<Rightarrow> (exn + json) \<times> nat" where
  "boomHandler p w = (Inl ''TypeError'', Suc w)"

definition handlersFixture :: "nat RPCHandler list" where
  "handlersFixture =
     [\<lparr>h_method = ''ping'', paramsSchema = requireParams, handler = pingHandler\<rparr>,
      \<lparr>h_method = ''boom'', paramsSchema = requireParams, handler = boomHandler\<rparr>]"

text \<open>An endpoint that gives the same answer at once, whatever the attempt.\<close>

definition steadyEnv :: "'d http_response \<Rightarrow> int \<Rightarrow> 'd attempt_env" where
  "steadyEnv response attempt =
     \<lparr>now_attempt = 0, fetched = Inr response, now_inner = 0, wasAborted = False,
      now_retry = 0, random = 0\<rparr>"

definition answer :: "int \<Rightarrow> json http_response" where
  "answer code = \<lparr>status = code, retryAfter = None, json_body = Inr JNull\<rparr>"

text \<open>A response without a body, as a 204 is: \<^verbatim>\<open>response.json()\<close> rejects.\<close>

definition noBody :: "int \<Rightarrow> json http_response" where
  "noBody code = \<lparr>status = code, retryAfter = None,
                  json_body = Inl ''SyntaxError: Unexpected end of JSON input''\<rparr>"

text \<open>
  A deployment and what Discord answers for two users' tokens: one whose guild list
  holds the configured guild \<open>g1\<close>, one whose list does not.
\<close>

definition noFaults :: "nat \<Rightarrow> bool" where
  "noFaults k = False"

definition envFixture :: Env where
  "envFixture = \<lparr>APP_URL = ''https://link.example'', DISCORD_CLIENT_ID = ''client'',
                  DISCORD_CLIENT_SECRET = ''hush'', DISCORD_GUILD_ID = ''g1'',
                  SHARED_SECRET = ''s3cret''\<rparr>"

definition tokensFixture :: DiscordOAuth2TokenData where
  "tokensFixture = \<lparr>accessToken = ''at'', tok_expiresAt = 0, refreshToken = ''rt2'',
                     scope = [''identify'', ''guilds''], tokenType = ''Bearer''\<rparr>"

definition tokensByCode :: "string \<Rightarrow> string \<Rightarrow> (DiscordOAuth2TokenData, discord_error) Result" where
  "tokensByCode authCode redirectUri = ResultOk tokensFixture"

definition tokensByRefresh :: "string \<Rightarrow> (DiscordOAuth2TokenData, discord_error) Result" where
  "tokensByRefresh refreshTok = ResultOk tokensFixture"

definition userAlice :: "string \<Rightarrow> (DiscordUserData, discord_error) Result" where
  "userAlice token = ResultOk \<lparr>user_id = ''d1'', username = ''alice''\<rparr>"

definition guildsInside :: "string \<Rightarrow> (DiscordGuildData list, discord_error) Result" where
  "guildsInside token =
     ResultOk [\<lparr>guild_id = ''g0'', guild_name = ''other''\<rparr>,
               \<lparr>guild_id = ''g1'', guild_name = ''home''\<rparr>]"

definition guildsOutside :: "string \<Rightarrow> (DiscordGuildData list, discord_error) Result" where
  "guildsOutside token = ResultOk [\<lparr>guild_id = ''g0'', guild_name = ''other''\<rparr>]"

definition discordMember :: discord_api where
  "discordMember =
     \<lparr>createDiscordOAuth2TokenWithCode = tokensByCode,
      createDiscordOAuth2TokenWithRefreshToken = tokensByRefresh,
      fetchDiscordUserData = userAlice, fetchDiscordUserGuildsData = guildsInside\<rparr>"

definition discordOutsider :: discord_api where
  "discordOutsider =
     \<lparr>createDiscordOAuth2TokenWithCode = tokensByCode,
      createDiscordOAuth2TokenWithRefreshToken = tokensByRefresh,
      fetchDiscordUserData = userAlice, fetchDiscordUserGuildsData = guildsOutside\<rparr>"

definition stateGet :: "string \<Rightarrow> string \<Rightarrow> string option" where
  "stateGet state key =
     (if key = ''linkingCode'' then Some ''abcd2345''
      else if key = ''timestamp'' then Some ''5'' else None)"

definition stateNumber :: "string option \<Rightarrow> real option" where
  "stateNumber v = Some 5"

definition runtimeFixture :: runtime where
  "runtimeFixture = \<lparr>searchParamsGet = stateGet, coerceNumber = stateNumber\<rparr>"

definition aliceRow :: discordUserRow where
  "aliceRow = \<lparr>du_createdAt = 1, du_discordID = ''d1'', du_discordRefreshToken = Some ''rt1'',
                du_id = 1\<rparr>"

definition steveRow :: minecraftUserRow where
  "steveRow = \<lparr>mu_createdAt = 1, mu_id = 1, mu_minecraftUUID = ''u1''\<rparr>"

definition aliceSteve :: connectionRow where
  "aliceSteve = \<lparr>cn_createdAt = 1, cn_discordUserID = 1, cn_id = 1, cn_minecraftUserID = 1\<rparr>"

definition alexFlow :: verificationFlowRow where
  "alexFlow = \<lparr>vf_createdAt = 2, vf_expiresAt = 1000, vf_id = 1, vf_linkingCode = ''abcd2345'',
                vf_minecraftUUID = ''u2''\<rparr>"

text \<open>Alice is linked to Steve; a flow is open for a second game account.\<close>

definition linkedWorld :: world where
  "linkedWorld =
     \<lparr>db = \<lparr>discordUsers = [aliceRow], minecraftUsers = [steveRow],
             verificationFlows = [alexFlow], connections = [aliceSteve],
             seq_discordUsers = 1, seq_minecraftUsers = 1, seq_verificationFlows = 1,
             seq_connections = 1\<rparr>,
      calls = 0\<rparr>"

text \<open>A connection whose Discord user row is gone.\<close>

definition danglingWorld :: world where
  "danglingWorld =
     \<lparr>db = \<lparr>discordUsers = [], minecraftUsers = [steveRow],
             verificationFlows = [], connections = [aliceSteve],
             seq_discordUsers = 1, seq_minecraftUsers = 1, seq_verificationFlows = 0,
             seq_connections = 1\<rparr>,
      calls = 0\<rparr>"

definition steveParams :: secretParams where
  "steveParams = \<lparr>p_minecraftUUID = ''u1'', p_sharedSecret = ''s3cret''\<rparr>"

definition callbackParams :: linkParams where
  "callbackParams = \<lparr>p_code = ''authcode'', p_state = ''linkingCode=abcd2345&timestamp=5''\<rparr>"
definition alexRow :: minecraftUserRow where
  "alexRow = \<lparr>mu_createdAt = 10, mu_id = 2, mu_minecraftUUID = ''u2''\<rparr>"

text \<open>The linked world after the identity upserts alone.\<close>

definition partialWorld :: world where
  "partialWorld =
     \<lparr>db = \<lparr>discordUsers = [aliceRow\<lparr>du_discordRefreshToken := Some ''rt2''\<rparr>],
             minecraftUsers = [steveRow, alexRow],
             verificationFlows = [alexFlow], connections = [aliceSteve],
             seq_discordUsers = 2, seq_minecraftUsers = 2, seq_verificationFlows = 1,
             seq_connections = 1\<rparr>,
      calls = 3\<rparr>"

text \<open>Nobody is linked yet; the same flow is open.\<close>

definition openWorld :: world where
  "openWorld =
     \<lparr>db = \<lparr>discordUsers = [], minecraftUsers = [],
             verificationFlows = [alexFlow], connections = [],
             seq_discordUsers = 0, seq_minecraftUsers = 0, seq_verificationFlows = 1,
             seq_connections = 0\<rparr>,
      calls = 0\<rparr>"

definition doneWorld :: world where
  "doneWorld =
     \<lparr>db = \<lparr>discordUsers = [\<lparr>du_createdAt = 10, du_discordID = ''d1'',
                              du_discordRefreshToken = Some ''rt2'', du_id = 1\<rparr>],
             minecraftUsers = [\<lparr>mu_createdAt = 10, mu_id = 1, mu_minecraftUUID = ''u2''\<rparr>],
             verificationFlows = [],
             connections = [\<lparr>cn_createdAt = 10, cn_discordUserID = 1, cn_id = 1,
                             cn_minecraftUserID = 1\<rparr>],
             seq_discordUsers = 1, seq_minecraftUsers = 1, seq_verificationFlows = 1,
             seq_connections = 1\<rparr>,
      calls = 3\<rparr>"

text \<open>
  Two readings of one attempt: that it was made and ran to its end (the deadline had not
  passed when it started and the abort timer did not fire), and what
  \<^verbatim>\<open>discordFetchInner\<close> returned for it.
\<close>

definition attemptRuns :: "int \<Rightarrow> real \<Rightarrow> (int \<Rightarrow> 'd attempt_env) \<Rightarrow> int \<Rightarrow> bool" where
  "attemptRuns retries maxEndTime env attempt =
     (attempt \<le> retries + 1 \<and> \<not> dsub maxEndTime (now_attempt (env attempt)) \<le> 0 \<and>
      \<not> wasAborted (env attempt))"

definition innerOf :: "(int \<Rightarrow> 'd attempt_env) \<Rightarrow> int \<Rightarrow> ('d \<times> int, inner_error) Result" where
  "innerOf env attempt = discordFetchInner (fetched (env attempt)) (now_inner (env attempt))"

text \<open>
  A delay slept after a reading \<open>dateNow\<close> of the clock ends in time when the code's own
  test let it pass: the hint test \<^verbatim>\<open>Date.now() + afterMs >= maxEndTime\<close> failed, or the
  delay is at most the remaining time less the buffer.
\<close>

definition endsInTime :: "real \<Rightarrow> real \<Rightarrow> real \<Rightarrow> bool" where
  "endsInTime maxEndTime dateNow delay =
     (dadd dateNow delay < maxEndTime \<or>
      delay \<le> dsub (dsub maxEndTime dateNow) EXTRA_BUFFER_MS)"

text \<open>
  A call that meets a 500, then a 429 asking for two seconds, then a 429 asking for
  three: the clock readings are those of a run that started at 0.
\<close>

definition busyEnv :: "int \<Rightarrow> json attempt_env" where
  "busyEnv attempt =
     (if attempt = 1 then
        \<lparr>now_attempt = 0,
         fetched = Inr \<lparr>status = 500, retryAfter = None, json_body = Inl ''no body''\<rparr>,
         now_inner = 5, wasAborted = False, now_retry = 10, random = 0.5\<rparr>
      else if attempt = 2 then
        \<lparr>now_attempt = 520,
         fetched = Inr \<lparr>status = 429,
                        retryAfter = Some \<lparr>parseFloat = Some 2, dateGetTime = None\<rparr>,
                        json_body = Inl ''no body''\<rparr>,
         now_inner = 525, wasAborted = False, now_retry = 530, random = 0.5\<rparr>
      else
        \<lparr>now_attempt = 2540,
         fetched = Inr \<lparr>status = 429,
                        retryAfter = Some \<lparr>parseFloat = Some 3, dateGetTime = None\<rparr>,
                        json_body = Inl ''no body''\<rparr>,
         now_inner = 2545, wasAborted = False, now_retry = 2550, random = 0.5\<rparr>)"

text \<open>An endpoint that always answers 500, read by a clock that stands still at 0.\<close>

definition downEnv :: "int \<Rightarrow> json attempt_env" where
  "downEnv attempt =
     \<lparr>now_attempt = 0,
      fetched = Inr \<lparr>status = 500, retryAfter = None, json_body = Inl ''no body''\<rparr>,
      now_inner = 0, wasAborted = False, now_retry = 0, random = 0\<rparr>"

text \<open>A caller that allows one retry within one second.\<close>

definition hurried :: internalOptions where
  "hurried = \<lparr>opt_retries = Some 1, opt_timeoutMs = Some 1000\<rparr>"

text \<open>An attempt that is still in flight when the abort timer fires.\<close>

definition stalledEnv :: "int \<Rightarrow> json attempt_env" where
  "stalledEnv attempt =
     \<lparr>now_attempt = 0, fetched = Inl ''AbortError'', now_inner = 5000, wasAborted = True,
      now_retry = 5000, random = 0\<rparr>"

text \<open>
  A random source whose first ten bytes are rejected, so that the eighth symbol comes
  from the second filling of the array.
\<close>

definition skewedBytes :: "nat \<Rightarrow> nat \<Rightarrow> 8 word" where
  "skewedBytes k i = (if k = 0 \<and> i < 10 then 255 else word_of_nat (36 * k + i))"

definition sameBytes :: "nat \<Rightarrow> nat \<Rightarrow> nat \<Rightarrow> 8 word" where
  "sameBytes attempt = skewedBytes"

definition newcomerParams :: secretParams where
  "newcomerParams = \<lparr>p_minecraftUUID = ''u3'', p_sharedSecret = ''s3cret''\<rparr>"

definition newcomerFlow :: verificationFlowRow where
  "newcomerFlow = \<lparr>vf_createdAt = 10, vf_expiresAt = 900010, vf_id = 2,
                    vf_linkingCode = ''klmnopab'', vf_minecraftUUID = ''u3''\<rparr>"

text \<open>The linked world after a first and a second request for a third game account.\<close>

definition requestedWorld :: world where
  "requestedWorld =
     \<lparr>db = (db linkedWorld)\<lparr>verificationFlows := [alexFlow, newcomerFlow],
                              seq_verificationFlows := 2\<rparr>,
      calls = 4\<rparr>"

definition extendedWorld :: world where
  "extendedWorld =
     \<lparr>db = (db linkedWorld)\<lparr>verificationFlows :=
                                [alexFlow, newcomerFlow\<lparr>vf_expiresAt := 900500\<rparr>],
                              seq_verificationFlows := 2\<rparr>,
      calls = 6\<rparr>"

section \<open>Properties of the dispatcher\<close>

lemmas rpc_errors = parseError_def invalidRequest_def methodNotFound_def invalidParams_def
  internalError_def

lemmas fixture_defs = parseFixture_def requireParams_def pingHandler_def boomHandler_def
  handlersFixture_def createHandlersMap_def RPCRequestSchema_def idSchema_def

text \<open>
  C9. \<^verbatim>\<open>handleRPC\<close> always returns a JSON-RPC 2.0 response and never lets an exception
  out. Failures are classified in this order: a body that cannot be read or parsed gives
  code -32700, a document that fails the envelope schema -32600, an unknown method
  -32601, parameters that fail the handler's schema -32602, a handler that throws or
  rejects -32603; otherwise the handler's value is the \<^verbatim>\<open>result\<close> member, unchanged.
\<close>

theorem handleRPC_classification:
  "(\<exists>resp. fst (handleRPC JSON_parse hs body w) = Inr resp \<and> resp_jsonrpc resp = ''2.0'') \<and>
   (body = Inl e \<longrightarrow> errorCodeOf (fst (handleRPC JSON_parse hs body w)) = Some (- 32700)) \<and>
   (body = Inr t \<and> JSON_parse t = Inl e \<longrightarrow>
      errorCodeOf (fst (handleRPC JSON_parse hs body w)) = Some (- 32700)) \<and>
   (body = Inr t \<and> JSON_parse t = Inr j \<and> RPCRequestSchema j = None \<longrightarrow>
      errorCodeOf (fst (handleRPC JSON_parse hs body w)) = Some (- 32600)) \<and>
   (body = Inr t \<and> JSON_parse t = Inr j \<and> RPCRequestSchema j = Some rq \<and>
    createHandlersMap hs (req_method rq) = None \<longrightarrow>
      errorCodeOf (fst (handleRPC JSON_parse hs body w)) = Some (- 32601)) \<and>
   (body = Inr t \<and> JSON_parse t = Inr j \<and> RPCRequestSchema j = Some rq \<and>
    createHandlersMap hs (req_method rq) = Some h \<and> paramsSchema h (req_params rq) = None \<longrightarrow>
      errorCodeOf (fst (handleRPC JSON_parse hs body w)) = Some (- 32602)) \<and>
   (body = Inr t \<and> JSON_parse t = Inr j \<and> RPCRequestSchema j = Some rq \<and>
    createHandlersMap hs (req_method rq) = Some h \<and> paramsSchema h (req_params rq) = Some p \<and>
    handler h p w = (Inl e, w') \<longrightarrow>
      errorCodeOf (fst (handleRPC JSON_parse hs body w)) = Some (- 32603) \<and>
      snd (handleRPC JSON_parse hs body w) = w') \<and>
   (body = Inr t \<and> JSON_parse t = Inr j \<and> RPCRequestSchema j = Some rq \<and>
    createHandlersMap hs (req_method rq) = Some h \<and> paramsSchema h (req_params rq) = Some p \<and>
    handler h p w = (Inr v, w') \<longrightarrow>
      handleRPC JSON_parse hs body w =
        (Inr (ResultResponse (case req_id rq of Some i \<Rightarrow> i | None \<Rightarrow> IdNull) ''2.0'' v), w'))"
  by (auto simp: handleRPC_def tryCatch_def errorCodeOf_def rpc_errors Let_def
           split: sum.splits option.splits prod.splits Result.splits)

theorem handleRPC_classification_witness:
  "errorCodeOf (fst (handleRPC parseFixture handlersFixture (Inl ''aborted'') 0)) = Some (- 32700) \<and>
   errorCodeOf (fst (handleRPC parseFixture handlersFixture (Inr ''{'') 0)) = Some (- 32700) \<and>
   errorCodeOf (fst (handleRPC parseFixture handlersFixture (Inr ''old'') 0)) = Some (- 32600) \<and>
   errorCodeOf (fst (handleRPC parseFixture handlersFixture (Inr ''nomethod'') 0)) = Some (- 32601) \<and>
   errorCodeOf (fst (handleRPC parseFixture handlersFixture (Inr ''noparams'') 0)) = Some (- 32602) \<and>
   errorCodeOf (fst (handleRPC parseFixture handlersFixture (Inr ''boom'') 0)) = Some (- 32603) \<and>
   handleRPC parseFixture handlersFixture (Inr ''ping'') 0
     = (Inr (ResultResponse (IdNumber 7) ''2.0'' (JStr ''pong'')), 1)"
  using handleRPC_classification [of parseFixture handlersFixture "Inl ''aborted''" 0 "''aborted''"]
    handleRPC_classification [of parseFixture handlersFixture "Inr ''{''" 0 "''SyntaxError''" "''{''"]
    handleRPC_classification [of parseFixture handlersFixture "Inr ''old''" 0 _ "''old''"
      "JObj [(''id'', JNum 7), (''jsonrpc'', JStr ''1.0''), (''method'', JStr ''ping'')]"]
    handleRPC_classification [of parseFixture handlersFixture "Inr ''nomethod''" 0 _ "''nomethod''"
      "JObj [(''id'', JNum 7), (''jsonrpc'', JStr ''2.0''), (''method'', JStr ''nope'')]"
      "\<lparr>req_id = Some (IdNumber 7), req_jsonrpc = ''2.0'', req_method = ''nope'',
        req_params = None\<rparr>"]
    handleRPC_classification [of parseFixture handlersFixture "Inr ''noparams''" 0 _ "''noparams''"
      "JObj [(''id'', JNum 7), (''jsonrpc'', JStr ''2.0''), (''method'', JStr ''ping'')]"
      "\<lparr>req_id = Some (IdNumber 7), req_jsonrpc = ''2.0'', req_method = ''ping'',
        req_params = None\<rparr>"
      "\<lparr>h_method = ''ping'', paramsSchema = requireParams, handler = pingHandler\<rparr>"]
    handleRPC_classification [of parseFixture handlersFixture "Inr ''boom''" 0 "''TypeError''"
      "''boom''"
      "JObj [(''id'', JNum 7), (''jsonrpc'', JStr ''2.0''), (''method'', JStr ''boom''),
             (''params'', JStr ''x'')]"
      "\<lparr>req_id = Some (IdNumber 7), req_jsonrpc = ''2.0'', req_method = ''boom'',
        req_params = Some (JStr ''x'')\<rparr>"
      "\<lparr>h_method = ''boom'', paramsSchema = requireParams, handler = boomHandler\<rparr>"
      "JStr ''x''" 1]
    handleRPC_classification [of parseFixture handlersFixture "Inr ''ping''" 0 _ "''ping''"
      "JObj [(''id'', JNum 7), (''jsonrpc'', JStr ''2.0''), (''method'', JStr ''ping''),
             (''params'', JStr ''x'')]"
      "\<lparr>req_id = Some (IdNumber 7), req_jsonrpc = ''2.0'', req_method = ''ping'',
        req_params = Some (JStr ''x'')\<rparr>"
      "\<lparr>h_method = ''ping'', paramsSchema = requireParams, handler = pingHandler\<rparr>"
      "JStr ''x''" 1 "JStr ''pong''"]
  by (simp add: fixture_defs)

text \<open>
  C10. A request rejected before the envelope schema has passed (body unreadable, JSON
  unparseable, envelope invalid) is answered with id null, whatever the body held; once
  the envelope has passed, every answer carries the request's id, or null when the
  request had none.
\<close>

theorem handleRPC_response_id:
  "(body = Inl e \<longrightarrow> responseIdOf (fst (handleRPC JSON_parse hs body w)) = Some IdNull) \<and>
   (body = Inr t \<and> JSON_parse t = Inl e \<longrightarrow>
      responseIdOf (fst (handleRPC JSON_parse hs body w)) = Some IdNull) \<and>
   (body = Inr t \<and> JSON_parse t = Inr j \<and> RPCRequestSchema j = None \<longrightarrow>
      responseIdOf (fst (handleRPC JSON_parse hs body w)) = Some IdNull) \<and>
   (body = Inr t \<and> JSON_parse t = Inr j \<and> RPCRequestSchema j = Some rq \<longrightarrow>
      responseIdOf (fst (handleRPC JSON_parse hs body w)) =
        Some (case req_id rq of Some i \<Rightarrow> i | None \<Rightarrow> IdNull))"
  by (auto simp: handleRPC_def tryCatch_def responseIdOf_def Let_def
           split: sum.splits option.splits prod.splits Result.splits)

theorem handleRPC_response_id_witness:
  "responseIdOf (fst (handleRPC parseFixture handlersFixture (Inl ''aborted'') 0)) = Some IdNull \<and>
   responseIdOf (fst (handleRPC parseFixture handlersFixture (Inr ''{'') 0)) = Some IdNull \<and>
   map_of [(''id'', JNum 7), (''jsonrpc'', JStr ''1.0''), (''method'', JStr ''ping'')] ''id''
     = Some (JNum 7) \<and>
   responseIdOf (fst (handleRPC parseFixture handlersFixture (Inr ''old'') 0)) = Some IdNull \<and>
   responseIdOf (fst (handleRPC parseFixture handlersFixture (Inr ''nomethod'') 0))
     = Some (IdNumber 7) \<and>
   responseIdOf (fst (handleRPC parseFixture handlersFixture (Inr ''ping'') 0))
     = Some (IdNumber 7)"
  using handleRPC_response_id [of "Inl ''aborted''" "''aborted''" parseFixture handlersFixture 0]
    handleRPC_response_id [of "Inr ''{''" "''SyntaxError''" parseFixture handlersFixture 0 "''{''"]
    handleRPC_response_id [of "Inr ''old''" _ parseFixture handlersFixture 0 "''old''"
      "JObj [(''id'', JNum 7), (''jsonrpc'', JStr ''1.0''), (''method'', JStr ''ping'')]"]
    handleRPC_response_id [of "Inr ''nomethod''" _ parseFixture handlersFixture 0 "''nomethod''"
      "JObj [(''id'', JNum 7), (''jsonrpc'', JStr ''2.0''), (''method'', JStr ''nope'')]"
      "\<lparr>req_id = Some (IdNumber 7), req_jsonrpc = ''2.0'', req_method = ''nope'',
        req_params = None\<rparr>"]
    handleRPC_response_id [of "Inr ''ping''" _ parseFixture handlersFixture 0 "''ping''"
      "JObj [(''id'', JNum 7), (''jsonrpc'', JStr ''2.0''), (''method'', JStr ''ping''),
             (''params'', JStr ''x'')]"
      "\<lparr>req_id = Some (IdNumber 7), req_jsonrpc = ''2.0'', req_method = ''ping'',
        req_params = Some (JStr ''x'')\<rparr>"]
  by (simp add: fixture_defs)

section \<open>Properties of the handlers\<close>

lemmas scenario_defs = noFaults_def envFixture_def tokensFixture_def tokensByCode_def
  tokensByRefresh_def userAlice_def guildsInside_def guildsOutside_def discordMember_def
  discordOutsider_def stateGet_def stateNumber_def runtimeFixture_def aliceRow_def
  steveRow_def aliceSteve_def alexFlow_def linkedWorld_def danglingWorld_def steveParams_def
  callbackParams_def alexRow_def partialWorld_def openWorld_def doneWorld_def

lemmas statement_defs = selectUnexpiredFlowByUUID_def selectUnexpiredFlowByCode_def
  selectFlowByCode_def updateFlowExpiry_def deleteFlowsByUUID_def deleteFlowById_def
  insertFlow_def upsertDiscordUser_def upsertMinecraftUser_def upsertConnection_def
  selectMinecraftUserByUUID_def selectConnectionByMinecraftUserID_def
  selectDiscordUserById_def updateDiscordRefreshToken_def deleteConnectionById_def batch_def

lemma run_ok:
  "\<not> faults (calls w) \<Longrightarrow> stmt (db w) = Inr (v, d) \<Longrightarrow>
   run faults stmt w = (ResultOk v, \<lparr>db = d, calls = Suc (calls w)\<rparr>)"
  by (simp add: run_def tryCatch_def)

lemma run_cases:
  "run faults stmt w = (r, w') \<Longrightarrow>
   calls w' = Suc (calls w) \<and>
   ((\<exists>e. r = ResultErr e \<and> db w' = db w) \<or>
    (\<exists>v. r = ResultOk v \<and> \<not> faults (calls w) \<and> stmt (db w) = Inr (v, db w')))"
  by (auto simp: run_def tryCatch_def split: if_splits sum.splits prod.splits)

text \<open>
  C2, as the code has it. With a valid shared secret and the three lookups succeeding,
  the handler returns NotLinked when the game identity row or its connection row is
  absent; when the connection exists and the Discord user row it references is missing,
  it returns DatabaseError. The database is left as it was in all three cases.
\<close>

theorem verifyConnection_missing_rows:
  assumes "compare env (p_sharedSecret params)"
    and "\<not> faults (calls w)" and "\<not> faults (Suc (calls w))" and "\<not> faults (Suc (Suc (calls w)))"
  shows
   "(find (\<lambda>m. mu_minecraftUUID m = p_minecraftUUID params) (minecraftUsers (db w)) = None \<longrightarrow>
       fst (verifyConnection env discord faults params w) = ResultErr NotLinked \<and>
       db (snd (verifyConnection env discord faults params w)) = db w) \<and>
    (find (\<lambda>m. mu_minecraftUUID m = p_minecraftUUID params) (minecraftUsers (db w)) = Some m \<and>
     find (\<lambda>c. cn_minecraftUserID c = mu_id m) (connections (db w)) = None \<longrightarrow>
       fst (verifyConnection env discord faults params w) = ResultErr NotLinked \<and>
       db (snd (verifyConnection env discord faults params w)) = db w) \<and>
    (find (\<lambda>m. mu_minecraftUUID m = p_minecraftUUID params) (minecraftUsers (db w)) = Some m \<and>
     find (\<lambda>c. cn_minecraftUserID c = mu_id m) (connections (db w)) = Some c \<and>
     find (\<lambda>u. du_id u = cn_discordUserID c) (discordUsers (db w)) = None \<longrightarrow>
       fst (verifyConnection env discord faults params w) = ResultErr DatabaseError \<and>
       db (snd (verifyConnection env discord faults params w)) = db w)"
  using assms
  by (simp add: verifyConnection_def run_ok selectMinecraftUserByUUID_def
        selectConnectionByMinecraftUserID_def selectDiscordUserById_def)

theorem verifyConnection_missing_rows_witness:
  "compare envFixture (p_sharedSecret steveParams) \<and>
   find (\<lambda>c. cn_minecraftUserID c = mu_id steveRow) (connections (db danglingWorld))
     = Some aliceSteve \<and>
   find (\<lambda>u. du_id u = cn_discordUserID aliceSteve) (discordUsers (db danglingWorld)) = None \<and>
   fst (verifyConnection envFixture discordMember noFaults steveParams danglingWorld)
     = ResultErr DatabaseError \<and>
   fst (verifyConnection envFixture discordMember noFaults
          (steveParams\<lparr>p_minecraftUUID := ''u9''\<rparr>) danglingWorld) = ResultErr NotLinked \<and>
   fst (verifyConnection envFixture discordMember noFaults steveParams
          (danglingWorld\<lparr>db := (db danglingWorld)\<lparr>connections := []\<rparr>\<rparr>)) = ResultErr NotLinked"
  using verifyConnection_missing_rows [where env = envFixture and params = steveParams
          and faults = noFaults and w = danglingWorld and m = steveRow and c = aliceSteve
          and discord = discordMember]
    verifyConnection_missing_rows [where env = envFixture
          and params = "steveParams\<lparr>p_minecraftUUID := ''u9''\<rparr>"
          and faults = noFaults and w = danglingWorld and discord = discordMember]
    verifyConnection_missing_rows [where env = envFixture and params = steveParams
          and faults = noFaults
          and w = "danglingWorld\<lparr>db := (db danglingWorld)\<lparr>connections := []\<rparr>\<rparr>"
          and m = steveRow and discord = discordMember]
  by (simp add: scenario_defs compare_def)

theorem verifyConnection_dangling_counterexample:
  "compare envFixture (p_sharedSecret steveParams) \<and>
   minecraftUsers (db danglingWorld) = [steveRow] \<and>
   connections (db danglingWorld) = [aliceSteve] \<and>
   cn_minecraftUserID aliceSteve = mu_id steveRow \<and>
   discordUsers (db danglingWorld) = [] \<and>
   fst (verifyConnection envFixture discordMember noFaults steveParams danglingWorld)
     = ResultErr DatabaseError"
  by (simp add: verifyConnection_def run_def tryCatch_def statement_defs scenario_defs compare_def)

lemma find_filter_none:
  "\<forall>x \<in> set xs. P x \<longrightarrow> \<not> Q x \<Longrightarrow> find P (filter Q xs) = None"
  by (induction xs) auto

lemma distinct_map_find_unique:
  "distinct (map f xs) \<Longrightarrow> find (\<lambda>x. f x = k) xs = Some c \<Longrightarrow> x \<in> set xs \<Longrightarrow> f x = k \<Longrightarrow> x = c"
  by (induction xs) (auto split: if_splits simp: image_iff)

text \<open>
  C8. A linked game account whose Discord user has left the configured guild: with the
  datastore answering, the refresh and the guild fetch succeeding and the guild absent
  from the list, the handler deletes the connection and returns AccessDenied, and the
  next call for the same account returns NotLinked.
\<close>

theorem verifyConnection_revokes_link:
  assumes secret: "compare env (p_sharedSecret params)"
    and healthy: "\<forall>k < 7. \<not> faults (calls w + k)"
    and uniq: "distinct (map cn_minecraftUserID (connections (db w)))"
    and mu: "find (\<lambda>m. mu_minecraftUUID m = p_minecraftUUID params) (minecraftUsers (db w)) = Some m"
    and cn: "find (\<lambda>c. cn_minecraftUserID c = mu_id m) (connections (db w)) = Some c"
    and du: "find (\<lambda>u. du_id u = cn_discordUserID c) (discordUsers (db w)) = Some u"
    and stored: "du_discordRefreshToken u = Some storedToken" "storedToken \<noteq> []"
    and refresh: "createDiscordOAuth2TokenWithRefreshToken discord storedToken = ResultOk tokens"
    and guilds: "fetchDiscordUserGuildsData discord (accessToken tokens) = ResultOk gs"
    and left: "DISCORD_GUILD_ID env \<notin> guild_id ` set gs"
  shows "fst (verifyConnection env discord faults params w) = ResultErr AccessDenied \<and>
         connections (db (snd (verifyConnection env discord faults params w)))
           = filter (\<lambda>r. cn_id r \<noteq> cn_id c) (connections (db w)) \<and>
         fst (verifyConnection env discord' faults params
                (snd (verifyConnection env discord faults params w))) = ResultErr NotLinked"
proof -
  let ?d1 = "(db w)\<lparr>discordUsers :=
                 map (\<lambda>x. if du_id x = du_id u
                           then x\<lparr>du_discordRefreshToken := Some (refreshToken tokens)\<rparr> else x)
                     (discordUsers (db w))\<rparr>"
  let ?d2 = "?d1\<lparr>connections := filter (\<lambda>r. cn_id r \<noteq> cn_id c) (connections (db w))\<rparr>"
  let ?w1 = "\<lparr>db = ?d2, calls = Suc (Suc (Suc (Suc (Suc (calls w)))))\<rparr>"
  have f: "\<not> faults (calls w)" "\<not> faults (Suc (calls w))" "\<not> faults (Suc (Suc (calls w)))"
    "\<not> faults (Suc (Suc (Suc (calls w))))" "\<not> faults (Suc (Suc (Suc (Suc (calls w)))))"
    "\<not> faults (Suc (Suc (Suc (Suc (Suc (calls w))))))"
    "\<not> faults (Suc (Suc (Suc (Suc (Suc (Suc (calls w)))))))"
    using healthy [rule_format, of 0] healthy [rule_format, of 1] healthy [rule_format, of 2]
      healthy [rule_format, of 3] healthy [rule_format, of 4] healthy [rule_format, of 5]
      healthy [rule_format, of 6]
    by (simp_all add: numeral_eq_Suc)
  have notin: "\<not> list_ex (\<lambda>guild. guild_id guild = DISCORD_GUILD_ID env) gs"
    using left by (auto simp: list_ex_iff image_iff)
  have first: "verifyConnection env discord faults params w = (ResultErr AccessDenied, ?w1)"
    using secret f mu cn du stored refresh guilds notin
    by (simp add: verifyConnection_def run_ok selectMinecraftUserByUUID_def
          selectConnectionByMinecraftUserID_def selectDiscordUserById_def
          updateDiscordRefreshToken_def deleteConnectionById_def)
  have gone: "find (\<lambda>r. cn_minecraftUserID r = mu_id m)
                (filter (\<lambda>r. cn_id r \<noteq> cn_id c) (connections (db w))) = None"
  proof (rule find_filter_none, intro ballI impI)
    fix x assume "x \<in> set (connections (db w))" "cn_minecraftUserID x = mu_id m"
    then have "x = c" using distinct_map_find_unique [OF uniq cn] by blast
    then show "\<not> cn_id x \<noteq> cn_id c" by simp
  qed
  have second: "fst (verifyConnection env discord' faults params ?w1) = ResultErr NotLinked"
    using secret f mu gone
    by (simp add: verifyConnection_def run_ok selectMinecraftUserByUUID_def
          selectConnectionByMinecraftUserID_def)
  show ?thesis using first second by simp
qed

theorem verifyConnection_revokes_link_witness:
  "fst (verifyConnection envFixture discordOutsider noFaults steveParams linkedWorld)
     = ResultErr AccessDenied \<and>
   connections (db (snd (verifyConnection envFixture discordOutsider noFaults steveParams
                           linkedWorld))) = [] \<and>
   fst (verifyConnection envFixture discordMember noFaults steveParams
          (snd (verifyConnection envFixture discordOutsider noFaults steveParams linkedWorld)))
     = ResultErr NotLinked"
  using verifyConnection_revokes_link [where env = envFixture and params = steveParams
          and faults = noFaults and w = linkedWorld and m = steveRow and c = aliceSteve
          and u = aliceRow and storedToken = "''rt1''" and discord = discordOutsider
          and tokens = tokensFixture
          and gs = "[\<lparr>guild_id = ''g0'', guild_name = ''other''\<rparr>]"
          and discord' = discordMember]
  by (simp add: scenario_defs compare_def)

lemma select_flow_run:
  "run faults (selectUnexpiredFlowByCode lc now) w = (r, w1) \<Longrightarrow>
   db w1 = db w \<and>
   (\<forall>v. r = ResultOk v \<longrightarrow>
      v = find (\<lambda>f. vf_linkingCode f = lc \<and> vf_expiresAt f > now) (verificationFlows (db w)))"
  by (auto simp: run_def tryCatch_def selectUnexpiredFlowByCode_def split: if_splits)

text \<open>
  C7. An execution of \<^verbatim>\<open>linkDiscordAccount\<close> that returns AccessDenied has written
  nothing: the database after it is the database before it, and the flow that matched
  the linking code is still the unexpired flow found under that code.
\<close>

theorem linkDiscordAccount_denied_writes_nothing:
  assumes "linkDiscordAccount env rt discord now faults params w = (ResultErr AccessDenied, w')"
  shows "db w' = db w \<and>
         (\<exists>state flow. decodeOAuthState rt (p_state params) = Some state \<and>
            find (\<lambda>f. vf_linkingCode f = st_linkingCode state \<and> vf_expiresAt f > now)
              (verificationFlows (db w')) = Some flow)"
proof -
  obtain state where st: "decodeOAuthState rt (p_state params) = Some state"
    using assms by (cases "decodeOAuthState rt (p_state params)")
      (auto simp: linkDiscordAccount_def)
  obtain r1 w1 where sel: "run faults (selectUnexpiredFlowByCode (st_linkingCode state) now) w = (r1, w1)"
    by (cases "run faults (selectUnexpiredFlowByCode (st_linkingCode state) now) w") auto
  note s1 = select_flow_run [OF sel]
  obtain flow where fl: "r1 = ResultOk (Some flow)"
    using assms st sel
    by (auto simp: linkDiscordAccount_def split: Result.splits option.splits)
  have same: "w' = w1"
    using assms st sel fl
    by (auto simp: linkDiscordAccount_def dest!: run_cases
             split: Result.splits option.splits if_splits list.splits prod.splits)
  have "Some flow = find (\<lambda>f. vf_linkingCode f = st_linkingCode state \<and> vf_expiresAt f > now)
                      (verificationFlows (db w))"
    using s1 fl by blast
  then have "find (\<lambda>f. vf_linkingCode f = st_linkingCode state \<and> vf_expiresAt f > now)
               (verificationFlows (db w')) = Some flow"
    using same s1 by simp
  then show ?thesis using same s1 st by blast
qed

theorem linkDiscordAccount_denied_writes_nothing_witness:
  "linkDiscordAccount envFixture runtimeFixture discordOutsider 10 noFaults callbackParams
     linkedWorld = (ResultErr AccessDenied, linkedWorld\<lparr>calls := 1\<rparr>) \<and>
   db (linkedWorld\<lparr>calls := 1\<rparr>) = db linkedWorld \<and>
   find (\<lambda>f. vf_linkingCode f = ''abcd2345'' \<and> vf_expiresAt f > 10)
     (verificationFlows (db (linkedWorld\<lparr>calls := 1\<rparr>))) = Some alexFlow"
proof -
  have run1: "linkDiscordAccount envFixture runtimeFixture discordOutsider 10 noFaults
                callbackParams linkedWorld = (ResultErr AccessDenied, linkedWorld\<lparr>calls := 1\<rparr>)"
    by (simp add: linkDiscordAccount_def decodeOAuthState_def run_def tryCatch_def
          selectUnexpiredFlowByCode_def scenario_defs)
  show ?thesis
    using linkDiscordAccount_denied_writes_nothing [OF run1] run1
    by (simp add: scenario_defs decodeOAuthState_def)
qed

lemma upsertIdentities_keeps:
  "upsertIdentities now discordID tok uuid d = Inr (rows, d') \<Longrightarrow>
   connections d' = connections d \<and> verificationFlows d' = verificationFlows d"
  by (auto simp: upsertIdentities_def batch_def upsertDiscordUser_def upsertMinecraftUser_def
        Let_def split: if_splits)

text \<open>What the rows returned by the two identity upserts are, and what the upserts keep.\<close>

lemma upsertDiscordUser_row:
  assumes "upsertDiscordUser now discordID tok d = Inr (dr # rest, d1)"
  shows "dr \<in> set (discordUsers d1) \<and> du_discordID dr = discordID \<and>
         du_discordRefreshToken dr = Some tok \<and> minecraftUsers d1 = minecraftUsers d"
proof (cases "\<exists>u \<in> set (discordUsers d). du_discordID u = discordID")
  case True
  let ?rows = "map (\<lambda>u. if du_discordID u = discordID
                          then u\<lparr>du_discordRefreshToken := Some tok\<rparr> else u) (discordUsers d)"
  from assms True have ret: "filter (\<lambda>u. du_discordID u = discordID) ?rows = dr # rest"
    and tab: "discordUsers d1 = ?rows" and keep: "minecraftUsers d1 = minecraftUsers d"
    by (auto simp: upsertDiscordUser_def Let_def)
  have "dr \<in> set (filter (\<lambda>u. du_discordID u = discordID) ?rows)"
    by (simp only: ret) simp
  then have "dr \<in> set ?rows \<and> du_discordID dr = discordID"
    unfolding set_filter by (rule CollectD)
  then have mem: "dr \<in> set ?rows" and id: "du_discordID dr = discordID"
    by blast+
  from mem obtain u where
    u: "dr = (if du_discordID u = discordID then u\<lparr>du_discordRefreshToken := Some tok\<rparr> else u)"
    unfolding set_map by (rule imageE)
  have "du_discordRefreshToken dr = Some tok"
  proof (cases "du_discordID u = discordID")
    case True
    with u show ?thesis by simp
  next
    case False
    with u id show ?thesis by simp
  qed
  with mem id tab keep show ?thesis by (simp only: simp_thms)
next
  case False
  with assms show ?thesis
    by (auto simp: upsertDiscordUser_def Let_def)
qed

lemma upsertMinecraftUser_row:
  assumes "upsertMinecraftUser now uuid d = Inr (mr # rest, d1)"
  shows "mr \<in> set (minecraftUsers d1) \<and> mu_minecraftUUID mr = uuid \<and>
         discordUsers d1 = discordUsers d"
proof (cases "\<exists>m \<in> set (minecraftUsers d). mu_minecraftUUID m = uuid")
  case True
  let ?rows = "map (\<lambda>m. if mu_minecraftUUID m = uuid then m\<lparr>mu_minecraftUUID := uuid\<rparr> else m)
                   (minecraftUsers d)"
  from assms True have ret: "filter (\<lambda>m. mu_minecraftUUID m = uuid) ?rows = mr # rest"
    and tab: "minecraftUsers d1 = ?rows" and keep: "discordUsers d1 = discordUsers d"
    by (auto simp: upsertMinecraftUser_def Let_def)
  have "mr \<in> set (filter (\<lambda>m. mu_minecraftUUID m = uuid) ?rows)"
    by (simp only: ret) simp
  then have "mr \<in> set ?rows \<and> mu_minecraftUUID mr = uuid"
    unfolding set_filter by (rule CollectD)
  then have "mr \<in> set ?rows" and "mu_minecraftUUID mr = uuid"
    by blast+
  with tab keep show ?thesis by (simp only: simp_thms)
next
  case False
  with assms show ?thesis
    by (auto simp: upsertMinecraftUser_def Let_def)
qed

lemma upsertIdentities_rows:
  assumes "upsertIdentities now discordID tok uuid d = Inr ((dr # rest1, mr # rest2), d1)"
  shows "dr \<in> set (discordUsers d1) \<and> du_discordID dr = discordID \<and>
         du_discordRefreshToken dr = Some tok \<and>
         mr \<in> set (minecraftUsers d1) \<and> mu_minecraftUUID mr = uuid"
proof -
  from assms obtain d0 where
    first: "upsertDiscordUser now discordID tok d = Inr (dr # rest1, d0)" and
    second: "upsertMinecraftUser now uuid d0 = Inr (mr # rest2, d1)"
    by (auto simp: upsertIdentities_def batch_def split: sum.splits prod.splits)
  from upsertDiscordUser_row [OF first] upsertMinecraftUser_row [OF second]
  show ?thesis by simp
qed

lemma upsertConnection_links:
  assumes "upsertConnection now discordUserID minecraftUserID d1 = Inr (u, d0)"
  shows "(\<exists>c \<in> set (connections d0).
            cn_discordUserID c = discordUserID \<and> cn_minecraftUserID c = minecraftUserID) \<and>
         verificationFlows d0 = verificationFlows d1 \<and>
         discordUsers d0 = discordUsers d1 \<and> minecraftUsers d0 = minecraftUsers d1"
proof (cases "\<exists>c \<in> set (connections d1). cn_minecraftUserID c = minecraftUserID")
  case True
  let ?f = "\<lambda>c. if cn_minecraftUserID c = minecraftUserID
                 then c\<lparr>cn_createdAt := now, cn_discordUserID := discordUserID\<rparr> else c"
  from True obtain c where c: "c \<in> set (connections d1)" "cn_minecraftUserID c = minecraftUserID"
    by blast
  from assms True have tab: "connections d0 = map ?f (connections d1)"
    and keep: "verificationFlows d0 = verificationFlows d1"
      "discordUsers d0 = discordUsers d1" "minecraftUsers d0 = minecraftUsers d1"
    by (auto simp: upsertConnection_def split: if_splits)
  from c(1) have "?f c \<in> ?f ` set (connections d1)" by (rule imageI)
  then have "?f c \<in> set (connections d0)" unfolding tab set_map .
  moreover from c(2) have "cn_discordUserID (?f c) = discordUserID \<and>
      cn_minecraftUserID (?f c) = minecraftUserID"
    by simp
  ultimately have "\<exists>c \<in> set (connections d0).
      cn_discordUserID c = discordUserID \<and> cn_minecraftUserID c = minecraftUserID"
    by (rule rev_bexI)
  with keep show ?thesis by (simp only: simp_thms)
next
  case False
  with assms show ?thesis
    by (auto simp: upsertConnection_def Let_def split: if_splits)
qed

lemma connectAndConsume_effect:
  assumes "connectAndConsume now discordUserID minecraftUserID flowId d1 = Inr (u, d2)"
  shows "(\<exists>c \<in> set (connections d2).
            cn_discordUserID c = discordUserID \<and> cn_minecraftUserID c = minecraftUserID) \<and>
         verificationFlows d2 = filter (\<lambda>f. vf_id f \<noteq> flowId) (verificationFlows d1) \<and>
         discordUsers d2 = discordUsers d1 \<and> minecraftUsers d2 = minecraftUsers d1"
proof -
  from assms obtain d0 where
    link: "upsertConnection now discordUserID minecraftUserID d1 = Inr ((), d0)" and
    del: "deleteFlowById flowId d0 = Inr ((), d2)"
    by (auto simp: connectAndConsume_def batch_def split: sum.splits prod.splits)
  from del have "connections d2 = connections d0 \<and>
         verificationFlows d2 = filter (\<lambda>f. vf_id f \<noteq> flowId) (verificationFlows d0) \<and>
         discordUsers d2 = discordUsers d0 \<and> minecraftUsers d2 = minecraftUsers d0"
    by (auto simp: deleteFlowById_def)
  with upsertConnection_links [OF link] show ?thesis by simp
qed


text \<open>
  How an execution of \<^verbatim>\<open>linkDiscordAccount\<close> can end: with an error and the database as
  it was; with DatabaseError after the first batch; or with success after both batches.
  In the last two cases the batches were run with the values the earlier steps gave.
\<close>

lemma linkDiscordAccount_cases:
  assumes "linkDiscordAccount env rt discord now faults params w = (r, w')"
  shows "(\<exists>e. r = ResultErr e \<and> db w' = db w) \<or>
         (\<exists>state flow tokens discordUser.
            decodeOAuthState rt (p_state params) = Some state \<and>
            selectUnexpiredFlowByCode (st_linkingCode state) now (db w) = Inr (Some flow, db w) \<and>
            createDiscordOAuth2TokenWithCode discord (p_code params)
              (APP_URL env @ ''/oauth2/discord/'') = ResultOk tokens \<and>
            fetchDiscordUserData discord (accessToken tokens) = ResultOk discordUser \<and>
            ((\<exists>rows. r = ResultErr DatabaseError \<and>
                upsertIdentities now (user_id discordUser) (refreshToken tokens)
                  (vf_minecraftUUID flow) (db w) = Inr (rows, db w')) \<or>
             (\<exists>discordRecord rest1 minecraftRecord rest2 d1.
                r = ResultOk (username discordUser) \<and>
                upsertIdentities now (user_id discordUser) (refreshToken tokens)
                  (vf_minecraftUUID flow) (db w)
                  = Inr ((discordRecord # rest1, minecraftRecord # rest2), d1) \<and>
                connectAndConsume now (du_id discordRecord) (mu_id minecraftRecord) (vf_id flow) d1
                  = Inr (((), ()), db w'))))"
proof (cases "decodeOAuthState rt (p_state params)")
  case None
  then show ?thesis using assms by (auto simp: linkDiscordAccount_def)
next
  case (Some state)
  obtain r1 w1 where sel: "run faults (selectUnexpiredFlowByCode (st_linkingCode state) now) w = (r1, w1)"
    by (cases "run faults (selectUnexpiredFlowByCode (st_linkingCode state) now) w") auto
  have same: "db w1 = db w" using select_flow_run [OF sel] by simp
  show ?thesis
  proof (cases r1)
    case (ResultErr x)
    then show ?thesis using assms Some sel same by (auto simp: linkDiscordAccount_def)
  next
    case (ResultOk found)
    show ?thesis
    proof (cases found)
      case None
      then show ?thesis using assms Some sel same ResultOk by (auto simp: linkDiscordAccount_def)
    next
      case (Some flow)
      have flow: "selectUnexpiredFlowByCode (st_linkingCode state) now (db w) = Inr (Some flow, db w)"
        using run_cases [OF sel] ResultOk Some same by auto
      note start = \<open>decodeOAuthState rt (p_state params) = Some state\<close> sel ResultOk Some
      show ?thesis
      proof (cases "createDiscordOAuth2TokenWithCode discord (p_code params)
                      (APP_URL env @ ''/oauth2/discord/'')")
        case (ResultErr x)
        then show ?thesis using assms start same
          by (auto simp: linkDiscordAccount_def split: if_splits)
      next
        case tok: (ResultOk tokens)
        show ?thesis
        proof (cases "fetchDiscordUserData discord (accessToken tokens)")
          case (ResultErr x)
          then show ?thesis using assms start same tok by (auto simp: linkDiscordAccount_def)
        next
          case usr: (ResultOk discordUser)
          show ?thesis
          proof (cases "fetchDiscordUserGuildsData discord (accessToken tokens)")
            case (ResultErr x)
            then show ?thesis using assms start same tok usr by (auto simp: linkDiscordAccount_def)
          next
            case gld: (ResultOk guilds)
            show ?thesis
            proof (cases "list_ex (\<lambda>guild. guild_id guild = DISCORD_GUILD_ID env) guilds")
              case False
              then show ?thesis using assms start same tok usr gld
                by (auto simp: linkDiscordAccount_def)
            next
              case True
              obtain r2 w2 where up: "run faults (upsertIdentities now (user_id discordUser)
                  (refreshToken tokens) (vf_minecraftUUID flow)) w1 = (r2, w2)"
                by (cases "run faults (upsertIdentities now (user_id discordUser)
                  (refreshToken tokens) (vf_minecraftUUID flow)) w1") auto
              note path = start tok usr gld True up
              show ?thesis
              proof (cases r2)
                case (ResultErr x)
                then have "db w2 = db w1" using run_cases [OF up] by auto
                then show ?thesis using assms path same ResultErr
                  by (auto simp: linkDiscordAccount_def)
              next
                case rows: (ResultOk rows)
                then have first: "upsertIdentities now (user_id discordUser) (refreshToken tokens)
                    (vf_minecraftUUID flow) (db w) = Inr (rows, db w2)"
                  using run_cases [OF up] same by auto
                have pins: "decodeOAuthState rt (p_state params) = Some state \<and>
                    selectUnexpiredFlowByCode (st_linkingCode state) now (db w)
                      = Inr (Some flow, db w) \<and>
                    createDiscordOAuth2TokenWithCode discord (p_code params)
                      (APP_URL env @ ''/oauth2/discord/'') = ResultOk tokens \<and>
                    fetchDiscordUserData discord (accessToken tokens) = ResultOk discordUser"
                  using start flow tok usr by simp
                show ?thesis
                proof (cases "\<exists>discordRecord rest1 minecraftRecord rest2.
                                rows = (discordRecord # rest1, minecraftRecord # rest2)")
                  case False
                  then have "r = ResultErr DatabaseError \<and> w' = w2"
                    using assms path rows
                    by (auto simp: linkDiscordAccount_def split: prod.splits list.splits)
                  with first pins show ?thesis by blast
                next
                  case True
                  then obtain discordRecord rest1 minecraftRecord rest2
                    where shape: "rows = (discordRecord # rest1, minecraftRecord # rest2)"
                    by blast
                  obtain r3 w3 where cn: "run faults (connectAndConsume now (du_id discordRecord)
                      (mu_id minecraftRecord) (vf_id flow)) w2 = (r3, w3)"
                    by (cases "run faults (connectAndConsume now (du_id discordRecord)
                      (mu_id minecraftRecord) (vf_id flow)) w2") auto
                  show ?thesis
                  proof (cases r3)
                    case (ResultErr x)
                    then have "db w3 = db w2" using run_cases [OF cn] by auto
                    moreover have "r = ResultErr DatabaseError \<and> w' = w3"
                      using assms path rows shape cn ResultErr
                      by (simp add: linkDiscordAccount_def)
                    ultimately show ?thesis using first pins by auto
                  next
                    case (ResultOk v)
                    then have second: "connectAndConsume now (du_id discordRecord)
                        (mu_id minecraftRecord) (vf_id flow) (db w2) = Inr (((), ()), db w3)"
                      using run_cases [OF cn] by (auto simp: prod_eq_iff)
                    have "r = ResultOk (username discordUser) \<and> w' = w3"
                      using assms path rows shape cn ResultOk
                      by (simp add: linkDiscordAccount_def)
                    with first second shape pins show ?thesis by blast
                  qed
                qed
              qed
            qed
          qed
        qed
      qed
    qed
  qed
qed

text \<open>
  C1, as the code has it. The handler writes in two batches, one after the other. An
  execution that returns an error leaves the connection and flow tables as they were,
  and its database is either the initial one or, with DatabaseError, the initial one
  with the identity upserts of the first batch applied: the upserts of the Discord user
  the handler fetched, with the refresh token it obtained, and of the game account of
  the flow it found. An execution that succeeds returns that user's name; it has applied
  the first batch and then, to its result, the second batch, which links the two rows
  the first batch returned and deletes the flow it found: both rows are in their
  tables, a connection joins their ids, and the flow is gone.
\<close>

theorem linkDiscordAccount_two_batches:
  assumes "linkDiscordAccount env rt discord now faults params w = (r, w')"
  shows "(\<forall>e. r = ResultErr e \<longrightarrow>
            connections (db w') = connections (db w) \<and>
            verificationFlows (db w') = verificationFlows (db w) \<and>
            (db w' = db w \<or>
             (\<exists>state flow tokens discordUser rows.
                e = DatabaseError \<and>
                decodeOAuthState rt (p_state params) = Some state \<and>
                selectUnexpiredFlowByCode (st_linkingCode state) now (db w)
                  = Inr (Some flow, db w) \<and>
                createDiscordOAuth2TokenWithCode discord (p_code params)
                  (APP_URL env @ ''/oauth2/discord/'') = ResultOk tokens \<and>
                fetchDiscordUserData discord (accessToken tokens) = ResultOk discordUser \<and>
                upsertIdentities now (user_id discordUser) (refreshToken tokens)
                  (vf_minecraftUUID flow) (db w) = Inr (rows, db w')))) \<and>
         (\<forall>name. r = ResultOk name \<longrightarrow>
            (\<exists>state flow tokens discordUser discordRecord rest1 minecraftRecord rest2 d1.
               decodeOAuthState rt (p_state params) = Some state \<and>
               selectUnexpiredFlowByCode (st_linkingCode state) now (db w)
                 = Inr (Some flow, db w) \<and>
               createDiscordOAuth2TokenWithCode discord (p_code params)
                 (APP_URL env @ ''/oauth2/discord/'') = ResultOk tokens \<and>
               fetchDiscordUserData discord (accessToken tokens) = ResultOk discordUser \<and>
               name = username discordUser \<and>
               upsertIdentities now (user_id discordUser) (refreshToken tokens)
                 (vf_minecraftUUID flow) (db w)
                 = Inr ((discordRecord # rest1, minecraftRecord # rest2), d1) \<and>
               connectAndConsume now (du_id discordRecord) (mu_id minecraftRecord) (vf_id flow) d1
                 = Inr (((), ()), db w') \<and>
               discordRecord \<in> set (discordUsers (db w')) \<and>
               du_discordID discordRecord = user_id discordUser \<and>
               du_discordRefreshToken discordRecord = Some (refreshToken tokens) \<and>
               minecraftRecord \<in> set (minecraftUsers (db w')) \<and>
               mu_minecraftUUID minecraftRecord = vf_minecraftUUID flow \<and>
               (\<exists>c \<in> set (connections (db w')).
                  cn_discordUserID c = du_id discordRecord \<and>
                  cn_minecraftUserID c = mu_id minecraftRecord) \<and>
               verificationFlows (db w')
                 = filter (\<lambda>f. vf_id f \<noteq> vf_id flow) (verificationFlows (db w))))"
proof (rule conjI; intro allI impI)
  fix e
  assume err: "r = ResultErr e"
  from linkDiscordAccount_cases [OF assms] err
  consider (same) "db w' = db w"
    | (first) state flow tokens discordUser rows where
        "e = DatabaseError"
        "decodeOAuthState rt (p_state params) = Some state"
        "selectUnexpiredFlowByCode (st_linkingCode state) now (db w) = Inr (Some flow, db w)"
        "createDiscordOAuth2TokenWithCode discord (p_code params)
           (APP_URL env @ ''/oauth2/discord/'') = ResultOk tokens"
        "fetchDiscordUserData discord (accessToken tokens) = ResultOk discordUser"
        "upsertIdentities now (user_id discordUser) (refreshToken tokens)
           (vf_minecraftUUID flow) (db w) = Inr (rows, db w')"
    by auto
  then show "connections (db w') = connections (db w) \<and>
            verificationFlows (db w') = verificationFlows (db w) \<and>
            (db w' = db w \<or>
             (\<exists>state flow tokens discordUser rows.
                e = DatabaseError \<and>
                decodeOAuthState rt (p_state params) = Some state \<and>
                selectUnexpiredFlowByCode (st_linkingCode state) now (db w)
                  = Inr (Some flow, db w) \<and>
                createDiscordOAuth2TokenWithCode discord (p_code params)
                  (APP_URL env @ ''/oauth2/discord/'') = ResultOk tokens \<and>
                fetchDiscordUserData discord (accessToken tokens) = ResultOk discordUser \<and>
                upsertIdentities now (user_id discordUser) (refreshToken tokens)
                  (vf_minecraftUUID flow) (db w) = Inr (rows, db w')))"
  proof cases
    case same
    then show ?thesis by simp
  next
    case first
    from upsertIdentities_keeps [OF first(6)] first show ?thesis by blast
  qed
next
  fix name
  assume ok: "r = ResultOk name"
  from linkDiscordAccount_cases [OF assms] ok
  obtain state flow tokens discordUser discordRecord rest1 minecraftRecord rest2 d1 where
    pins: "decodeOAuthState rt (p_state params) = Some state"
        "selectUnexpiredFlowByCode (st_linkingCode state) now (db w) = Inr (Some flow, db w)"
        "createDiscordOAuth2TokenWithCode discord (p_code params)
           (APP_URL env @ ''/oauth2/discord/'') = ResultOk tokens"
        "fetchDiscordUserData discord (accessToken tokens) = ResultOk discordUser"
        "name = username discordUser" and
    first: "upsertIdentities now (user_id discordUser) (refreshToken tokens)
           (vf_minecraftUUID flow) (db w)
           = Inr ((discordRecord # rest1, minecraftRecord # rest2), d1)" and
    second: "connectAndConsume now (du_id discordRecord) (mu_id minecraftRecord) (vf_id flow) d1
               = Inr (((), ()), db w')"
    by auto
  from upsertIdentities_rows [OF first] upsertIdentities_keeps [OF first]
    connectAndConsume_effect [OF second]
  have "discordRecord \<in> set (discordUsers (db w')) \<and>
        du_discordID discordRecord = user_id discordUser \<and>
        du_discordRefreshToken discordRecord = Some (refreshToken tokens) \<and>
        minecraftRecord \<in> set (minecraftUsers (db w')) \<and>
        mu_minecraftUUID minecraftRecord = vf_minecraftUUID flow \<and>
        (\<exists>c \<in> set (connections (db w')).
           cn_discordUserID c = du_id discordRecord \<and>
           cn_minecraftUserID c = mu_id minecraftRecord) \<and>
        verificationFlows (db w')
          = filter (\<lambda>f. vf_id f \<noteq> vf_id flow) (verificationFlows (db w))"
    by simp
  with pins first second
  show "\<exists>state flow tokens discordUser discordRecord rest1 minecraftRecord rest2 d1.
               decodeOAuthState rt (p_state params) = Some state \<and>
               selectUnexpiredFlowByCode (st_linkingCode state) now (db w)
                 = Inr (Some flow, db w) \<and>
               createDiscordOAuth2TokenWithCode discord (p_code params)
                 (APP_URL env @ ''/oauth2/discord/'') = ResultOk tokens \<and>
               fetchDiscordUserData discord (accessToken tokens) = ResultOk discordUser \<and>
               name = username discordUser \<and>
               upsertIdentities now (user_id discordUser) (refreshToken tokens)
                 (vf_minecraftUUID flow) (db w)
                 = Inr ((discordRecord # rest1, minecraftRecord # rest2), d1) \<and>
               connectAndConsume now (du_id discordRecord) (mu_id minecraftRecord) (vf_id flow) d1
                 = Inr (((), ()), db w') \<and>
               discordRecord \<in> set (discordUsers (db w')) \<and>
               du_discordID discordRecord = user_id discordUser \<and>
               du_discordRefreshToken discordRecord = Some (refreshToken tokens) \<and>
               minecraftRecord \<in> set (minecraftUsers (db w')) \<and>
               mu_minecraftUUID minecraftRecord = vf_minecraftUUID flow \<and>
               (\<exists>c \<in> set (connections (db w')).
                  cn_discordUserID c = du_id discordRecord \<and>
                  cn_minecraftUserID c = mu_id minecraftRecord) \<and>
               verificationFlows (db w')
                 = filter (\<lambda>f. vf_id f \<noteq> vf_id flow) (verificationFlows (db w))"
    by blast
qed

lemma link_linkedWorld:
  "linkDiscordAccount envFixture runtimeFixture discordMember 10 noFaults callbackParams
     linkedWorld = (ResultErr DatabaseError, partialWorld)"
  by (simp add: linkDiscordAccount_def decodeOAuthState_def run_def tryCatch_def
        upsertIdentities_def connectAndConsume_def statement_defs nextId_def scenario_defs Let_def)

lemma link_openWorld:
  "linkDiscordAccount envFixture runtimeFixture discordMember 10 noFaults callbackParams
     openWorld = (ResultOk ''alice'', doneWorld)"
  by (simp add: linkDiscordAccount_def decodeOAuthState_def run_def tryCatch_def
        upsertIdentities_def connectAndConsume_def statement_defs nextId_def scenario_defs Let_def)

lemma link_batches:
  "upsertIdentities 10 ''d1'' ''rt2'' ''u2'' (db linkedWorld)
     = Inr (([aliceRow\<lparr>du_discordRefreshToken := Some ''rt2''\<rparr>], [alexRow]), db partialWorld)"
  "connectAndConsume 10 1 2 1 (db partialWorld)
     = Inl ''UNIQUE constraint failed: connections.discordUserID''"
  by (simp_all add: upsertIdentities_def connectAndConsume_def statement_defs nextId_def
        scenario_defs Let_def)

theorem linkDiscordAccount_two_batches_witness:
  "linkDiscordAccount envFixture runtimeFixture discordMember 10 noFaults callbackParams
     linkedWorld = (ResultErr DatabaseError, partialWorld) \<and>
   connections (db partialWorld) = connections (db linkedWorld) \<and>
   verificationFlows (db partialWorld) = verificationFlows (db linkedWorld) \<and>
   minecraftUsers (db linkedWorld) = [steveRow] \<and>
   minecraftUsers (db partialWorld) = [steveRow, alexRow] \<and>
   upsertIdentities 10 ''d1'' ''rt2'' ''u2'' (db linkedWorld)
     = Inr (([aliceRow\<lparr>du_discordRefreshToken := Some ''rt2''\<rparr>], [alexRow]), db partialWorld) \<and>
   linkDiscordAccount envFixture runtimeFixture discordMember 10 noFaults callbackParams
     openWorld = (ResultOk ''alice'', doneWorld) \<and>
   (\<exists>discordRecord minecraftRecord d1.
      upsertIdentities 10 ''d1'' ''rt2'' ''u2'' (db openWorld)
        = Inr (([discordRecord], [minecraftRecord]), d1) \<and>
      connectAndConsume 10 (du_id discordRecord) (mu_id minecraftRecord) 1 d1
        = Inr (((), ()), db doneWorld) \<and>
      discordRecord \<in> set (discordUsers (db doneWorld)) \<and>
      minecraftRecord \<in> set (minecraftUsers (db doneWorld))) \<and>
   connections (db doneWorld)
     = [\<lparr>cn_createdAt = 10, cn_discordUserID = 1, cn_id = 1, cn_minecraftUserID = 1\<rparr>] \<and>
   verificationFlows (db doneWorld) = []"
proof -
  have partial: "connections (db partialWorld) = connections (db linkedWorld) \<and>
      verificationFlows (db partialWorld) = verificationFlows (db linkedWorld)"
    using linkDiscordAccount_two_batches [OF link_linkedWorld] by simp
  have changed: "minecraftUsers (db linkedWorld) = [steveRow]"
    "minecraftUsers (db partialWorld) = [steveRow, alexRow]"
    by (simp_all add: linkedWorld_def partialWorld_def)
  from linkDiscordAccount_two_batches [OF link_openWorld]
  obtain state flow tokens discordUser discordRecord rest1 minecraftRecord rest2 d1 where
    pins: "decodeOAuthState runtimeFixture (p_state callbackParams) = Some state"
      "selectUnexpiredFlowByCode (st_linkingCode state) 10 (db openWorld)
         = Inr (Some flow, db openWorld)"
      "createDiscordOAuth2TokenWithCode discordMember (p_code callbackParams)
         (APP_URL envFixture @ ''/oauth2/discord/'') = ResultOk tokens"
      "fetchDiscordUserData discordMember (accessToken tokens) = ResultOk discordUser" and
    first: "upsertIdentities 10 (user_id discordUser) (refreshToken tokens)
         (vf_minecraftUUID flow) (db openWorld)
         = Inr ((discordRecord # rest1, minecraftRecord # rest2), d1)" and
    second: "connectAndConsume 10 (du_id discordRecord) (mu_id minecraftRecord) (vf_id flow) d1
         = Inr (((), ()), db doneWorld)" and
    inside: "discordRecord \<in> set (discordUsers (db doneWorld))"
      "minecraftRecord \<in> set (minecraftUsers (db doneWorld))"
    by auto
  from pins have vals: "flow = alexFlow" "tokens = tokensFixture"
    "discordUser = \<lparr>user_id = ''d1'', username = ''alice''\<rparr>"
    by (auto simp: decodeOAuthState_def selectUnexpiredFlowByCode_def scenario_defs
          split: option.splits)
  from first vals have shape: "rest1 = []" "rest2 = []"
    by (auto simp: upsertIdentities_def statement_defs nextId_def scenario_defs Let_def)
  have opened: "\<exists>discordRecord minecraftRecord d1.
      upsertIdentities 10 ''d1'' ''rt2'' ''u2'' (db openWorld)
        = Inr (([discordRecord], [minecraftRecord]), d1) \<and>
      connectAndConsume 10 (du_id discordRecord) (mu_id minecraftRecord) 1 d1
        = Inr (((), ()), db doneWorld) \<and>
      discordRecord \<in> set (discordUsers (db doneWorld)) \<and>
      minecraftRecord \<in> set (minecraftUsers (db doneWorld))"
    using first second inside vals shape
    by (auto simp: tokensFixture_def alexFlow_def)
  have ended: "connections (db doneWorld)
     = [\<lparr>cn_createdAt = 10, cn_discordUserID = 1, cn_id = 1, cn_minecraftUserID = 1\<rparr>] \<and>
   verificationFlows (db doneWorld) = []"
    by (simp add: doneWorld_def)
  show ?thesis
    using link_linkedWorld link_openWorld link_batches(1) partial changed opened ended
    by blast
qed

theorem linkDiscordAccount_partial_counterexample:
  "fst (linkDiscordAccount envFixture runtimeFixture discordMember 10 noFaults callbackParams
          linkedWorld) = ResultErr DatabaseError \<and>
   minecraftUsers (db linkedWorld) = [steveRow] \<and>
   minecraftUsers (db (snd (linkDiscordAccount envFixture runtimeFixture discordMember 10
                              noFaults callbackParams linkedWorld))) = [steveRow, alexRow] \<and>
   connections (db (snd (linkDiscordAccount envFixture runtimeFixture discordMember 10
                           noFaults callbackParams linkedWorld))) = [aliceSteve] \<and>
   verificationFlows (db (snd (linkDiscordAccount envFixture runtimeFixture discordMember 10
                                 noFaults callbackParams linkedWorld))) = [alexFlow]"
  by (simp add: link_linkedWorld) (simp add: partialWorld_def linkedWorld_def)

section \<open>Properties of the numbers\<close>

lemma powi_neg: "0 \<le> k \<Longrightarrow> 2 powi (- k) = 1 / (2::real) ^ nat k"
  by (simp add: power_int_minus_divide power_int_nonneg_exp)

lemma bitlen_pos: "0 < n \<Longrightarrow> 1 \<le> bitlen n"
  by (simp add: bitlen_alt_def)

lemma binade_lower_big:
  assumes "1 \<le> x"
  shows "2 powi binade x \<le> x"
proof -
  let ?n = "\<lfloor>x\<rfloor>"
  have n: "0 < ?n" using assms by simp
  have k: "1 \<le> bitlen ?n" using n by (rule bitlen_pos)
  have "(2::int) ^ nat (bitlen ?n - 1) \<le> ?n" using bitlen_bounds [OF n] by simp
  then have "of_int ((2::int) ^ nat (bitlen ?n - 1)) \<le> (of_int ?n :: real)"
    by (rule of_int_le_iff [THEN iffD2])
  then have "(2::real) ^ nat (bitlen ?n - 1) \<le> of_int ?n" by simp
  also have "\<dots> \<le> x" by simp
  finally show ?thesis using assms k by (simp add: binade_def power_int_nonneg_exp)
qed

lemma binade_upper_big:
  assumes "1 \<le> x"
  shows "x < 2 powi (binade x + 1)"
proof -
  let ?n = "\<lfloor>x\<rfloor>"
  have n: "0 < ?n" using assms by simp
  have k: "1 \<le> bitlen ?n" using n by (rule bitlen_pos)
  have "?n < (2::int) ^ nat (bitlen ?n)" using bitlen_bounds [OF n] by simp
  then have "?n + 1 \<le> (2::int) ^ nat (bitlen ?n)" by simp
  then have "of_int (?n + 1) \<le> (of_int ((2::int) ^ nat (bitlen ?n)) :: real)"
    by (rule of_int_le_iff [THEN iffD2])
  then have "of_int ?n + 1 \<le> (2::real) ^ nat (bitlen ?n)" by simp
  moreover have "x < of_int ?n + 1" by linarith
  ultimately have "x < (2::real) ^ nat (bitlen ?n)" by linarith
  then show ?thesis using assms k by (simp add: binade_def power_int_nonneg_exp)
qed

lemma binade_small:
  assumes "0 < x" and "x < 1"
  shows "2 powi binade x \<le> x" and "x < 2 powi (binade x + 1)"
proof -
  let ?y = "1 / x"
  let ?n = "\<lceil>?y\<rceil> - 1"
  have y: "1 < ?y" using assms by simp
  then have "2 \<le> \<lceil>?y\<rceil>" by linarith
  then have n: "0 < ?n" by simp
  have k: "1 \<le> bitlen ?n" using n by (rule bitlen_pos)
  have b: "x = \<bar>x\<bar>" "\<not> 1 \<le> \<bar>x\<bar>" using assms by simp_all
  have e: "binade x = - bitlen ?n" using b by (simp add: binade_def)
  have lo: "(2::int) ^ nat (bitlen ?n - 1) \<le> ?n" and hi: "?n < (2::int) ^ nat (bitlen ?n)"
    using bitlen_bounds [OF n] by simp_all
  have "of_int ?n < ?y" by linarith
  moreover have "of_int ((2::int) ^ nat (bitlen ?n - 1)) \<le> (of_int ?n :: real)"
    using lo by (rule of_int_le_iff [THEN iffD2])
  ultimately have ylo: "(2::real) ^ nat (bitlen ?n - 1) < ?y" by simp
  have "\<lceil>?y\<rceil> \<le> (2::int) ^ nat (bitlen ?n)" using hi by simp
  then have "(of_int \<lceil>?y\<rceil> :: real) \<le> of_int ((2::int) ^ nat (bitlen ?n))"
    by (simp only: of_int_le_iff)
  then have "(of_int \<lceil>?y\<rceil> :: real) \<le> 2 ^ nat (bitlen ?n)"
    by (simp only: of_int_power of_int_numeral)
  then have yhi: "?y \<le> (2::real) ^ nat (bitlen ?n)"
    using le_of_int_ceiling [of ?y] by linarith
  have p: "(0::real) < 2 ^ nat (bitlen ?n)" "(0::real) < 2 ^ nat (bitlen ?n - 1)" by simp_all
  have "1 / (2::real) ^ nat (bitlen ?n) \<le> x"
    using yhi assms(1) p by (simp add: field_simps)
  moreover have "2 powi (- bitlen ?n) = 1 / (2::real) ^ nat (bitlen ?n)"
    using k by (intro powi_neg) simp
  ultimately show "2 powi binade x \<le> x" using e by simp
  have "x < 1 / (2::real) ^ nat (bitlen ?n - 1)"
    using ylo assms(1) p by (simp add: field_simps)
  moreover have "2 powi (- bitlen ?n + 1) = 1 / (2::real) ^ nat (bitlen ?n - 1)"
    using k powi_neg [of "bitlen ?n - 1"] by simp
  ultimately show "x < 2 powi (binade x + 1)" using e by simp
qed

lemma binade_bounds:
  assumes "0 < x"
  shows "2 powi binade x \<le> x" and "x < 2 powi (binade x + 1)"
  using assms binade_lower_big [of x] binade_upper_big [of x] binade_small [of x]
  by (cases "1 \<le> x"; simp)+

lemma binade_mono:
  assumes "0 < x" and "x \<le> y"
  shows "binade x \<le> binade y"
proof (rule ccontr)
  assume "\<not> binade x \<le> binade y"
  then have "binade y + 1 \<le> binade x" by simp
  then have "(2::real) powi (binade y + 1) \<le> 2 powi binade x"
    by (rule power_int_increasing) simp
  moreover have "2 powi binade x \<le> x" using assms(1) by (rule binade_bounds)
  moreover have "y < 2 powi (binade y + 1)" using assms by (intro binade_bounds) simp
  ultimately show False using assms(2) by linarith
qed

lemma roundTiesToEven_bounds:
  "\<lfloor>r\<rfloor> \<le> roundTiesToEven r" "roundTiesToEven r \<le> \<lfloor>r\<rfloor> + 1"
  by (simp_all add: roundTiesToEven_def)

lemma roundTiesToEven_of_int [simp]: "roundTiesToEven (of_int n) = n"
  by (simp add: roundTiesToEven_def)

lemma roundTiesToEven_mono:
  assumes "r \<le> s"
  shows "roundTiesToEven r \<le> roundTiesToEven s"
proof (cases "\<lfloor>r\<rfloor> = \<lfloor>s\<rfloor>")
  case True
  then have "r - of_int \<lfloor>r\<rfloor> \<le> s - of_int \<lfloor>s\<rfloor>" using assms by simp
  then show ?thesis using True by (auto simp: roundTiesToEven_def)
next
  case False
  then have "\<lfloor>r\<rfloor> + 1 \<le> \<lfloor>s\<rfloor>" using floor_mono [OF assms] by simp
  then show ?thesis
    using roundTiesToEven_bounds(2) [of r] roundTiesToEven_bounds(1) [of s] by linarith
qed

lemma ulp_pos: "0 < ulp x"
  by (simp add: ulp_def)

lemma double_0 [simp]: "double 0 = 0"
  by (simp add: double_def)

lemma double_nonneg:
  assumes "0 \<le> x"
  shows "0 \<le> double x"
proof -
  have "0 \<le> x / ulp x" using assms ulp_pos [of x] by simp
  then have "roundTiesToEven 0 \<le> roundTiesToEven (x / ulp x)" by (rule roundTiesToEven_mono)
  then have "0 \<le> roundTiesToEven (x / ulp x)" using roundTiesToEven_of_int [of 0] by simp
  then show ?thesis using ulp_pos [of x] by (simp add: double_def)
qed

lemma double_upper:
  assumes "0 < x"
  shows "double x \<le> 2 powi (max (binade x) (- 1022) + 1)"
proof -
  let ?E = "max (binade x) (- 1022)"
  have u: "ulp x = 2 powi (?E - 52)" by (simp add: ulp_def)
  have "x < 2 powi (binade x + 1)" using assms by (rule binade_bounds)
  also have "\<dots> \<le> 2 powi (?E + 1)" by (rule power_int_increasing) simp_all
  finally have "x / ulp x \<le> 2 powi (?E + 1) / ulp x"
    using ulp_pos [of x] by (simp add: divide_right_mono)
  also have "2 powi (?E + 1) / ulp x = 2 powi ((?E + 1) - (?E - 52))"
    unfolding u by (subst power_int_diff) simp_all
  also have "\<dots> = of_int (2 ^ 53)" by simp
  finally have "roundTiesToEven (x / ulp x) \<le> roundTiesToEven (of_int (2 ^ 53))"
    by (rule roundTiesToEven_mono)
  then have "roundTiesToEven (x / ulp x) \<le> 2 ^ 53" by (simp only: roundTiesToEven_of_int)
  then have "(of_int (roundTiesToEven (x / ulp x)) :: real) \<le> of_int (2 ^ 53)"
    by (simp only: of_int_le_iff)
  then have "of_int (roundTiesToEven (x / ulp x)) * ulp x \<le> of_int (2 ^ 53) * ulp x"
    using ulp_pos [of x] by (simp add: mult_right_mono)
  also have "of_int (2 ^ 53) * ulp x = 2 powi 53 * 2 powi (?E - 52)" unfolding u by simp
  also have "\<dots> = 2 powi (53 + (?E - 52))" by (subst power_int_add) simp_all
  also have "53 + (?E - 52) = ?E + 1" by simp
  finally show ?thesis using assms by (simp add: double_def)
qed

lemma double_lower:
  assumes "0 < x" and "- 1022 \<le> binade x"
  shows "2 powi binade x \<le> double x"
proof -
  let ?E = "binade x"
  have u: "ulp x = 2 powi (?E - 52)" using assms(2) by (simp add: ulp_def max_def)
  have "2 powi ?E \<le> x" using assms(1) by (rule binade_bounds)
  then have "2 powi ?E / ulp x \<le> x / ulp x"
    using ulp_pos [of x] by (simp add: divide_right_mono)
  moreover have "2 powi ?E / ulp x = 2 powi (?E - (?E - 52))"
    unfolding u by (subst power_int_diff) simp_all
  moreover have "2 powi (?E - (?E - 52)) = (of_int (2 ^ 52) :: real)" by simp
  ultimately have "of_int (2 ^ 52) \<le> x / ulp x" by simp
  then have "roundTiesToEven (of_int (2 ^ 52)) \<le> roundTiesToEven (x / ulp x)"
    by (rule roundTiesToEven_mono)
  then have "2 ^ 52 \<le> roundTiesToEven (x / ulp x)" by (simp only: roundTiesToEven_of_int)
  then have "(of_int (2 ^ 52) :: real) \<le> of_int (roundTiesToEven (x / ulp x))"
    by (simp only: of_int_le_iff)
  then have "of_int (2 ^ 52) * ulp x \<le> of_int (roundTiesToEven (x / ulp x)) * ulp x"
    using ulp_pos [of x] by (simp add: mult_right_mono)
  moreover have "of_int (2 ^ 52) * ulp x = 2 powi 52 * 2 powi (?E - 52)" unfolding u by simp
  moreover have "2 powi 52 * 2 powi (?E - 52) = (2::real) powi (52 + (?E - 52))"
    by (subst power_int_add) simp_all
  ultimately show ?thesis using assms(1) by (simp add: double_def)
qed

lemma double_mono:
  assumes "0 \<le> x" and "x \<le> y"
  shows "double x \<le> double y"
proof (cases "x = 0")
  case True
  then show ?thesis using double_nonneg [of y] assms by simp
next
  case False
  then have x: "0 < x" and y: "0 < y" using assms by simp_all
  let ?Ex = "max (binade x) (- 1022)" and ?Ey = "max (binade y) (- 1022)"
  have le: "?Ex \<le> ?Ey" using binade_mono [OF x assms(2)] by simp
  show ?thesis
  proof (cases "?Ex = ?Ey")
    case True
    then have u: "ulp x = ulp y" by (simp add: ulp_def)
    have "x / ulp y \<le> y / ulp y" using assms(2) ulp_pos [of y] by (simp add: divide_right_mono)
    then have "roundTiesToEven (x / ulp y) \<le> roundTiesToEven (y / ulp y)"
      by (rule roundTiesToEven_mono)
    then have "(of_int (roundTiesToEven (x / ulp y)) :: real) \<le> of_int (roundTiesToEven (y / ulp y))"
      by (simp only: of_int_le_iff)
    then have "of_int (roundTiesToEven (x / ulp y)) * ulp y
                 \<le> of_int (roundTiesToEven (y / ulp y)) * ulp y"
      using ulp_pos [of y] by (simp add: mult_right_mono)
    then show ?thesis using x y u by (simp add: double_def)
  next
    case False
    then have lt: "?Ex + 1 \<le> ?Ey" using le by simp
    then have big: "- 1022 \<le> binade y" and Ey: "?Ey = binade y" by (simp_all add: max_def split: if_splits)
    have "double x \<le> 2 powi (?Ex + 1)" using x by (rule double_upper)
    also have "\<dots> \<le> 2 powi ?Ey" using lt by (rule power_int_increasing) simp
    also have "\<dots> \<le> double y" unfolding Ey using y big by (rule double_lower)
    finally show ?thesis .
  qed
qed

lemma double_literals:
  "double (double (3 / 10)) = double (3 / 10)"
  "double (double (17 / 20)) = double (17 / 20)"
  "double (double (3 / 10) + double (17 / 20)) = double (23 / 20)"
  by code_simp+

text \<open>
  The jitter factor lies between the doubles that \<^verbatim>\<open>0.85\<close> and \<^verbatim>\<open>1.15\<close> denote, for every
  value \<^verbatim>\<open>Math.random()\<close> can return.
\<close>

lemma jitter_range:
  assumes "0 \<le> rnd" and "rnd < 1"
  shows "double 0.85 \<le> jitter rnd" and "jitter rnd \<le> double 1.15"
proof -
  have range: "0 \<le> JITTER_RANGE" unfolding JITTER_RANGE_def by (rule double_nonneg) simp
  have low: "0 \<le> JITTER_MIN" unfolding JITTER_MIN_def by (rule double_nonneg) simp
  have "0 \<le> rnd * JITTER_RANGE" using assms(1) range by simp
  then have m0: "0 \<le> dmul rnd JITTER_RANGE" unfolding dmul_def by (rule double_nonneg)
  have "rnd * JITTER_RANGE \<le> JITTER_RANGE" using assms range by (simp add: mult_left_le_one_le)
  then have "dmul rnd JITTER_RANGE \<le> double JITTER_RANGE"
    unfolding dmul_def using \<open>0 \<le> rnd * JITTER_RANGE\<close> by (intro double_mono)
  then have m1: "dmul rnd JITTER_RANGE \<le> JITTER_RANGE"
    by (simp add: JITTER_RANGE_def double_literals)
  have "double JITTER_MIN \<le> double (dmul rnd JITTER_RANGE + JITTER_MIN)"
    using m0 low by (intro double_mono) simp_all
  then show "double 0.85 \<le> jitter rnd"
    by (simp add: jitter_def dadd_def JITTER_MIN_def double_literals)
  have "double (dmul rnd JITTER_RANGE + JITTER_MIN) \<le> double (JITTER_RANGE + JITTER_MIN)"
    using m0 m1 low by (intro double_mono) simp_all
  then show "jitter rnd \<le> double 1.15"
    by (simp add: jitter_def dadd_def JITTER_MIN_def JITTER_RANGE_def double_literals)
qed

section \<open>Properties of the Discord client\<close>

lemma backoff_capped:
  "backoff attempt maxEndTime dateNow rnd \<le> dsub (dsub maxEndTime dateNow) EXTRA_BUFFER_MS"
  by (simp add: backoff_def Let_def)

lemma sleeps_extend:
  assumes rest: "\<exists>more. slept' = (slept @ [d]) @ more \<and>
             int (length more) \<le> max 0 (retries + 1 - (attempt + 1)) \<and>
             (\<forall>i < length more.
                endsInTime maxEndTime (now_retry (env (attempt + 1 + int i))) (more ! i))"
    and first: "endsInTime maxEndTime (now_retry (env attempt)) d"
    and budget: "attempt \<le> retries"
  shows "\<exists>more. slept' = slept @ more \<and>
           int (length more) \<le> max 0 (retries + 1 - attempt) \<and>
           (\<forall>i < length more. endsInTime maxEndTime (now_retry (env (attempt + int i))) (more ! i))"
proof -
  from rest obtain more where m: "slept' = (slept @ [d]) @ more"
    "int (length more) \<le> max 0 (retries + 1 - (attempt + 1))"
    "\<forall>i < length more. endsInTime maxEndTime (now_retry (env (attempt + 1 + int i))) (more ! i)"
    by blast
  have "slept' = slept @ (d # more)" using m(1) by simp
  moreover have "int (length (d # more)) \<le> max 0 (retries + 1 - attempt)"
    using m(2) budget by simp
  moreover have "\<forall>i < length (d # more).
                   endsInTime maxEndTime (now_retry (env (attempt + int i))) ((d # more) ! i)"
  proof (intro allI impI)
    fix i assume "i < length (d # more)"
    show "endsInTime maxEndTime (now_retry (env (attempt + int i))) ((d # more) ! i)"
    proof (cases i)
      case 0
      then show ?thesis using first by simp
    next
      case (Suc j)
      then have "j < length more" using \<open>i < length (d # more)\<close> by simp
      then have "endsInTime maxEndTime (now_retry (env (attempt + 1 + int j))) (more ! j)"
        using m(3) by blast
      moreover have "attempt + int i = attempt + 1 + int j" using Suc by simp
      ultimately show ?thesis using Suc by (simp add: add.assoc)
    qed
  qed
  ultimately show ?thesis by blast
qed

lemma loop_over:
  "\<not> attempt \<le> retries + 1 \<Longrightarrow>
   discordFetch_loop retries maxEndTime env attempt slept = (ResultErr retries_exhausted, slept)"
  by (subst discordFetch_loop.simps) simp

lemma loop_deadline:
  "attempt \<le> retries + 1 \<Longrightarrow> dsub maxEndTime (now_attempt (env attempt)) \<le> 0 \<Longrightarrow>
   discordFetch_loop retries maxEndTime env attempt slept = (ResultErr timeout, slept)"
  by (subst discordFetch_loop.simps) simp

lemma loop_aborted:
  "attempt \<le> retries + 1 \<Longrightarrow> wasAborted (env attempt) \<Longrightarrow>
   discordFetch_loop retries maxEndTime env attempt slept = (ResultErr timeout, slept)"
  by (subst discordFetch_loop.simps) simp

lemma loop_inner:
  "attempt \<le> retries + 1 \<Longrightarrow> \<not> dsub maxEndTime (now_attempt (env attempt)) \<le> 0 \<Longrightarrow>
   \<not> wasAborted (env attempt) \<Longrightarrow>
   discordFetch_loop retries maxEndTime env attempt slept =
     (case discordFetchInner (fetched (env attempt)) (now_inner (env attempt)) of
        ResultOk v \<Rightarrow> (ResultOk v, slept)
      | ResultErr (Final d) \<Rightarrow> (ResultErr d, slept)
      | ResultErr (Retry afterMs) \<Rightarrow>
          if attempt > retries then (ResultErr retries_exhausted, slept)
          else
            (case afterMs of
               None \<Rightarrow>
                 if backoff attempt maxEndTime (now_retry (env attempt)) (random (env attempt)) \<le> 0
                 then (ResultErr retries_exhausted, slept)
                 else discordFetch_loop retries maxEndTime env (attempt + 1)
                        (slept @ [backoff attempt maxEndTime (now_retry (env attempt))
                                    (random (env attempt))])
             | Some ms \<Rightarrow>
                 if dadd (now_retry (env attempt)) ms \<ge> maxEndTime then (ResultErr timeout, slept)
                 else discordFetch_loop retries maxEndTime env (attempt + 1) (slept @ [ms])))"
  by (subst discordFetch_loop.simps) simp

lemma loop_step:
  assumes "discordFetch_loop retries maxEndTime env attempt slept = (res, slept')"
  shows "slept' = slept \<or>
         (attempt \<le> retries \<and>
          (\<exists>d. endsInTime maxEndTime (now_retry (env attempt)) d \<and>
               discordFetch_loop retries maxEndTime env (attempt + 1) (slept @ [d]) = (res, slept')))"
proof (cases "attempt \<le> retries + 1")
  case False
  then show ?thesis using assms loop_over [OF False, of maxEndTime env slept] by simp
next
  case running: True
  show ?thesis
  proof (cases "dsub maxEndTime (now_attempt (env attempt)) \<le> 0 \<or> wasAborted (env attempt)")
    case True
    then show ?thesis
      using assms loop_deadline [OF running, of maxEndTime env slept]
        loop_aborted [OF running, of env maxEndTime slept] by auto
  next
    case False
    then have eq: "discordFetch_loop retries maxEndTime env attempt slept =
      (case discordFetchInner (fetched (env attempt)) (now_inner (env attempt)) of
        ResultOk v \<Rightarrow> (ResultOk v, slept)
      | ResultErr (Final d) \<Rightarrow> (ResultErr d, slept)
      | ResultErr (Retry afterMs) \<Rightarrow>
          if attempt > retries then (ResultErr retries_exhausted, slept)
          else
            (case afterMs of
               None \<Rightarrow>
                 if backoff attempt maxEndTime (now_retry (env attempt)) (random (env attempt)) \<le> 0
                 then (ResultErr retries_exhausted, slept)
                 else discordFetch_loop retries maxEndTime env (attempt + 1)
                        (slept @ [backoff attempt maxEndTime (now_retry (env attempt))
                                    (random (env attempt))])
             | Some ms \<Rightarrow>
                 if dadd (now_retry (env attempt)) ms \<ge> maxEndTime then (ResultErr timeout, slept)
                 else discordFetch_loop retries maxEndTime env (attempt + 1) (slept @ [ms])))"
      using loop_inner [OF running, of maxEndTime env slept] by blast
    show ?thesis
    proof (cases "discordFetchInner (fetched (env attempt)) (now_inner (env attempt))")
      case (ResultOk v)
      then show ?thesis using assms eq by simp
    next
      case (ResultErr x)
      show ?thesis
      proof (cases x)
        case (Final d)
        then show ?thesis using assms eq ResultErr by simp
      next
        case (Retry afterMs)
        show ?thesis
        proof (cases "attempt > retries")
          case True
          then show ?thesis using assms eq ResultErr Retry by simp
        next
          case budget: False
          show ?thesis
          proof (cases afterMs)
            case None
            let ?b = "backoff attempt maxEndTime (now_retry (env attempt)) (random (env attempt))"
            have capped: "endsInTime maxEndTime (now_retry (env attempt)) ?b"
              using backoff_capped [of attempt maxEndTime "now_retry (env attempt)"
                      "random (env attempt)"] by (simp add: endsInTime_def)
            show ?thesis
            proof (cases "?b \<le> 0")
              case True
              then show ?thesis using assms eq ResultErr Retry budget None by simp
            next
              case False
              then have "discordFetch_loop retries maxEndTime env (attempt + 1) (slept @ [?b])
                           = (res, slept')"
                using assms eq ResultErr Retry budget None by simp
              then show ?thesis using capped budget
                by (intro disjI2 conjI exI [where x = ?b]) simp_all
            qed
          next
            case (Some ms)
            show ?thesis
            proof (cases "dadd (now_retry (env attempt)) ms \<ge> maxEndTime")
              case True
              then show ?thesis using assms eq ResultErr Retry budget Some by simp
            next
              case False
              then have "discordFetch_loop retries maxEndTime env (attempt + 1) (slept @ [ms])
                           = (res, slept')"
                using assms eq ResultErr Retry budget Some by simp
              then show ?thesis using False budget
                by (intro disjI2 conjI exI [where x = ms]) (simp_all add: endsInTime_def)
            qed
          qed
        qed
      qed
    qed
  qed
qed

lemma discordFetch_loop_sleeps:
  "discordFetch_loop retries maxEndTime env attempt slept = (res, slept') \<Longrightarrow>
   \<exists>more. slept' = slept @ more \<and>
          int (length more) \<le> max 0 (retries + 1 - attempt) \<and>
          (\<forall>i < length more. endsInTime maxEndTime (now_retry (env (attempt + int i))) (more ! i))"
proof (induction "nat (retries + 1 - attempt)" arbitrary: attempt slept)
  case 0
  then have "\<not> attempt \<le> retries" by simp
  then have "slept' = slept" using loop_step [OF "0.prems"] by simp
  then show ?case by simp
next
  case (Suc n)
  from loop_step [OF Suc.prems] show ?case
  proof
    assume "slept' = slept"
    then show ?thesis by simp
  next
    assume "attempt \<le> retries \<and>
      (\<exists>d. endsInTime maxEndTime (now_retry (env attempt)) d \<and>
           discordFetch_loop retries maxEndTime env (attempt + 1) (slept @ [d]) = (res, slept'))"
    then obtain d where budget: "attempt \<le> retries"
      and d: "endsInTime maxEndTime (now_retry (env attempt)) d"
      and rest: "discordFetch_loop retries maxEndTime env (attempt + 1) (slept @ [d]) = (res, slept')"
      by blast
    have "n = nat (retries + 1 - (attempt + 1))" using Suc.hyps(2) by simp
    from Suc.hyps(1) [OF this rest] d budget show ?thesis
      by (rule sleeps_extend)
  qed
qed

text \<open>
  C6. \<^verbatim>\<open>discordFetch\<close> runs its loop against the one deadline
  \<open>startTime + timeoutMs\<close>, with the caller's \<^verbatim>\<open>timeoutMs\<close> and \<^verbatim>\<open>retries\<close> or 5000 and
  3 when they are not given. An attempt that would start with no time left, or that the
  abort timer cuts short, returns timeout; a success or a final error of an attempt is
  returned as it is. After a retryable attempt within the retry budget: a delay hint
  that reaches the deadline returns timeout, otherwise the hint is slept; with no hint
  the delay is \<open>500 * 2 ^ (attempt - 1)\<close> times the jitter factor
  \<^verbatim>\<open>Math.random() * 0.3 + 0.85\<close>, which lies between the numbers \<^verbatim>\<open>0.85\<close> and \<^verbatim>\<open>1.15\<close>,
  capped at the remaining time minus 100 ms, and a delay that is not positive ends the
  loop with retries-exhausted. A retryable attempt that was the
  last of the budget returns retries-exhausted. Every delay slept ends in time, and
  there are no more delays than retries.
\<close>

theorem discordFetch_deadline:
  "discordFetch opts startTime env =
     discordFetch_loop (retriesOf opts) (dadd startTime (timeoutMsOf opts)) env 1 [] \<and>
   (opt_retries opts = None \<longrightarrow> retriesOf opts = 3) \<and>
   (opt_retries opts = Some r \<longrightarrow> retriesOf opts = r) \<and>
   (opt_timeoutMs opts = None \<longrightarrow> timeoutMsOf opts = 5000) \<and>
   (opt_timeoutMs opts = Some t \<longrightarrow> timeoutMsOf opts = t) \<and>
   (attempt \<le> retries + 1 \<and> dsub maxEndTime (now_attempt (env attempt)) \<le> 0 \<longrightarrow>
      discordFetch_loop retries maxEndTime env attempt slept = (ResultErr timeout, slept)) \<and>
   (attempt \<le> retries + 1 \<and> wasAborted (env attempt) \<longrightarrow>
      discordFetch_loop retries maxEndTime env attempt slept = (ResultErr timeout, slept)) \<and>
   (attemptRuns retries maxEndTime env attempt \<and> innerOf env attempt = ResultOk v \<longrightarrow>
      discordFetch_loop retries maxEndTime env attempt slept = (ResultOk v, slept)) \<and>
   (attemptRuns retries maxEndTime env attempt \<and> innerOf env attempt = ResultErr (Final d) \<longrightarrow>
      discordFetch_loop retries maxEndTime env attempt slept = (ResultErr d, slept)) \<and>
   (attemptRuns retries maxEndTime env attempt \<and> attempt \<le> retries \<and>
    innerOf env attempt = ResultErr (Retry (Some ms)) \<and>
    dadd (now_retry (env attempt)) ms \<ge> maxEndTime \<longrightarrow>
      discordFetch_loop retries maxEndTime env attempt slept = (ResultErr timeout, slept)) \<and>
   (attemptRuns retries maxEndTime env attempt \<and> attempt \<le> retries \<and>
    innerOf env attempt = ResultErr (Retry (Some ms)) \<and>
    dadd (now_retry (env attempt)) ms < maxEndTime \<longrightarrow>
      discordFetch_loop retries maxEndTime env attempt slept =
        discordFetch_loop retries maxEndTime env (attempt + 1) (slept @ [ms])) \<and>
   (attemptRuns retries maxEndTime env attempt \<and> attempt \<le> retries \<and>
    innerOf env attempt = ResultErr (Retry None) \<and>
    backoff attempt maxEndTime (now_retry (env attempt)) (random (env attempt)) \<le> 0 \<longrightarrow>
      discordFetch_loop retries maxEndTime env attempt slept
        = (ResultErr retries_exhausted, slept)) \<and>
   (attemptRuns retries maxEndTime env attempt \<and> attempt \<le> retries \<and>
    innerOf env attempt = ResultErr (Retry None) \<and>
    backoff attempt maxEndTime (now_retry (env attempt)) (random (env attempt)) > 0 \<longrightarrow>
      discordFetch_loop retries maxEndTime env attempt slept =
        discordFetch_loop retries maxEndTime env (attempt + 1)
          (slept @ [backoff attempt maxEndTime (now_retry (env attempt)) (random (env attempt))])) \<and>
   backoff attempt maxEndTime dateNow rnd =
     min (dmul (dmul 500 (double (2 powi (attempt - 1)))) (jitter rnd))
         (dsub (dsub maxEndTime dateNow) 100) \<and>
   jitter rnd = dadd (dmul rnd (double 0.3)) (double 0.85) \<and>
   (0 \<le> rnd \<and> rnd < 1 \<longrightarrow> double 0.85 \<le> jitter rnd \<and> jitter rnd \<le> double 1.15) \<and>
   (attemptRuns retries maxEndTime env attempt \<and> attempt = retries + 1 \<and>
    innerOf env attempt = ResultErr (Retry hint) \<longrightarrow>
      discordFetch_loop retries maxEndTime env attempt slept
        = (ResultErr retries_exhausted, slept)) \<and>
   (discordFetch opts startTime env = (res, sleeps) \<longrightarrow>
      int (length sleeps) \<le> max 0 (retriesOf opts) \<and>
      (\<forall>i < length sleeps.
         endsInTime (dadd startTime (timeoutMsOf opts)) (now_retry (env (1 + int i)))
           (sleeps ! i)))"
proof (intro conjI impI)
  show "discordFetch opts startTime env =
          discordFetch_loop (retriesOf opts) (dadd startTime (timeoutMsOf opts)) env 1 []"
    by (simp add: discordFetch_def)
  show "backoff attempt maxEndTime dateNow rnd =
     min (dmul (dmul 500 (double (2 powi (attempt - 1)))) (jitter rnd))
         (dsub (dsub maxEndTime dateNow) 100)"
    by (simp add: backoff_def EXTRA_BUFFER_MS_def Let_def)
  show "jitter rnd = dadd (dmul rnd (double 0.3)) (double 0.85)"
    by (simp add: jitter_def JITTER_RANGE_def JITTER_MIN_def)
next
  assume "opt_retries opts = None"
  then show "retriesOf opts = 3" by (simp add: retriesOf_def)
next
  assume "opt_retries opts = Some r"
  then show "retriesOf opts = r" by (simp add: retriesOf_def)
next
  assume "opt_timeoutMs opts = None"
  then show "timeoutMsOf opts = 5000" by (simp add: timeoutMsOf_def)
next
  assume "opt_timeoutMs opts = Some t"
  then show "timeoutMsOf opts = t" by (simp add: timeoutMsOf_def)
next
  assume "attempt \<le> retries + 1 \<and> dsub maxEndTime (now_attempt (env attempt)) \<le> 0"
  then show "discordFetch_loop retries maxEndTime env attempt slept = (ResultErr timeout, slept)"
    using loop_deadline [of attempt retries maxEndTime env slept] by simp
next
  assume "attempt \<le> retries + 1 \<and> wasAborted (env attempt)"
  then show "discordFetch_loop retries maxEndTime env attempt slept = (ResultErr timeout, slept)"
    using loop_aborted [of attempt retries env maxEndTime slept] by simp
next
  assume "attemptRuns retries maxEndTime env attempt \<and> innerOf env attempt = ResultOk v"
  then show "discordFetch_loop retries maxEndTime env attempt slept = (ResultOk v, slept)"
    using loop_inner [of attempt retries maxEndTime env slept]
    by (simp add: attemptRuns_def innerOf_def)
next
  assume "attemptRuns retries maxEndTime env attempt \<and>
    innerOf env attempt = ResultErr (Final d)"
  then show "discordFetch_loop retries maxEndTime env attempt slept = (ResultErr d, slept)"
    using loop_inner [of attempt retries maxEndTime env slept]
    by (simp add: attemptRuns_def innerOf_def)
next
  assume "attemptRuns retries maxEndTime env attempt \<and> attempt \<le> retries \<and>
    innerOf env attempt = ResultErr (Retry (Some ms)) \<and>
    dadd (now_retry (env attempt)) ms \<ge> maxEndTime"
  then show "discordFetch_loop retries maxEndTime env attempt slept = (ResultErr timeout, slept)"
    using loop_inner [of attempt retries maxEndTime env slept]
    by (simp add: attemptRuns_def innerOf_def)
next
  assume "attemptRuns retries maxEndTime env attempt \<and> attempt \<le> retries \<and>
    innerOf env attempt = ResultErr (Retry (Some ms)) \<and>
    dadd (now_retry (env attempt)) ms < maxEndTime"
  then show "discordFetch_loop retries maxEndTime env attempt slept =
        discordFetch_loop retries maxEndTime env (attempt + 1) (slept @ [ms])"
    using loop_inner [of attempt retries maxEndTime env slept]
    by (simp add: attemptRuns_def innerOf_def)
next
  assume "attemptRuns retries maxEndTime env attempt \<and> attempt \<le> retries \<and>
    innerOf env attempt = ResultErr (Retry None) \<and>
    backoff attempt maxEndTime (now_retry (env attempt)) (random (env attempt)) \<le> 0"
  then show "discordFetch_loop retries maxEndTime env attempt slept
        = (ResultErr retries_exhausted, slept)"
    using loop_inner [of attempt retries maxEndTime env slept]
    by (simp add: attemptRuns_def innerOf_def)
next
  assume "attemptRuns retries maxEndTime env attempt \<and> attempt \<le> retries \<and>
    innerOf env attempt = ResultErr (Retry None) \<and>
    backoff attempt maxEndTime (now_retry (env attempt)) (random (env attempt)) > 0"
  then show "discordFetch_loop retries maxEndTime env attempt slept =
        discordFetch_loop retries maxEndTime env (attempt + 1)
          (slept @ [backoff attempt maxEndTime (now_retry (env attempt)) (random (env attempt))])"
    using loop_inner [of attempt retries maxEndTime env slept]
    by (simp add: attemptRuns_def innerOf_def)
next
  assume rnd: "0 \<le> rnd \<and> rnd < 1"
  then show "double 0.85 \<le> jitter rnd" using jitter_range(1) [of rnd] by simp
  from rnd show "jitter rnd \<le> double 1.15" using jitter_range(2) [of rnd] by simp
next
  assume last: "attemptRuns retries maxEndTime env attempt \<and> attempt = retries + 1 \<and>
    innerOf env attempt = ResultErr (Retry hint)"
  then have runs: "attemptRuns retries maxEndTime env attempt" and spent: "retries < attempt"
    and inner: "innerOf env attempt = ResultErr (Retry hint)"
    by auto
  then show "discordFetch_loop retries maxEndTime env attempt slept
        = (ResultErr retries_exhausted, slept)"
    using loop_inner [of attempt retries maxEndTime env slept]
    by (simp add: attemptRuns_def innerOf_def)
next
  assume run: "discordFetch opts startTime env = (res, sleeps)"
  then have "discordFetch_loop (retriesOf opts) (dadd startTime (timeoutMsOf opts)) env 1 []
               = (res, sleeps)"
    by (simp add: discordFetch_def)
  from discordFetch_loop_sleeps [OF this]
  show "int (length sleeps) \<le> max 0 (retriesOf opts)"
    and "\<forall>i < length sleeps.
         endsInTime (dadd startTime (timeoutMsOf opts)) (now_retry (env (1 + int i)))
           (sleeps ! i)"
    by auto
qed

text \<open>What the two scenario clocks and endpoints give, attempt by attempt.\<close>

lemma busy_readings:
  "dadd 0 5000 = 5000"
  "attemptRuns 3 5000 busyEnv 1" "innerOf busyEnv 1 = ResultErr (Retry None)"
  "backoff 1 5000 (now_retry (busyEnv 1)) (random (busyEnv 1)) = 500"
  "attemptRuns 3 5000 busyEnv 2" "innerOf busyEnv 2 = ResultErr (Retry (Some 2000))"
  "dadd (now_retry (busyEnv 2)) 2000 < 5000"
  "attemptRuns 3 5000 busyEnv 3" "innerOf busyEnv 3 = ResultErr (Retry (Some 3000))"
  "dadd (now_retry (busyEnv 3)) 3000 \<ge> 5000"
  "dsub 2000 (now_attempt (busyEnv 3)) \<le> 0"
  by code_simp+

lemma down_readings:
  "attemptRuns 3 50 downEnv 1" "innerOf downEnv 1 = ResultErr (Retry None)"
  "backoff 1 50 (now_retry (downEnv 1)) (random (downEnv 1)) \<le> 0"
  "attemptRuns 3 5000 downEnv 4" "innerOf downEnv 4 = ResultErr (Retry None)"
  by code_simp+

lemma steady_readings:
  "attemptRuns 3 5000 (steadyEnv (answer 200)) 1"
  "innerOf (steadyEnv (answer 200)) 1 = ResultOk (JNull, 200)"
  "attemptRuns 3 5000 (steadyEnv (noBody 200)) 1"
  "innerOf (steadyEnv (noBody 200)) 1 = ResultErr (Final invalid_json)"
  "opt_retries hurried = Some 1" "opt_timeoutMs hurried = Some 1000"
  "dadd 0 1000 = 1000" "wasAborted (stalledEnv 1)"
  "opt_retries defaultOptions = None" "opt_timeoutMs defaultOptions = None"
  by code_simp+

theorem discordFetch_deadline_witness:
  "discordFetch defaultOptions 0 busyEnv = (ResultErr timeout, [500, 2000]) \<and>
   endsInTime 5000 (now_retry (busyEnv 1)) 500 \<and>
   endsInTime 5000 (now_retry (busyEnv 2)) 2000 \<and>
   discordFetch hurried 0 stalledEnv = (ResultErr timeout, []) \<and>
   discordFetch_loop 3 2000 busyEnv 3 [] = (ResultErr timeout, []) \<and>
   discordFetch_loop 3 50 downEnv 1 [] = (ResultErr retries_exhausted, []) \<and>
   discordFetch_loop 3 5000 downEnv 4 [425, 850, 1700]
     = (ResultErr retries_exhausted, [425, 850, 1700]) \<and>
   discordFetch_loop 3 5000 (steadyEnv (answer 200)) 1 [] = (ResultOk (JNull, 200), []) \<and>
   discordFetch_loop 3 5000 (steadyEnv (noBody 200)) 1 [] = (ResultErr invalid_json, []) \<and>
   double 0.85 \<le> jitter 0.5 \<and> jitter 0.5 \<le> double 1.15"
proof -
  have start: "discordFetch defaultOptions 0 busyEnv = discordFetch_loop 3 5000 busyEnv 1 []"
    using discordFetch_deadline [where opts = defaultOptions and startTime = 0 and env = busyEnv
        and r = 1 and t = 1000 and attempt = 1 and retries = 3 and maxEndTime = 5000
        and slept = "[]" and v = "(JNull, 200)" and d = invalid_json and ms = 0 and rnd = "0.5"
        and dateNow = 10 and hint = None and res = "ResultErr timeout" and sleeps = "[]"] busy_readings steady_readings
    by simp
  have first: "discordFetch_loop 3 5000 busyEnv 1 [] = discordFetch_loop 3 5000 busyEnv 2 [500]"
    using discordFetch_deadline [where opts = defaultOptions and startTime = 0 and env = busyEnv
        and r = 1 and t = 1000 and attempt = 1 and retries = 3 and maxEndTime = 5000
        and slept = "[]" and v = "(JNull, 200)" and d = invalid_json and ms = 0 and rnd = "0.5"
        and dateNow = 10 and hint = None and res = "ResultErr timeout" and sleeps = "[]"] busy_readings
    by simp
  have second: "discordFetch_loop 3 5000 busyEnv 2 [500]
                  = discordFetch_loop 3 5000 busyEnv 3 [500, 2000]"
    using discordFetch_deadline [where opts = defaultOptions and startTime = 0 and env = busyEnv
        and r = 1 and t = 1000 and attempt = 2 and retries = 3 and maxEndTime = 5000
        and slept = "[500]" and v = "(JNull, 200)" and d = invalid_json and ms = 2000 and rnd = "0.5"
        and dateNow = 10 and hint = None and res = "ResultErr timeout" and sleeps = "[]"] busy_readings
    by simp
  have third: "discordFetch_loop 3 5000 busyEnv 3 [500, 2000] = (ResultErr timeout, [500, 2000])"
    using discordFetch_deadline [where opts = defaultOptions and startTime = 0 and env = busyEnv
        and r = 1 and t = 1000 and attempt = 3 and retries = 3 and maxEndTime = 5000
        and slept = "[500, 2000]" and v = "(JNull, 200)" and d = invalid_json and ms = 3000 and rnd = "0.5"
        and dateNow = 10 and hint = None and res = "ResultErr timeout" and sleeps = "[]"] busy_readings
    by simp
  have whole: "discordFetch defaultOptions 0 busyEnv = (ResultErr timeout, [500, 2000])"
    using start first second third by simp
  have bounds: "int (length [500, 2000 :: real]) \<le> max 0 (retriesOf defaultOptions) \<and>
    (\<forall>i < length [500, 2000 :: real].
      endsInTime (dadd 0 (timeoutMsOf defaultOptions)) (now_retry (busyEnv (1 + int i)))
        ([500, 2000] ! i))"
    using discordFetch_deadline [where opts = defaultOptions and startTime = 0 and env = busyEnv
        and r = 1 and t = 1000 and attempt = 1 and retries = 3 and maxEndTime = 5000
        and slept = "[]" and v = "(JNull, 200)" and d = invalid_json and ms = 0 and rnd = "0.5"
        and dateNow = 10 and hint = None and res = "ResultErr timeout" and sleeps = "[500, 2000]"] whole
    by simp
  have deadline: "dadd 0 (timeoutMsOf defaultOptions) = 5000"
    using discordFetch_deadline [where opts = defaultOptions and startTime = 0 and env = busyEnv
        and r = 1 and t = 1000 and attempt = 1 and retries = 3 and maxEndTime = 5000
        and slept = "[]" and v = "(JNull, 200)" and d = invalid_json and ms = 0 and rnd = "0.5"
        and dateNow = 10 and hint = None and res = "ResultErr timeout" and sleeps = "[]"] busy_readings steady_readings
    by simp
  have ends: "endsInTime 5000 (now_retry (busyEnv 1)) 500"
    "endsInTime 5000 (now_retry (busyEnv 2)) 2000"
    using bounds [THEN conjunct2, rule_format, of 0] bounds [THEN conjunct2, rule_format, of 1]
      deadline
    by simp_all
  have stalled: "discordFetch hurried 0 stalledEnv = (ResultErr timeout, [])"
    using discordFetch_deadline [where opts = hurried and startTime = 0 and env = stalledEnv
        and r = 1 and t = 1000 and attempt = 1 and retries = 1 and maxEndTime = 1000
        and slept = "[]" and v = "(JNull, 200)" and d = invalid_json and ms = 0 and rnd = "0.5"
        and dateNow = 10 and hint = None and res = "ResultErr timeout" and sleeps = "[]"] steady_readings
    by simp
  have late: "discordFetch_loop 3 2000 busyEnv 3 [] = (ResultErr timeout, [])"
    using discordFetch_deadline [where opts = defaultOptions and startTime = 0 and env = busyEnv
        and r = 1 and t = 1000 and attempt = 3 and retries = 3 and maxEndTime = 2000
        and slept = "[]" and v = "(JNull, 200)" and d = invalid_json and ms = 0 and rnd = "0.5"
        and dateNow = 10 and hint = None and res = "ResultErr timeout" and sleeps = "[]"] busy_readings
    by simp
  have short: "discordFetch_loop 3 50 downEnv 1 [] = (ResultErr retries_exhausted, [])"
    using discordFetch_deadline [where opts = defaultOptions and startTime = 0 and env = downEnv
        and r = 1 and t = 1000 and attempt = 1 and retries = 3 and maxEndTime = 50
        and slept = "[]" and v = "(JNull, 200)" and d = invalid_json and ms = 0 and rnd = "0.5"
        and dateNow = 10 and hint = None and res = "ResultErr timeout" and sleeps = "[]"] down_readings
    by simp
  have spent: "discordFetch_loop 3 5000 downEnv 4 [425, 850, 1700]
                 = (ResultErr retries_exhausted, [425, 850, 1700])"
    using discordFetch_deadline [where opts = defaultOptions and startTime = 0 and env = downEnv
        and r = 1 and t = 1000 and attempt = 4 and retries = 3 and maxEndTime = 5000
        and slept = "[425, 850, 1700]" and v = "(JNull, 200)" and d = invalid_json and ms = 0 and rnd = "0.5"
        and dateNow = 10 and hint = None and res = "ResultErr timeout" and sleeps = "[]"] down_readings
    by simp
  have served: "discordFetch_loop 3 5000 (steadyEnv (answer 200)) 1 [] = (ResultOk (JNull, 200), [])"
    using discordFetch_deadline [where opts = defaultOptions and startTime = 0 and env = "steadyEnv (answer 200)"
        and r = 1 and t = 1000 and attempt = 1 and retries = 3 and maxEndTime = 5000
        and slept = "[]" and v = "(JNull, 200)" and d = invalid_json and ms = 0 and rnd = "0.5"
        and dateNow = 10 and hint = None and res = "ResultErr timeout" and sleeps = "[]"] steady_readings
    by simp
  have broken: "discordFetch_loop 3 5000 (steadyEnv (noBody 200)) 1 []
                  = (ResultErr invalid_json, [])"
    using discordFetch_deadline [where opts = defaultOptions and startTime = 0 and env = "steadyEnv (noBody 200)"
        and r = 1 and t = 1000 and attempt = 1 and retries = 3 and maxEndTime = 5000
        and slept = "[]" and v = "(JNull, 200)" and d = invalid_json and ms = 0 and rnd = "0.5"
        and dateNow = 10 and hint = None and res = "ResultErr timeout" and sleeps = "[]"] steady_readings
    by simp
  have factor: "double 0.85 \<le> jitter 0.5 \<and> jitter 0.5 \<le> double 1.15"
    using discordFetch_deadline [where opts = defaultOptions and startTime = 0 and env = busyEnv
        and r = 1 and t = 1000 and attempt = 1 and retries = 3 and maxEndTime = 5000
        and slept = "[]" and v = "(JNull, 200)" and d = invalid_json and ms = 0 and rnd = "0.5"
        and dateNow = 10 and hint = None and res = "ResultErr timeout" and sleeps = "[]"]
    by simp
  show ?thesis
    using whole ends stalled late short spent served broken factor by blast
qed

text \<open>
  C3, as the code has it. Take a revocation whose fetch succeeds and is not classified
  retryable (the status is neither 429 nor a 5xx), and whose response body parses as
  JSON. Then the revocation returns invalid-auth for status 401, success for status
  200 or 204 whatever the parsed body holds, and unexpected-response for every other
  status, the other 2xx statuses included. The first conjunct says this of whatever
  response \<^verbatim>\<open>discordFetch\<close> hands back, after any number of retries; the second says it
  of the response of a first attempt that runs.
\<close>

theorem revokeDiscordOAuth2Token_status:
  "(fst (discordFetch defaultOptions startTime env) = ResultOk (data, statusCode) \<longrightarrow>
      revokeDiscordOAuth2Token startTime env =
        (if statusCode = 401 then ResultErr invalid_auth
         else if statusCode = 200 \<or> statusCode = 204 then ResultOk ()
         else ResultErr unexpected_response)) \<and>
   (attemptRuns 3 (dadd startTime 5000) env 1 \<and> fetched (env 1) = Inr response \<and>
    status response \<noteq> 429 \<and> \<not> (500 \<le> status response \<and> status response < 600) \<and>
    json_body response = Inr body \<longrightarrow>
      revokeDiscordOAuth2Token startTime env =
        (if status response = 401 then ResultErr invalid_auth
         else if status response = 200 \<or> status response = 204 then ResultOk ()
         else ResultErr unexpected_response))"
proof (intro conjI impI)
  assume "fst (discordFetch defaultOptions startTime env) = ResultOk (data, statusCode)"
  then show "revokeDiscordOAuth2Token startTime env =
        (if statusCode = 401 then ResultErr invalid_auth
         else if statusCode = 200 \<or> statusCode = 204 then ResultOk ()
         else ResultErr unexpected_response)"
    by (simp add: revokeDiscordOAuth2Token_def)
next
  assume first: "attemptRuns 3 (dadd startTime 5000) env 1 \<and> fetched (env 1) = Inr response \<and>
    status response \<noteq> 429 \<and> \<not> (500 \<le> status response \<and> status response < 600) \<and>
    json_body response = Inr body"
  then have "discordFetchInner (fetched (env 1)) (now_inner (env 1))
               = ResultOk (body, status response)"
    by (simp add: discordFetchInner_def tryCatch_def)
  with first have "discordFetch_loop 3 (dadd startTime 5000) env 1 []
                     = (ResultOk (body, status response), [])"
    using loop_inner [of 1 3 "dadd startTime 5000" env "[]"]
    by (simp add: attemptRuns_def)
  then have "fst (discordFetch defaultOptions startTime env) = ResultOk (body, status response)"
    by (simp add: discordFetch_def defaultOptions_def retriesOf_def timeoutMsOf_def)
  then show "revokeDiscordOAuth2Token startTime env =
        (if status response = 401 then ResultErr invalid_auth
         else if status response = 200 \<or> status response = 204 then ResultOk ()
         else ResultErr unexpected_response)"
    by (simp add: revokeDiscordOAuth2Token_def)
qed

lemma answer_readings:
  "fst (discordFetch defaultOptions 0 (steadyEnv (answer 200))) = ResultOk (JNull, 200)"
  "attemptRuns 3 (dadd 0 5000) (steadyEnv (answer 401)) 1"
  "fetched (steadyEnv (answer 401) 1) = Inr (answer 401)"
  "status (answer 401) = 401"
  "json_body (answer 401) = Inr JNull"
  by code_simp+

theorem revokeDiscordOAuth2Token_status_witness:
  "fst (discordFetch defaultOptions 0 (steadyEnv (answer 200))) = ResultOk (JNull, 200) \<and>
   revokeDiscordOAuth2Token 0 (steadyEnv (answer 200)) = ResultOk () \<and>
   attemptRuns 3 (dadd 0 5000) (steadyEnv (answer 401)) 1 \<and>
   fetched (steadyEnv (answer 401) 1) = Inr (answer 401) \<and>
   status (answer 401) = 401 \<and> json_body (answer 401) = Inr JNull \<and>
   revokeDiscordOAuth2Token 0 (steadyEnv (answer 401)) = ResultErr invalid_auth"
  using revokeDiscordOAuth2Token_status
          [where startTime = 0 and env = "steadyEnv (answer 200)" and data = JNull
             and statusCode = 200 and response = "answer 200" and body = JNull]
        revokeDiscordOAuth2Token_status
          [where startTime = 0 and env = "steadyEnv (answer 401)" and data = JNull
             and statusCode = 401 and response = "answer 401" and body = JNull]
        answer_readings
  by simp

theorem revokeDiscordOAuth2Token_201_counterexample:
  "fst (discordFetch defaultOptions 0 (steadyEnv (answer 201))) = ResultOk (JNull, 201) \<and>
   revokeDiscordOAuth2Token 0 (steadyEnv (answer 201)) = ResultErr unexpected_response"
  by code_simp

text \<open>
  When the body does not parse, \<^verbatim>\<open>discordFetchInner\<close> returns invalid-json before
  \<^verbatim>\<open>revokeDiscordOAuth2Token\<close> looks at the status: a 204, which carries no body, and a 401
  with an empty body are both answered invalid-json, although the source comments the
  status test with ``The body strictly doesn't matter''.
\<close>

lemma revokeDiscordOAuth2Token_no_body:
  "revokeDiscordOAuth2Token 0 (steadyEnv (noBody 204)) = ResultErr invalid_json"
  "revokeDiscordOAuth2Token 0 (steadyEnv (noBody 401)) = ResultErr invalid_json"
  by code_simp+

section \<open>Properties of the linking codes\<close>

lemma charsLength_36: "charsLength = 36"
  by (simp add: charsLength_def CHARS_def)

lemma maxValid_252: "maxValid = 252"
  by (simp add: maxValid_def charsLength_36)

lemma distinct_CHARS: "distinct CHARS"
  by (simp add: CHARS_def)

lemma byteAt_within: "arrayIndex < CODE_LENGTH * 2 \<Longrightarrow>
  byteAt rnd (filling * (CODE_LENGTH * 2) + arrayIndex) = rnd filling arrayIndex"
  by (simp add: byteAt_def)

lemma byteAt_refill:
  "byteAt rnd (filling * (CODE_LENGTH * 2) + CODE_LENGTH * 2) = rnd (filling + 1) 0"
  by (simp add: byteAt_def CODE_LENGTH_def)

lemma symbolOf_in_CHARS: "symbolOf byte \<in> set CHARS"
proof -
  have "unat byte mod charsLength < length CHARS"
    by (simp add: charsLength_def CHARS_def)
  then show ?thesis unfolding symbolOf_def by (rule nth_mem)
qed

lemma read_next:
  assumes "pos < n"
  shows "map symbolOf (filter accepted (map (byteAt rnd) [pos..<n])) =
           (if accepted (byteAt rnd pos) then [symbolOf (byteAt rnd pos)] else []) @
           map symbolOf (filter accepted (map (byteAt rnd) [Suc pos..<n]))"
  using assms by (simp add: upt_conv_Cons)

lemma reads_step:
  assumes res: "result = code' @ map symbolOf (filter accepted (map (byteAt rnd) [Suc pos..<n]))"
    and len: "length code' \<le> CODE_LENGTH \<longrightarrow> length result = CODE_LENGTH"
    and code': "code' = (if unat byte < maxValid
                         then code @ [CHARS ! (unat byte mod charsLength)] else code)"
    and byte: "byteAt rnd pos = byte"
    and n: "Suc pos \<le> n"
    and shorter: "length code < CODE_LENGTH"
  shows "\<exists>n \<ge> pos. result = code @ map symbolOf (filter accepted (map (byteAt rnd) [pos..<n])) \<and>
           (length code \<le> CODE_LENGTH \<longrightarrow> length result = CODE_LENGTH)"
proof (intro exI [where x = n] conjI impI)
  show "pos \<le> n" using n by simp
  have "pos < n" using n by simp
  from read_next [OF this, of rnd]
  have "map symbolOf (filter accepted (map (byteAt rnd) [pos..<n])) =
          (if accepted byte then [symbolOf byte] else []) @
          map symbolOf (filter accepted (map (byteAt rnd) [Suc pos..<n]))"
    using byte by simp
  moreover have "code' = code @ (if accepted byte then [symbolOf byte] else [])"
    using code' by (simp add: accepted_def symbolOf_def)
  ultimately show "result = code @ map symbolOf (filter accepted (map (byteAt rnd) [pos..<n]))"
    using res by simp
  have "length code' \<le> CODE_LENGTH" using code' shorter by simp
  then show "length result = CODE_LENGTH" using len by simp
qed

text \<open>
  Partial correctness of the loop: whatever it returns is the code it started from,
  followed by the symbols of the accepted bytes among those read from the current
  position up to some later one, and it has length 8 if it did not start longer.
\<close>

lemma generateLinkingCode_loop_reads:
  assumes "generateLinkingCode_loop rnd code filling arrayIndex = Some result"
    and "arrayIndex \<le> CODE_LENGTH * 2"
  shows "\<exists>n \<ge> filling * (CODE_LENGTH * 2) + arrayIndex.
           result = code @ map symbolOf (filter accepted
                      (map (byteAt rnd) [filling * (CODE_LENGTH * 2) + arrayIndex..<n])) \<and>
           (length code \<le> CODE_LENGTH \<longrightarrow> length result = CODE_LENGTH)"
  using assms
proof (induction rnd code filling arrayIndex result
       rule: generateLinkingCode_loop.raw_induct [rotated 1, consumes 1])
  case (1 loop rnd code filling arrayIndex result)
  let ?pos = "filling * (CODE_LENGTH * 2) + arrayIndex"
  show ?case
  proof (cases "length code < CODE_LENGTH")
    case False
    then have "result = code" using "1.hyps" by simp
    then show ?thesis using False by (intro exI [where x = ?pos]) simp
  next
    case shorter: True
    show ?thesis
    proof (cases "arrayIndex \<ge> CODE_LENGTH * 2")
      case True
      then have idx: "arrayIndex = CODE_LENGTH * 2" using "1.prems" by simp
      let ?byte = "rnd (filling + 1) 0"
      let ?code' = "if unat ?byte < maxValid then code @ [CHARS ! (unat ?byte mod charsLength)] else code"
      have byte: "byteAt rnd ?pos = ?byte" using idx byteAt_refill [of rnd filling] by simp
      have call: "loop rnd ?code' (filling + 1) 1 = Some result"
        using "1.hyps" shorter True by (simp split: if_splits)
      have "1 \<le> CODE_LENGTH * 2" by (simp add: CODE_LENGTH_def)
      from "1.IH" [OF call this] obtain n
        where n: "n \<ge> (filling + 1) * (CODE_LENGTH * 2) + 1"
          and res: "result = ?code' @ map symbolOf (filter accepted
                      (map (byteAt rnd) [(filling + 1) * (CODE_LENGTH * 2) + 1..<n]))"
          and len: "length ?code' \<le> CODE_LENGTH \<longrightarrow> length result = CODE_LENGTH"
        by blast
      have next_pos: "(filling + 1) * (CODE_LENGTH * 2) + 1 = Suc ?pos" using idx by simp
      show ?thesis
        using res len byte n shorter unfolding next_pos
        by (intro reads_step [where code' = ?code' and byte = ?byte and n = n]) simp_all
    next
      case False
      then have idx: "arrayIndex < CODE_LENGTH * 2" by simp
      let ?byte = "rnd filling arrayIndex"
      let ?code' = "if unat ?byte < maxValid then code @ [CHARS ! (unat ?byte mod charsLength)] else code"
      have byte: "byteAt rnd ?pos = ?byte" using byteAt_within [OF idx] by simp
      have call: "loop rnd ?code' filling (arrayIndex + 1) = Some result"
        using "1.hyps" shorter False by (simp split: if_splits)
      have "arrayIndex + 1 \<le> CODE_LENGTH * 2" using idx by simp
      from "1.IH" [OF call this] obtain n
        where n: "n \<ge> filling * (CODE_LENGTH * 2) + (arrayIndex + 1)"
          and res: "result = ?code' @ map symbolOf (filter accepted
                      (map (byteAt rnd) [filling * (CODE_LENGTH * 2) + (arrayIndex + 1)..<n]))"
          and len: "length ?code' \<le> CODE_LENGTH \<longrightarrow> length result = CODE_LENGTH"
        by blast
      have next_pos: "filling * (CODE_LENGTH * 2) + (arrayIndex + 1) = Suc ?pos" by simp
      show ?thesis
        using res len byte n shorter unfolding next_pos
        by (intro reads_step [where code' = ?code' and byte = ?byte and n = n]) simp_all
    qed
  qed
qed

lemma residue_class:
  assumes "k < 36"
  shows "{n::nat. n < 252 \<and> n mod 36 = k} = (\<lambda>j. k + 36 * j) ` {0..<7}"
proof (intro set_eqI iffI)
  fix n assume "n \<in> {n::nat. n < 252 \<and> n mod 36 = k}"
  then have n: "n < 252" "n mod 36 = k" by simp_all
  have "n = k + 36 * (n div 36)" using n(2) by (metis mod_div_mult_eq mult.commute add.commute)
  moreover have "n div 36 < 7" using n(1) by simp
  ultimately show "n \<in> (\<lambda>j. k + 36 * j) ` {0..<7}"
    by (intro image_eqI [where x = "n div 36"]) simp_all
next
  fix n assume "n \<in> (\<lambda>j. k + 36 * j) ` {0..<7}"
  then obtain j where "j < 7" "n = k + 36 * j" by auto
  then show "n \<in> {n::nat. n < 252 \<and> n mod 36 = k}" using assms by simp
qed

lemma card_residue_class:
  assumes "k < 36"
  shows "card {n::nat. n < 252 \<and> n mod 36 = k} = 7"
proof -
  have "inj_on (\<lambda>j::nat. k + 36 * j) {0..<7}" by (simp add: inj_on_def)
  then have "card ((\<lambda>j::nat. k + 36 * j) ` {0..<7}) = card {0..<7::nat}" by (rule card_image)
  then show ?thesis using residue_class [OF assms] by simp
qed

lemma card_bytes:
  "card {b :: 8 word. P (unat b)} = card {n. n < 256 \<and> P n}"
proof -
  have "unat ` {b :: 8 word. P (unat b)} = {n. n < 256 \<and> P n}"
  proof (intro set_eqI iffI)
    fix n assume "n \<in> unat ` {b :: 8 word. P (unat b)}"
    then obtain b :: "8 word" where b: "n = unat b" "P (unat b)" by auto
    have "unat b < 2 ^ LENGTH(8)" by (rule unsigned_less)
    then show "n \<in> {n. n < 256 \<and> P n}" using b by simp
  next
    fix n assume "n \<in> {n. n < 256 \<and> P n}"
    then have n: "n < 256" "P n" by simp_all
    have "unat (word_of_nat n :: 8 word) = n" using n(1) by (simp add: unat_of_nat)
    then show "n \<in> unat ` {b :: 8 word. P (unat b)}" using n(2) by (metis (mono_tags) image_eqI mem_Collect_eq)
  qed
  moreover have "inj_on unat {b :: 8 word. P (unat b)}"
    by (rule inj_on_subset [OF inj_unsigned]) simp
  ultimately show ?thesis using card_image [of unat "{b :: 8 word. P (unat b)}"] by simp
qed

lemma seven_bytes_per_symbol:
  assumes "c \<in> set CHARS"
  shows "card {b. accepted b \<and> symbolOf b = c} = 7"
proof -
  from assms obtain k where k: "k < length CHARS" "CHARS ! k = c"
    by (auto simp: in_set_conv_nth)
  have len: "length CHARS = 36" using charsLength_36 by (simp add: charsLength_def)
  have same: "\<And>n. (CHARS ! (n mod 36) = c) = (n mod 36 = k)"
    using k len nth_eq_iff_index_eq [OF distinct_CHARS, of _ k] by auto
  have "{b. accepted b \<and> symbolOf b = c} = {b :: 8 word. unat b < 252 \<and> unat b mod 36 = k}"
    by (simp add: accepted_def symbolOf_def maxValid_252 charsLength_36 same)
  then have "card {b. accepted b \<and> symbolOf b = c}
               = card {n. n < 256 \<and> (n < 252 \<and> n mod 36 = k)}"
    using card_bytes [of "\<lambda>n. n < 252 \<and> n mod 36 = k"] by simp
  also have "{n::nat. n < 256 \<and> (n < 252 \<and> n mod 36 = k)} = {n. n < 252 \<and> n mod 36 = k}"
    by auto
  finally show ?thesis using card_residue_class [of k] k len by simp
qed

text \<open>
  C5. A code returned by \<^verbatim>\<open>generateLinkingCode\<close> has length 8 and symbols of the
  36-symbol alphabet only. It is read off the bytes in the order they are drawn: a byte
  contributes exactly when it is accepted, that is below 252, and then contributes the
  symbol at index \<open>byte mod 36\<close>; every symbol of the alphabet has exactly 7 accepted
  bytes that map to it.
\<close>

theorem generateLinkingCode_unbiased:
  "(generateLinkingCode rnd = Some code \<longrightarrow>
      length code = 8 \<and> set code \<subseteq> set CHARS \<and>
      (\<exists>n. code = map symbolOf (filter accepted (map (byteAt rnd) [0..<n])))) \<and>
   (accepted byte \<longleftrightarrow> unat byte < 252) \<and>
   symbolOf byte = CHARS ! (unat byte mod 36) \<and>
   length CHARS = 36 \<and> distinct CHARS \<and>
   (\<forall>c \<in> set CHARS. card {b. accepted b \<and> symbolOf b = c} = 7)"
proof (intro conjI impI ballI)
  assume "generateLinkingCode rnd = Some code"
  then have "generateLinkingCode_loop rnd [] 0 0 = Some code"
    by (simp add: generateLinkingCode_def)
  from generateLinkingCode_loop_reads [OF this]
  obtain n where n: "code = map symbolOf (filter accepted (map (byteAt rnd) [0..<n]))"
    and len: "length code = CODE_LENGTH"
    by auto
  show "length code = 8" using len by (simp add: CODE_LENGTH_def)
  show "set code \<subseteq> set CHARS" using n symbolOf_in_CHARS by auto
  show "\<exists>n. code = map symbolOf (filter accepted (map (byteAt rnd) [0..<n]))" using n by blast
next
  show "accepted byte \<longleftrightarrow> unat byte < 252" by (simp add: accepted_def maxValid_252)
  show "symbolOf byte = CHARS ! (unat byte mod 36)" by (simp add: symbolOf_def charsLength_36)
  show "length CHARS = 36" using charsLength_36 by (simp add: charsLength_def)
  show "distinct CHARS" by (rule distinct_CHARS)
next
  fix c assume "c \<in> set CHARS"
  then show "card {b. accepted b \<and> symbolOf b = c} = 7" by (rule seven_bytes_per_symbol)
qed

lemma generateLinkingCode_skewed: "generateLinkingCode skewedBytes = Some ''klmnopab''"
  by code_simp

theorem generateLinkingCode_unbiased_witness:
  "generateLinkingCode skewedBytes = Some ''klmnopab'' \<and>
   length ''klmnopab'' = 8 \<and> set ''klmnopab'' \<subseteq> set CHARS \<and>
   CHR ''k'' \<in> set CHARS \<and> card {b. accepted b \<and> symbolOf b = CHR ''k''} = 7"
proof -
  have k: "CHR ''k'' \<in> set CHARS" by (simp add: CHARS_def)
  show ?thesis
    using generateLinkingCode_unbiased [of skewedBytes "''klmnopab''"]
      generateLinkingCode_skewed k
    by blast
qed

section \<open>Properties of createVerificationFlow\<close>

lemma find_only:
  "filter P xs = [x] \<Longrightarrow> Q x \<Longrightarrow> find (\<lambda>y. P y \<and> Q y) xs = Some x"
proof (induction xs)
  case Nil
  then show ?case by simp
next
  case (Cons a xs)
  show ?case
  proof (cases "P a")
    case True
    then have "a = x" using Cons.prems(1) by simp
    then show ?thesis using True Cons.prems(2) by simp
  next
    case False
    then show ?thesis using Cons by simp
  qed
qed

lemma find_SomeD: "find P xs = Some y \<Longrightarrow> y \<in> set xs \<and> P y"
  by (induction xs) (auto split: if_splits)

lemma filter_key_distinct:
  "distinct (map f xs) \<Longrightarrow> find (\<lambda>x. f x = k \<and> Q x) xs = Some y \<Longrightarrow>
   filter (\<lambda>x. f x = k) xs = [y]"
proof (induction xs)
  case Nil
  then show ?case by simp
next
  case (Cons a xs)
  show ?case
  proof (cases "f a = k")
    case True
    then have none: "filter (\<lambda>x. f x = k) xs = []"
      using Cons.prems(1) by (auto simp: filter_empty_conv image_iff)
    have "y \<in> set (a # xs)" "f y = k"
      using find_SomeD [OF Cons.prems(2)] by simp_all
    then have "y = a" using True Cons.prems(1) by (auto simp: image_iff)
    then show ?thesis using True none by simp
  next
    case False
    then show ?thesis using Cons by simp
  qed
qed

lemma insertFlow_ok:
  assumes "insertFlow now expiresAt linkingCode uuid d = Inr (u, d')"
  shows "\<exists>row. filter (\<lambda>f. vf_minecraftUUID f = uuid) (verificationFlows d') = [row] \<and>
           vf_linkingCode row = linkingCode \<and> vf_expiresAt row = expiresAt"
proof -
  have none: "\<forall>f \<in> set (verificationFlows d). vf_minecraftUUID f \<noteq> uuid"
    using assms by (auto simp: insertFlow_def split: if_splits)
  then have "filter (\<lambda>f. vf_minecraftUUID f = uuid) (verificationFlows d) = []"
    by (simp add: filter_empty_conv)
  then show ?thesis
    using assms none by (auto simp: insertFlow_def Let_def split: if_splits)
qed

lemma insertNewFlow_ok:
  assumes "insertNewFlow faults now expiresAt linkingCode uuid w = (ResultOk r, w')"
  shows "r_expiresAt r = expiresAt \<and>
         (\<exists>row. filter (\<lambda>f. vf_minecraftUUID f = uuid) (verificationFlows (db w')) = [row] \<and>
            vf_linkingCode row = r_linkingCode r \<and> vf_expiresAt row = expiresAt)"
proof -
  obtain q w1 where runs: "run faults (insertFlow now expiresAt linkingCode uuid) w = (q, w1)"
    by (cases "run faults (insertFlow now expiresAt linkingCode uuid) w") auto
  then have r: "r = \<lparr>r_expiresAt = expiresAt, r_linkingCode = linkingCode\<rparr>" and w: "w' = w1"
    and ok: "\<exists>u. q = ResultOk u"
    using assms by (auto simp: insertNewFlow_def split: Result.splits)
  from run_cases [OF runs] ok obtain u
    where "insertFlow now expiresAt linkingCode uuid (db w) = Inr (u, db w1)"
    by auto
  from insertFlow_ok [OF this] show ?thesis using r w by simp
qed

lemma generationLoop_step:
  assumes "generationLoop faults rnd now expiresAt uuid attempt w = Some (ResultOk r, w')"
  shows "attempt < MAX_CODE_GENERATION_ATTEMPTS \<and>
         ((\<exists>linkingCode w1. insertNewFlow faults now expiresAt linkingCode uuid w1 = (ResultOk r, w')) \<or>
          (\<exists>w1. generationLoop faults rnd now expiresAt uuid (attempt + 1) w1 = Some (ResultOk r, w')))"
  using assms
  by (subst (asm) generationLoop.simps)
     (auto split: if_splits option.splits prod.splits Result.splits)

lemma generationLoop_ok:
  "generationLoop faults rnd now expiresAt uuid attempt w = Some (ResultOk r, w') \<Longrightarrow>
   r_expiresAt r = expiresAt \<and>
   (\<exists>row. filter (\<lambda>f. vf_minecraftUUID f = uuid) (verificationFlows (db w')) = [row] \<and>
      vf_linkingCode row = r_linkingCode r \<and> vf_expiresAt row = expiresAt)"
proof (induction "MAX_CODE_GENERATION_ATTEMPTS - attempt" arbitrary: attempt w)
  case 0
  then show ?case using generationLoop_step [OF "0.prems"] by simp
next
  case (Suc n)
  from generationLoop_step [OF Suc.prems]
  consider (inserted) linkingCode w1
      where "insertNewFlow faults now expiresAt linkingCode uuid w1 = (ResultOk r, w')"
    | (retried) w1
      where "generationLoop faults rnd now expiresAt uuid (attempt + 1) w1 = Some (ResultOk r, w')"
    by blast
  then show ?case
  proof cases
    case inserted
    then show ?thesis by (rule insertNewFlow_ok)
  next
    case retried
    have "n = MAX_CODE_GENERATION_ATTEMPTS - (attempt + 1)" using Suc.hyps(2) by simp
    from Suc.hyps(1) [OF this retried] show ?thesis .
  qed
qed

lemma run_updateFlowExpiry:
  "run faults (updateFlowExpiry flowId e) w1 = (ResultOk u, w2) \<Longrightarrow>
   verificationFlows (db w2) =
     map (\<lambda>f. if vf_id f = flowId then f\<lparr>vf_expiresAt := e\<rparr> else f) (verificationFlows (db w1))"
  by (auto simp: run_def tryCatch_def updateFlowExpiry_def split: if_splits)

lemma filter_map_expiry:
  "filter (\<lambda>f. vf_minecraftUUID f = uuid)
     (map (\<lambda>f. if vf_id f = flowId then f\<lparr>vf_expiresAt := e\<rparr> else f) flows)
   = map (\<lambda>f. if vf_id f = flowId then f\<lparr>vf_expiresAt := e\<rparr> else f)
       (filter (\<lambda>f. vf_minecraftUUID f = uuid) flows)"
  by (induction flows) auto

text \<open>
  What a successful call leaves behind: exactly one flow row for the game account,
  holding the returned code and expiring at the returned instant, \<open>now\<close> plus the TTL.
\<close>

lemma createVerificationFlow_ok:
  assumes call: "createVerificationFlow env now faults rnd params w = Some (ResultOk r, w')"
    and uniq: "distinct (map vf_minecraftUUID (verificationFlows (db w)))"
  shows "r_expiresAt r = now + EXPIRY_DURATION_MS \<and>
         (\<exists>row. filter (\<lambda>f. vf_minecraftUUID f = p_minecraftUUID params)
                   (verificationFlows (db w')) = [row] \<and>
            vf_linkingCode row = r_linkingCode r \<and>
            vf_expiresAt row = now + EXPIRY_DURATION_MS)"
proof -
  let ?uuid = "p_minecraftUUID params"
  let ?exp = "now + EXPIRY_DURATION_MS"
  obtain q w1 where sel: "run faults (selectUnexpiredFlowByUUID ?uuid now) w = (q, w1)"
    by (cases "run faults (selectUnexpiredFlowByUUID ?uuid now) w") auto
  from call sel obtain found where q: "q = ResultOk found"
    by (cases q) (auto simp: createVerificationFlow_def Let_def split: if_splits)
  from run_cases [OF sel] q
  have found: "found = find (\<lambda>f. vf_minecraftUUID f = ?uuid \<and> vf_expiresAt f > now)
                         (verificationFlows (db w))"
    and same: "db w1 = db w"
    by (auto simp: selectUnexpiredFlowByUUID_def)
  show ?thesis
  proof (cases found)
    case None
    obtain q2 w2 where del: "run faults (deleteFlowsByUUID ?uuid) w1 = (q2, w2)"
      by (cases "run faults (deleteFlowsByUUID ?uuid) w1") auto
    have "generationLoop faults rnd now ?exp ?uuid 0 w2 = Some (ResultOk r, w')"
      using call sel q None del
      by (auto simp: createVerificationFlow_def Let_def split: if_splits Result.splits)
    from generationLoop_ok [OF this] show ?thesis .
  next
    case (Some flow)
    obtain q2 w2 where upd: "run faults (updateFlowExpiry (vf_id flow) ?exp) w1 = (q2, w2)"
      by (cases "run faults (updateFlowExpiry (vf_id flow) ?exp) w1") auto
    have r: "r = \<lparr>r_expiresAt = ?exp, r_linkingCode = vf_linkingCode flow\<rparr>" and w': "w' = w2"
      and ok: "\<exists>u. q2 = ResultOk u"
      using call sel q Some upd
      by (auto simp: createVerificationFlow_def Let_def split: if_splits Result.splits)
    from ok obtain u where "q2 = ResultOk u" by blast
    with upd have "run faults (updateFlowExpiry (vf_id flow) ?exp) w1 = (ResultOk u, w2)" by simp
    from run_updateFlowExpiry [OF this]
    have flows: "verificationFlows (db w2) =
                   map (\<lambda>f. if vf_id f = vf_id flow then f\<lparr>vf_expiresAt := ?exp\<rparr> else f)
                       (verificationFlows (db w))"
      using same by simp
    have only: "filter (\<lambda>f. vf_minecraftUUID f = ?uuid) (verificationFlows (db w)) = [flow]"
      using uniq found Some by (intro filter_key_distinct) auto
    have "filter (\<lambda>f. vf_minecraftUUID f = ?uuid) (verificationFlows (db w'))
            = [flow\<lparr>vf_expiresAt := ?exp\<rparr>]"
      using flows w' only by (simp add: filter_map_expiry)
    then show ?thesis using r by simp
  qed
qed

text \<open>
  A call that finds the game account's single flow row unexpired, and succeeds, returns
  that row's code and leaves the row as the only one, with the new expiry.
\<close>

lemma createVerificationFlow_again:
  assumes call: "createVerificationFlow env now faults rnd params w = Some (ResultOk r, w')"
    and only: "filter (\<lambda>f. vf_minecraftUUID f = p_minecraftUUID params)
                 (verificationFlows (db w)) = [row]"
    and live: "vf_expiresAt row > now"
  shows "r_linkingCode r = vf_linkingCode row \<and> r_expiresAt r = now + EXPIRY_DURATION_MS \<and>
         filter (\<lambda>f. vf_minecraftUUID f = p_minecraftUUID params) (verificationFlows (db w'))
           = [row\<lparr>vf_expiresAt := now + EXPIRY_DURATION_MS\<rparr>]"
proof -
  let ?uuid = "p_minecraftUUID params"
  let ?exp = "now + EXPIRY_DURATION_MS"
  have found: "find (\<lambda>f. vf_minecraftUUID f = ?uuid \<and> vf_expiresAt f > now)
                 (verificationFlows (db w)) = Some row"
    using only live by (rule find_only)
  obtain q w1 where sel: "run faults (selectUnexpiredFlowByUUID ?uuid now) w = (q, w1)"
    by (cases "run faults (selectUnexpiredFlowByUUID ?uuid now) w") auto
  from call sel obtain v where q: "q = ResultOk v"
    by (cases q) (auto simp: createVerificationFlow_def Let_def split: if_splits)
  from run_cases [OF sel] q found
  have v: "v = Some row" and same: "db w1 = db w"
    by (auto simp: selectUnexpiredFlowByUUID_def)
  obtain q2 w2 where upd: "run faults (updateFlowExpiry (vf_id row) ?exp) w1 = (q2, w2)"
    by (cases "run faults (updateFlowExpiry (vf_id row) ?exp) w1") auto
  have r: "r = \<lparr>r_expiresAt = ?exp, r_linkingCode = vf_linkingCode row\<rparr>" and w': "w' = w2"
    and ok: "\<exists>u. q2 = ResultOk u"
    using call sel q v upd
    by (auto simp: createVerificationFlow_def Let_def split: if_splits Result.splits)
  from ok obtain u where "q2 = ResultOk u" by blast
  with upd have "run faults (updateFlowExpiry (vf_id row) ?exp) w1 = (ResultOk u, w2)" by simp
  from run_updateFlowExpiry [OF this]
  have flows: "verificationFlows (db w2) =
                 map (\<lambda>f. if vf_id f = vf_id row then f\<lparr>vf_expiresAt := ?exp\<rparr> else f)
                     (verificationFlows (db w))"
    using same by simp
  have "filter (\<lambda>f. vf_minecraftUUID f = ?uuid) (verificationFlows (db w'))
          = [row\<lparr>vf_expiresAt := ?exp\<rparr>]"
    using flows w' only by (simp add: filter_map_expiry)
  then show ?thesis using r by simp
qed

text \<open>
  C4. With a valid shared secret and the datastore answering, a call for a game account
  that has an unexpired flow returns that flow's code and sets the expiry of the row to
  \<open>now\<close> plus 15 minutes. Hence, with the unique index on the game account's UUID, two
  successful calls for one account, the second no earlier than the first and before the
  first's expiry, return the same code with the second expiry not before the first, and
  exactly one flow row exists for the account after each; and the second call does
  succeed when the datastore answers it.
\<close>

theorem createVerificationFlow_idempotent:
  "(compare env (p_sharedSecret params) \<and> \<not> faults (calls w) \<and> \<not> faults (Suc (calls w)) \<and>
    find (\<lambda>f. vf_minecraftUUID f = p_minecraftUUID params \<and> vf_expiresAt f > now)
      (verificationFlows (db w)) = Some flow \<longrightarrow>
      createVerificationFlow env now faults rnd params w =
        Some (ResultOk \<lparr>r_expiresAt = now + 15 * 60 * 1000, r_linkingCode = vf_linkingCode flow\<rparr>,
              \<lparr>db = (db w)\<lparr>verificationFlows :=
                        map (\<lambda>f. if vf_id f = vf_id flow
                                  then f\<lparr>vf_expiresAt := now + 15 * 60 * 1000\<rparr> else f)
                            (verificationFlows (db w))\<rparr>,
               calls = Suc (Suc (calls w))\<rparr>)) \<and>
   (distinct (map vf_minecraftUUID (verificationFlows (db w))) \<and>
    createVerificationFlow env now faults rnd params w = Some (ResultOk r1, w1) \<and>
    now \<le> now2 \<and> now2 < r_expiresAt r1 \<longrightarrow>
      length (filter (\<lambda>f. vf_minecraftUUID f = p_minecraftUUID params)
                (verificationFlows (db w1))) = 1 \<and>
      (\<not> faults2 (calls w1) \<and> \<not> faults2 (Suc (calls w1)) \<longrightarrow>
         (\<exists>r w'. createVerificationFlow env now2 faults2 rnd2 params w1 = Some (ResultOk r, w'))) \<and>
      (createVerificationFlow env now2 faults2 rnd2 params w1 = Some (ResultOk r2, w2) \<longrightarrow>
         r_linkingCode r2 = r_linkingCode r1 \<and> r_expiresAt r1 \<le> r_expiresAt r2 \<and>
         length (filter (\<lambda>f. vf_minecraftUUID f = p_minecraftUUID params)
                   (verificationFlows (db w2))) = 1))"
proof (intro conjI impI)
  assume a: "compare env (p_sharedSecret params) \<and> \<not> faults (calls w) \<and>
    \<not> faults (Suc (calls w)) \<and>
    find (\<lambda>f. vf_minecraftUUID f = p_minecraftUUID params \<and> vf_expiresAt f > now)
      (verificationFlows (db w)) = Some flow"
  then show "createVerificationFlow env now faults rnd params w =
        Some (ResultOk \<lparr>r_expiresAt = now + 15 * 60 * 1000, r_linkingCode = vf_linkingCode flow\<rparr>,
              \<lparr>db = (db w)\<lparr>verificationFlows :=
                        map (\<lambda>f. if vf_id f = vf_id flow
                                  then f\<lparr>vf_expiresAt := now + 15 * 60 * 1000\<rparr> else f)
                            (verificationFlows (db w))\<rparr>,
               calls = Suc (Suc (calls w))\<rparr>)"
    by (simp add: createVerificationFlow_def run_ok selectUnexpiredFlowByUUID_def
          updateFlowExpiry_def EXPIRY_DURATION_MS_def Let_def)
next
  assume b: "distinct (map vf_minecraftUUID (verificationFlows (db w))) \<and>
    createVerificationFlow env now faults rnd params w = Some (ResultOk r1, w1) \<and>
    now \<le> now2 \<and> now2 < r_expiresAt r1"
  then have uniq: "distinct (map vf_minecraftUUID (verificationFlows (db w)))"
    and call1: "createVerificationFlow env now faults rnd params w = Some (ResultOk r1, w1)"
    and later: "now \<le> now2" and within: "now2 < r_expiresAt r1"
    by simp_all
  from createVerificationFlow_ok [OF call1 uniq] obtain row
    where exp1: "r_expiresAt r1 = now + EXPIRY_DURATION_MS"
      and only: "filter (\<lambda>f. vf_minecraftUUID f = p_minecraftUUID params)
                   (verificationFlows (db w1)) = [row]"
      and code: "vf_linkingCode row = r_linkingCode r1"
      and rowexp: "vf_expiresAt row = now + EXPIRY_DURATION_MS"
    by blast
  have live: "vf_expiresAt row > now2" using within exp1 rowexp by simp
  show "length (filter (\<lambda>f. vf_minecraftUUID f = p_minecraftUUID params)
                  (verificationFlows (db w1))) = 1"
    using only by simp
  have secret: "compare env (p_sharedSecret params)"
    using call1 by (auto simp: createVerificationFlow_def split: if_splits)
  have found: "find (\<lambda>f. vf_minecraftUUID f = p_minecraftUUID params \<and> vf_expiresAt f > now2)
                 (verificationFlows (db w1)) = Some row"
    using only live by (rule find_only)
  {
    assume "\<not> faults2 (calls w1) \<and> \<not> faults2 (Suc (calls w1))"
    then show "\<exists>r w'. createVerificationFlow env now2 faults2 rnd2 params w1 = Some (ResultOk r, w')"
      using secret found
      by (simp add: createVerificationFlow_def run_ok selectUnexpiredFlowByUUID_def
            updateFlowExpiry_def Let_def)
  }
  {
    assume call2: "createVerificationFlow env now2 faults2 rnd2 params w1 = Some (ResultOk r2, w2)"
    from createVerificationFlow_again [OF call2 only live]
    have r2: "r_linkingCode r2 = vf_linkingCode row"
      "r_expiresAt r2 = now2 + EXPIRY_DURATION_MS"
      "filter (\<lambda>f. vf_minecraftUUID f = p_minecraftUUID params) (verificationFlows (db w2))
         = [row\<lparr>vf_expiresAt := now2 + EXPIRY_DURATION_MS\<rparr>]"
      by simp_all
    show "r_linkingCode r2 = r_linkingCode r1" using r2(1) code by simp
    show "r_expiresAt r1 \<le> r_expiresAt r2" using r2(2) exp1 later by simp
    show "length (filter (\<lambda>f. vf_minecraftUUID f = p_minecraftUUID params)
                    (verificationFlows (db w2))) = 1"
      using r2(3) by simp
  }
qed

lemma first_request:
  "createVerificationFlow envFixture 10 noFaults sameBytes newcomerParams linkedWorld =
     Some (ResultOk \<lparr>r_expiresAt = 900010, r_linkingCode = ''klmnopab''\<rparr>, requestedWorld)"
  by code_simp

lemma second_request:
  "createVerificationFlow envFixture 500 noFaults sameBytes newcomerParams requestedWorld =
     Some (ResultOk \<lparr>r_expiresAt = 900500, r_linkingCode = ''klmnopab''\<rparr>, extendedWorld)"
  by code_simp

lemmas request_defs = sameBytes_def newcomerParams_def newcomerFlow_def requestedWorld_def
  extendedWorld_def

theorem createVerificationFlow_idempotent_witness:
  "createVerificationFlow envFixture 10 noFaults sameBytes newcomerParams linkedWorld =
     Some (ResultOk \<lparr>r_expiresAt = 900010, r_linkingCode = ''klmnopab''\<rparr>, requestedWorld) \<and>
   createVerificationFlow envFixture 500 noFaults sameBytes newcomerParams requestedWorld =
     Some (ResultOk \<lparr>r_expiresAt = 900500, r_linkingCode = ''klmnopab''\<rparr>, extendedWorld) \<and>
   length (filter (\<lambda>f. vf_minecraftUUID f = p_minecraftUUID newcomerParams)
             (verificationFlows (db requestedWorld))) = 1 \<and>
   length (filter (\<lambda>f. vf_minecraftUUID f = p_minecraftUUID newcomerParams)
             (verificationFlows (db extendedWorld))) = 1 \<and>
   r_expiresAt \<lparr>r_expiresAt = 900010, r_linkingCode = ''klmnopab''\<rparr>
     \<le> r_expiresAt \<lparr>r_expiresAt = 900500, r_linkingCode = ''klmnopab''\<rparr>"
proof -
  have reuse: "createVerificationFlow envFixture 500 noFaults sameBytes newcomerParams
                 requestedWorld =
     Some (ResultOk \<lparr>r_expiresAt = 900500, r_linkingCode = ''klmnopab''\<rparr>, extendedWorld)"
    using createVerificationFlow_idempotent [where env = envFixture and params = newcomerParams
            and faults = noFaults and w = requestedWorld and now = 500 and flow = newcomerFlow
            and rnd = sameBytes and ?r1.0 = undefined and ?w1.0 = requestedWorld
            and ?now2.0 = 0 and ?faults2.0 = noFaults and ?rnd2.0 = sameBytes
            and ?r2.0 = undefined and ?w2.0 = requestedWorld]
    by (simp add: scenario_defs request_defs compare_def)
  have twice: "length (filter (\<lambda>f. vf_minecraftUUID f = p_minecraftUUID newcomerParams)
             (verificationFlows (db requestedWorld))) = 1 \<and>
   length (filter (\<lambda>f. vf_minecraftUUID f = p_minecraftUUID newcomerParams)
             (verificationFlows (db extendedWorld))) = 1 \<and>
   r_expiresAt \<lparr>r_expiresAt = 900010, r_linkingCode = ''klmnopab''\<rparr>
     \<le> r_expiresAt \<lparr>r_expiresAt = 900500, r_linkingCode = ''klmnopab''\<rparr>"
    using createVerificationFlow_idempotent [where env = envFixture and params = newcomerParams
            and faults = noFaults and w = linkedWorld and now = 10 and flow = alexFlow
            and rnd = sameBytes
            and ?r1.0 = "\<lparr>r_expiresAt = 900010, r_linkingCode = ''klmnopab''\<rparr>"
            and ?w1.0 = requestedWorld and ?now2.0 = 500 and ?faults2.0 = noFaults
            and ?rnd2.0 = sameBytes
            and ?r2.0 = "\<lparr>r_expiresAt = 900500, r_linkingCode = ''klmnopab''\<rparr>"
            and ?w2.0 = extendedWorld]
      first_request second_request
    by (simp add: linkedWorld_def alexFlow_def)
  show ?thesis using first_request reuse twice by blast
qed

end
